(* ===== verification/Prelude.thy ===== *)
theory Prelude
  imports Main "HOL-Library.Word"
begin

text \<open>
  What every component shares: the machine integers and byte encodings the code uses, the
  outcome of an asynchronous Rust call, the actions that thread a state through such calls,
  and the relational reasoning about actions on which the component proofs rest.

  \<^item> \<open>outcome\<close> is what a Rust \<open>async fn\<close> returning \<open>Result<T, E>\<close> does: \<open>Ok\<close>, \<open>Err\<close>,
    \<open>Dropped\<close> (the caller dropped the future at an \<open>await\<close>, so the rest of the body never
    runs but every mutation made so far stays) or \<open>Panicked\<close>.
  \<^item> an action is a state transformer with an outcome; \<open>and_then\<close> is Rust's \<open>?\<close> sequencing.
  \<^item> \<open>within R m\<close>: every run of \<open>m\<close>, whatever its outcome, relates the state before and
    after by \<open>R\<close>. Frame, trace and invariant properties are all of this form, and
    \<open>within_intros\<close> proves them along the structure of the code.
\<close>

unbundle bit_operations_syntax

section \<open>Machine integers\<close>

type_synonym u8 = "8 word"
type_synonym u16 = "16 word"
type_synonym u32 = "32 word"
type_synonym u64 = "64 word"

named_theorems byte_simps \<open>evaluation of byte encodings and slices\<close>
named_theorems act_simps \<open>unfolding of the action combinators\<close>
named_theorems within_intros \<open>relational rules for actions, one per combinator\<close>

text \<open>\<open>u32::try_from(usize)\<close> and \<open>u16::try_from(u64)\<close>.\<close>

definition u32_try_from :: "nat \<Rightarrow> u32 option" where
  "u32_try_from n = (if n < 2 ^ 32 then Some (of_nat n) else None)"

definition u16_try_from :: "u64 \<Rightarrow> u16 option" where
  "u16_try_from w = (if unat w < 2 ^ 16 then Some (ucast w) else None)"

text \<open>\<open>checked_add\<close> at any width, and \<open>usize::checked_mul\<close> for a \<open>usize\<close> of \<open>uw\<close> bits.\<close>

definition checked_add :: "'a::len word \<Rightarrow> 'a word \<Rightarrow> 'a word option" where
  "checked_add a b = (if unat a + unat b < 2 ^ LENGTH('a) then Some (a + b) else None)"

definition checked_mul :: "nat \<Rightarrow> nat \<Rightarrow> nat \<Rightarrow> nat option" where
  "checked_mul uw a b = (if a * b < 2 ^ uw then Some (a * b) else None)"

text \<open>\<open>u32::is_power_of_two\<close>: exactly one bit set.\<close>

definition is_power_of_two :: "u32 \<Rightarrow> bool" where
  "is_power_of_two w = list_ex (\<lambda>k. unat w = 2 ^ k) [0..<32]"

text \<open>\<open>u64::div_ceil\<close>: the quotient, one more when there is a remainder.\<close>

definition div_ceil :: "u64 \<Rightarrow> u64 \<Rightarrow> u64" where
  "div_ceil a b = (if a mod b = 0 then a div b else a div b + 1)"

lemma unat_bound: "unat w < 2 ^ LENGTH('a)" for w :: "'a::len word"
  by simp

lemma ucast_of_nat: "unat w = n \<Longrightarrow> ucast w = of_nat n"
  by auto

lemma unat_max_u32: "unat (- 1 :: u32) = 2 ^ 32 - 1"
proof -
  have "(- 1 :: u32) = 0xffffffff" by simp
  then show ?thesis by (simp only:) simp
qed

lemma u32_try_from_Some: "u32_try_from n = Some w \<longleftrightarrow> n < 2 ^ 32 \<and> w = of_nat n"
  by (auto simp: u32_try_from_def)

lemma unat_u32_try_from: "u32_try_from n = Some w \<Longrightarrow> unat w = n"
  by (auto simp: u32_try_from_Some unat_of_nat)

lemma unat_u16_try_from: "u16_try_from w = Some c \<Longrightarrow> unat c = unat w"
  by (auto simp: u16_try_from_def unsigned_ucast_eq take_bit_nat_eq_self_iff split: if_splits)

lemma checked_add_Some:
  "checked_add a b = Some c \<longleftrightarrow> unat a + unat b < 2 ^ LENGTH('a) \<and> c = a + b"
  for a b :: "'a::len word"
  by (auto simp: checked_add_def)

lemma unat_checked_add: "checked_add a b = Some c \<Longrightarrow> unat c = unat a + unat b"
  for a b :: "'a::len word"
  by (auto simp: checked_add_Some unat_word_ariths)

lemma checked_mul_Some: "checked_mul uw a b = Some c \<longleftrightarrow> a * b < 2 ^ uw \<and> c = a * b"
  by (auto simp: checked_mul_def)

lemma is_power_of_two_iff: "is_power_of_two w \<longleftrightarrow> (\<exists>k<32. unat w = 2 ^ k)"
  by (auto simp: is_power_of_two_def list_ex_iff)

lemma is_power_of_two_pos: "is_power_of_two w \<Longrightarrow> 0 < unat w"
  by (auto simp: is_power_of_two_iff)

lemma ceil_div_nat: "0 < b \<Longrightarrow> (a + b - 1) div b = a div b + (if a mod b = 0 then 0 else 1)"
  for a b :: nat
proof -
  assume b: "0 < b"
  define q r where "q = a div b" and "r = a mod b"
  have a: "a = b * q + r" and r: "r < b" using b by (simp_all add: q_def r_def)
  show ?thesis
  proof (cases "r = 0")
    case True
    then have "(a + b - 1) div b = ((b - 1) + b * q) div b"
      using a b by (intro arg_cong2 [of _ _ _ _ "(div)"]) auto
    also have "\<dots> = q" using b by (subst div_mult_self2) auto
    finally show ?thesis using True by (simp add: q_def r_def)
  next
    case False
    then have "(a + b - 1) div b = ((r - 1) + b * (q + 1)) div b" using a by (simp add: algebra_simps)
    also have "\<dots> = q + 1" using b r by (subst div_mult_self2) auto
    finally show ?thesis using False by (simp add: q_def r_def)
  qed
qed

lemma unat_div_ceil:
  assumes "0 < unat b"
  shows "unat (div_ceil a b) = (unat a + unat b - 1) div unat b"
proof -
  have "unat a div unat b + 1 < 2 ^ 64" if "unat a mod unat b \<noteq> 0"
  proof -
    from that have "unat b \<noteq> 1" by auto
    with assms have "2 * (unat a div unat b) \<le> unat b * (unat a div unat b)"
      by (intro mult_le_mono1) linarith
    also have "\<dots> \<le> unat a" by simp
    finally show ?thesis using unat_bound [of a] by simp
  qed
  then show ?thesis
    unfolding ceil_div_nat [OF assms]
    by (auto simp: div_ceil_def unat_div unat_mod word_unat_eq_iff unat_word_ariths)
qed

section \<open>Bytes and slices\<close>

definition to_le_bytes_u32 :: "u32 \<Rightarrow> u8 list" where
  "to_le_bytes_u32 w = [ucast w, ucast (drop_bit 8 w), ucast (drop_bit 16 w), ucast (drop_bit 24 w)]"

definition to_be_bytes_u32 :: "u32 \<Rightarrow> u8 list" where
  "to_be_bytes_u32 w = [ucast (drop_bit 24 w), ucast (drop_bit 16 w), ucast (drop_bit 8 w), ucast w]"

definition to_be_bytes_u16 :: "u16 \<Rightarrow> u8 list" where
  "to_be_bytes_u16 w = [ucast (drop_bit 8 w), ucast w]"

text \<open>
  \<open>u32::from_le_bytes(s.try_into().unwrap())\<close>: \<open>None\<close>, the panic of \<open>unwrap\<close>, when the slice is
  not four bytes long.
\<close>

fun u32_from_le_bytes :: "u8 list \<Rightarrow> u32 option" where
  "u32_from_le_bytes [a, b, c, d] =
     Some (ucast a OR push_bit 8 (ucast b) OR push_bit 16 (ucast c) OR push_bit 24 (ucast d))"
| "u32_from_le_bytes _ = None"

definition u32_from_be_bytes :: "u8 list \<Rightarrow> u32 option" where
  "u32_from_be_bytes bs = u32_from_le_bytes (rev bs)"

fun u16_from_be_bytes :: "u8 list \<Rightarrow> u16 option" where
  "u16_from_be_bytes [a, b] = Some (push_bit 8 (ucast a) OR ucast b)"
| "u16_from_be_bytes _ = None"

lemma length_to_le_bytes_u32 [simp]: "length (to_le_bytes_u32 w) = 4"
  and length_to_be_bytes_u32 [simp]: "length (to_be_bytes_u32 w) = 4"
  and length_to_be_bytes_u16 [simp]: "length (to_be_bytes_u16 v) = 2"
  by (simp_all add: to_le_bytes_u32_def to_be_bytes_u32_def to_be_bytes_u16_def)

lemma u32_le_roundtrip [simp]: "u32_from_le_bytes (to_le_bytes_u32 w) = Some w"
  unfolding to_le_bytes_u32_def u32_from_le_bytes.simps option.inject
proof (rule bit_word_eqI)
  fix n assume "n < LENGTH(32)"
  then consider "n < 8" | "8 \<le> n" "n < 16" | "16 \<le> n" "n < 24" | "24 \<le> n" "n < 32"
    by fastforce
  then show "bit ((ucast (ucast w :: u8) :: u32) OR push_bit 8 (ucast (ucast (drop_bit 8 w) :: u8)) OR
      push_bit 16 (ucast (ucast (drop_bit 16 w) :: u8)) OR
      push_bit 24 (ucast (ucast (drop_bit 24 w) :: u8))) n = bit w n"
    by cases (auto simp: bit_simps)
qed

lemma u32_be_roundtrip [simp]: "u32_from_be_bytes (to_be_bytes_u32 w) = Some w"
proof -
  have "rev (to_be_bytes_u32 w) = to_le_bytes_u32 w"
    by (simp add: to_be_bytes_u32_def to_le_bytes_u32_def)
  then show ?thesis by (simp add: u32_from_be_bytes_def)
qed

lemma u16_be_roundtrip [simp]: "u16_from_be_bytes (to_be_bytes_u16 w) = Some w"
proof -
  have "bit w (8 + (n - 8)) = bit w n" if "\<not> n < 8" for n using that by simp
  then show ?thesis
    unfolding to_be_bytes_u16_def u16_from_be_bytes.simps option.inject
    by (intro bit_word_eqI) (auto simp: bit_simps)
qed

lemma to_le_bytes_u32_inject: "to_le_bytes_u32 v = to_le_bytes_u32 w \<longleftrightarrow> v = w"
  by (metis option.inject u32_le_roundtrip)

text \<open>\<open>&xs[i..j]\<close>, with \<open>None\<close> for the panic of a slice out of range.\<close>

definition slice :: "nat \<Rightarrow> nat \<Rightarrow> 'a list \<Rightarrow> 'a list option" where
  "slice i j xs = (if i \<le> j \<and> j \<le> length xs then Some (take (j - i) (drop i xs)) else None)"

text \<open>\<open>xs[i..i + ys.len()].copy_from_slice(ys)\<close>, with \<open>None\<close> for the panic.\<close>

definition copy_at :: "nat \<Rightarrow> 'a list \<Rightarrow> 'a list \<Rightarrow> 'a list option" where
  "copy_at i ys xs =
     (if i + length ys \<le> length xs then Some (take i xs @ ys @ drop (i + length ys) xs) else None)"

lemma length_slice: "slice i j xs = Some ys \<Longrightarrow> length ys = j - i"
  by (auto simp: slice_def split: if_splits)

lemma length_copy_at: "copy_at i ys xs = Some zs \<Longrightarrow> length zs = length xs"
  by (auto simp: copy_at_def split: if_splits)

lemma slice_copy_at: "copy_at i ys xs = Some zs \<Longrightarrow> slice i (i + length ys) zs = Some ys"
  by (auto simp: copy_at_def slice_def split: if_splits)

lemma copy_at_nth:
  "copy_at i ys xs = Some zs \<Longrightarrow> k < length xs \<Longrightarrow>
   zs ! k = (if i \<le> k \<and> k < i + length ys then ys ! (k - i) else xs ! k)"
  by (auto simp: copy_at_def nth_append split: if_splits)

text \<open>\<open>slice::chunks(n)\<close> for a positive \<open>n\<close>.\<close>

function chunks :: "nat \<Rightarrow> 'a list \<Rightarrow> 'a list list" where
  "chunks n xs = (if xs = [] \<or> n = 0 then [] else take n xs # chunks n (drop n xs))"
  by pat_completeness auto
termination
  by (relation "measure (\<lambda>(n, xs). length xs)") auto

declare chunks.simps [simp del]

lemma chunks_Nil [simp]: "chunks n [] = []"
  by (simp add: chunks.simps)

lemma concat_chunks: "0 < n \<Longrightarrow> concat (chunks n xs) = xs"
proof (induction n xs rule: chunks.induct)
  case (1 n xs)
  then show ?case by (cases "xs = []") (simp_all add: chunks.simps [of n xs])
qed

lemma chunks_bounds: "c \<in> set (chunks n xs) \<Longrightarrow> c \<noteq> [] \<and> length c \<le> n"
proof (induction n xs rule: chunks.induct)
  case (1 n xs)
  then show ?case by (cases "xs = [] \<or> n = 0") (auto simp: chunks.simps [of n xs])
qed

lemma chunks_single: "xs \<noteq> [] \<Longrightarrow> length xs \<le> n \<Longrightarrow> chunks n xs = [xs]"
  by (cases xs) (simp_all add: chunks.simps [of n])

text \<open>\<open>xs[i]\<close>, with \<open>None\<close> for the panic out of range.\<close>

definition index :: "nat \<Rightarrow> 'a list \<Rightarrow> 'a option" where
  "index i xs = (if i < length xs then Some (xs ! i) else None)"

text \<open>The values of \<open>serde_json\<close> the code builds, an object as its members in the order written.\<close>

datatype json = JNull | JBool bool | JNumber nat | JString string | JArray "nat list" | JObject "(string \<times> json) list"

section \<open>Actions\<close>

datatype ('e, 'a) outcome = Ok 'a | Err 'e | Dropped | Panicked

type_synonym ('s, 'e, 'a) act = "'s \<Rightarrow> ('e, 'a) outcome \<times> 's"

definition ret :: "'a \<Rightarrow> ('s, 'e, 'a) act" where
  "ret a = (\<lambda>s. (Ok a, s))"

definition fail :: "'e \<Rightarrow> ('s, 'e, 'a) act" where
  "fail e = (\<lambda>s. (Err e, s))"

definition panic :: "('s, 'e, 'a) act" where
  "panic = (\<lambda>s. (Panicked, s))"

definition modify :: "('s \<Rightarrow> 's) \<Rightarrow> ('s, 'e, unit) act" where
  "modify f = (\<lambda>s. (Ok (), f s))"

text \<open>\<open>let a = m.await?; f(a)\<close>: everything but \<open>Ok\<close> ends the body.\<close>

definition and_then :: "('s, 'e, 'a) act \<Rightarrow> ('a \<Rightarrow> ('s, 'e, 'b) act) \<Rightarrow> ('s, 'e, 'b) act" where
  "and_then m f = (\<lambda>s. case m s of
     (Ok a, t) \<Rightarrow> f a t
   | (Err e, t) \<Rightarrow> (Err e, t)
   | (Dropped, t) \<Rightarrow> (Dropped, t)
   | (Panicked, t) \<Rightarrow> (Panicked, t))"

text \<open>\<open>match m.await { Ok(a) => f(a), Err(e) => h(e) }\<close>.\<close>

definition match_result ::
  "('s, 'e, 'a) act \<Rightarrow> ('a \<Rightarrow> ('s, 'f, 'b) act) \<Rightarrow> ('e \<Rightarrow> ('s, 'f, 'b) act) \<Rightarrow> ('s, 'f, 'b) act" where
  "match_result m f h = (\<lambda>s. case m s of
     (Ok a, t) \<Rightarrow> f a t
   | (Err e, t) \<Rightarrow> h e t
   | (Dropped, t) \<Rightarrow> (Dropped, t)
   | (Panicked, t) \<Rightarrow> (Panicked, t))"

text \<open>\<open>result.map_err(f)\<close>.\<close>

definition map_err :: "('e \<Rightarrow> 'f) \<Rightarrow> ('s, 'e, 'a) act \<Rightarrow> ('s, 'f, 'a) act" where
  "map_err f m = match_result m ret (\<lambda>e. fail (f e))"

text \<open>\<open>option.unwrap()\<close> and \<open>option.ok_or(e)?\<close>.\<close>

definition unwrap :: "'a option \<Rightarrow> ('s, 'e, 'a) act" where
  "unwrap x = (case x of None \<Rightarrow> panic | Some a \<Rightarrow> ret a)"

definition ok_or :: "'e \<Rightarrow> 'a option \<Rightarrow> ('s, 'e, 'a) act" where
  "ok_or e x = (case x of None \<Rightarrow> fail e | Some a \<Rightarrow> ret a)"

text \<open>\<open>if bad { return Err(e) }\<close>.\<close>

definition require :: "bool \<Rightarrow> 'e \<Rightarrow> ('s, 'e, unit) act" where
  "require b e = (if b then ret () else fail e)"

lemma act_eval [act_simps]:
  "ret a s = (Ok a, s)"
  "fail e s = (Err e, s)"
  "panic s = (Panicked, s)"
  "modify f s = (Ok (), f s)"
  "unwrap (Some a) = ret a"
  "unwrap None = panic"
  "ok_or e (Some a) = ret a"
  "ok_or e None = fail e"
  "require True e = ret ()"
  "require False e = fail e"
  by (simp_all add: ret_def fail_def panic_def modify_def unwrap_def ok_or_def require_def)

lemma and_then_run:
  "m s = (Ok a, t) \<Longrightarrow> and_then m f s = f a t"
  "m s = (Err e, t) \<Longrightarrow> and_then m f s = (Err e, t)"
  "m s = (Dropped, t) \<Longrightarrow> and_then m f s = (Dropped, t)"
  "m s = (Panicked, t) \<Longrightarrow> and_then m f s = (Panicked, t)"
  by (simp_all add: and_then_def)

lemma and_then_prim [act_simps]:
  "and_then (ret a) f = f a"
  "and_then (fail e) g = fail e"
  "and_then panic g = panic"
  "and_then (modify h) k s = k () (h s)"
  by (simp_all add: and_then_def ret_def fail_def panic_def modify_def)

lemma and_then_assoc: "and_then (and_then m f) g = and_then m (\<lambda>a. and_then (f a) g)"
  by (auto simp: and_then_def fun_eq_iff split: prod.split outcome.split)

lemma and_then_Ok: "and_then m f s = (Ok b, u) \<longleftrightarrow> (\<exists>a t. m s = (Ok a, t) \<and> f a t = (Ok b, u))"
  by (auto simp: and_then_def split: prod.splits outcome.splits)

lemma and_then_Err:
  "and_then m f s = (Err e, u) \<longleftrightarrow> m s = (Err e, u) \<or> (\<exists>a t. m s = (Ok a, t) \<and> f a t = (Err e, u))"
  by (auto simp: and_then_def split: prod.splits outcome.splits)

lemma and_then_Dropped:
  "and_then m f s = (Dropped, u) \<longleftrightarrow> m s = (Dropped, u) \<or> (\<exists>a t. m s = (Ok a, t) \<and> f a t = (Dropped, u))"
  by (auto simp: and_then_def split: prod.splits outcome.splits)

lemma and_then_Panicked:
  "and_then m f s = (Panicked, u) \<longleftrightarrow> m s = (Panicked, u) \<or> (\<exists>a t. m s = (Ok a, t) \<and> f a t = (Panicked, u))"
  by (auto simp: and_then_def split: prod.splits outcome.splits)

lemmas and_then_iffs = and_then_Ok and_then_Err and_then_Dropped and_then_Panicked

lemma require_iffs:
  "require b e s = (Ok x, t) \<longleftrightarrow> b \<and> t = s"
  "require b e s = (Err f, t) \<longleftrightarrow> \<not> b \<and> f = e \<and> t = s"
  "require b e s \<noteq> (Dropped, t)"
  "require b e s \<noteq> (Panicked, t)"
  by (auto simp: require_def ret_def fail_def)

lemma act_iffs:
  "ret a s = (r, t) \<longleftrightarrow> r = Ok a \<and> t = s"
  "fail e s = (q, t) \<longleftrightarrow> q = Err e \<and> t = s"
  "panic s = (p, t) \<longleftrightarrow> p = Panicked \<and> t = s"
  "modify f s = (m, t) \<longleftrightarrow> m = Ok () \<and> t = f s"
  "unwrap x s = (Ok c, t) \<longleftrightarrow> x = Some c \<and> t = s"
  "ok_or k y s = (Ok d, t) \<longleftrightarrow> y = Some d \<and> t = s"
  by (auto simp: ret_def fail_def panic_def modify_def unwrap_def ok_or_def split: option.split)

section \<open>Relations kept by every run\<close>

definition within :: "('s \<Rightarrow> 's \<Rightarrow> bool) \<Rightarrow> ('s, 'e, 'a) act \<Rightarrow> bool" where
  "within R m \<longleftrightarrow> (\<forall>s. R s (snd (m s)))"

lemma withinI: "(\<And>s r t. m s = (r, t) \<Longrightarrow> R s t) \<Longrightarrow> within R m"
  unfolding within_def by (metis surjective_pairing)

lemma withinD: "within R m \<Longrightarrow> m s = (r, t) \<Longrightarrow> R s t"
  by (metis snd_conv within_def)

lemma within_prim [within_intros]:
  "reflp R \<Longrightarrow> within R (ret a)"
  "reflp R \<Longrightarrow> within R (fail e)"
  "reflp R \<Longrightarrow> within R panic"
  "reflp R \<Longrightarrow> within R (unwrap x)"
  "reflp R \<Longrightarrow> within R (ok_or e x)"
  "reflp R \<Longrightarrow> within R (require b e)"
  by (auto simp: within_def ret_def fail_def panic_def unwrap_def ok_or_def require_def
      split: option.split dest: reflpD)

lemma within_match_result [within_intros]:
  assumes R: "transp R" and m: "within R m" and f: "\<And>a. within R (f a)" and h: "\<And>e. within R (h e)"
  shows "within R (match_result m f h)"
proof (rule withinI)
  fix s r u assume run: "match_result m f h s = (r, u)"
  obtain q t where q: "m s = (q, t)" by fastforce
  then have st: "R s t" using m by (rule withinD [rotated])
  from run q have "t = u \<or> (\<exists>a. f a t = (r, u)) \<or> (\<exists>e. h e t = (r, u))"
    by (cases q) (auto simp: match_result_def)
  then have "t = u \<or> R t u" using f h by (metis withinD)
  then show "R s u" using st R by (metis transpE)
qed

lemma and_then_match_result: "and_then m f = match_result m f fail"
  by (auto simp: and_then_def match_result_def fail_def fun_eq_iff split: prod.split outcome.split)

lemma within_and_then [within_intros]:
  assumes "reflp R" "transp R" "within R m" "\<And>a. within R (f a)"
  shows "within R (and_then m f)"
  unfolding and_then_match_result using assms by (intro within_match_result within_prim)

lemma within_map_err [within_intros]:
  "reflp R \<Longrightarrow> transp R \<Longrightarrow> within R m \<Longrightarrow> within R (map_err f m)"
  unfolding map_err_def by (intro within_match_result within_prim)

lemma within_if [within_intros]:
  "(b \<Longrightarrow> within R m) \<Longrightarrow> (\<not> b \<Longrightarrow> within R n) \<Longrightarrow> within R (if b then m else n)"
  by simp

lemma within_option [within_intros]:
  "within R m \<Longrightarrow> (\<And>a. within R (f a)) \<Longrightarrow> within R (case x of None \<Rightarrow> m | Some a \<Rightarrow> f a)"
  by (cases x) auto

lemma within_mono: "within R m \<Longrightarrow> (\<And>s t. R s t \<Longrightarrow> S s t) \<Longrightarrow> within S m"
  by (auto simp: within_def)

section \<open>Absence of panics\<close>

text \<open>From a state with \<open>P\<close>, \<open>m\<close> never panics and ends, however it ends, in a state with \<open>P\<close>.\<close>

definition safe :: "('s \<Rightarrow> bool) \<Rightarrow> ('s, 'e, 'a) act \<Rightarrow> bool" where
  "safe P m \<longleftrightarrow> (\<forall>s. P s \<longrightarrow> fst (m s) \<noteq> Panicked \<and> P (snd (m s)))"

named_theorems safe_intros \<open>panic freedom, one rule per combinator\<close>

lemma safeI: "(\<And>s r t. P s \<Longrightarrow> m s = (r, t) \<Longrightarrow> r \<noteq> Panicked \<and> P t) \<Longrightarrow> safe P m"
  unfolding safe_def by (metis surjective_pairing)

lemma safeD: "safe P m \<Longrightarrow> P s \<Longrightarrow> m s = (r, t) \<Longrightarrow> r \<noteq> Panicked \<and> P t"
  by (metis fst_conv safe_def snd_conv)

lemma safe_total: "safe P m \<Longrightarrow> P s \<Longrightarrow> fst (m s) \<noteq> Panicked"
  and safe_kept: "safe P m \<Longrightarrow> P s \<Longrightarrow> P (snd (m s))"
  by (simp_all add: safe_def)

lemma safe_prim [safe_intros]:
  "safe P (ret a)"
  "safe P (fail e)"
  "safe P (ok_or e x)"
  "safe P (require b e)"
  "x \<noteq> None \<Longrightarrow> safe P (unwrap x)"
  by (auto simp: safe_def ret_def fail_def ok_or_def require_def unwrap_def split: option.split)

text \<open>The continuation may rely on what \<open>m\<close> returns.\<close>

lemma safe_and_then:
  assumes m: "safe P m" and val: "\<And>s a t. P s \<Longrightarrow> m s = (Ok a, t) \<Longrightarrow> Q a"
    and f: "\<And>a. Q a \<Longrightarrow> safe P (f a)"
  shows "safe P (and_then m f)"
proof (rule safeI)
  fix s r u assume s: "P s" and run: "and_then m f s = (r, u)"
  obtain q t where q: "m s = (q, t)" by fastforce
  have t: "q \<noteq> Panicked" "P t" using safeD [OF m s q] by auto
  show "r \<noteq> Panicked \<and> P u"
  proof (cases q)
    case (Ok a)
    then show ?thesis using run q t safeD [OF f] val [OF s] by (simp add: and_then_run)
  qed (use run q t in \<open>auto simp: and_then_run\<close>)
qed

lemma safe_and_then_any [safe_intros]:
  "safe P m \<Longrightarrow> (\<And>a. safe P (f a)) \<Longrightarrow> safe P (and_then m f)"
  by (rule safe_and_then [where Q = "\<lambda>_. True"]) simp_all

lemma safe_match_result [safe_intros]:
  assumes "safe P m" "\<And>a. safe P (f a)" "\<And>e. safe P (h e)"
  shows "safe P (match_result m f h)"
proof (rule safeI)
  fix s r u assume s: "P s" and run: "match_result m f h s = (r, u)"
  obtain q t where q: "m s = (q, t)" by fastforce
  have t: "q \<noteq> Panicked" "P t" using safeD [OF assms(1) s q] by auto
  show "r \<noteq> Panicked \<and> P u"
    using run q t by (cases q) (auto simp: match_result_def dest: safeD [OF assms(2)] safeD [OF assms(3)])
qed

end
