(* ===== verification/Bulk_Io.thy ===== *)
theory Bulk_Io
  imports Prelude
begin

text \<open>
  The transport interface of \<open>nusb-scsi/src/lib.rs\<close>: the crate's \<open>Error\<close>, the trait \<open>BulkIo\<close>
  as a record of its methods, the scripted \<open>Fake\<close> transport of the crate's own tests, and
  \<open>traced\<close>, which records what crosses the wire of any transport. The contract the trait's
  documentation states is the locale \<open>bulk_transport\<close>.
\<close>

section \<open>Errors\<close>

text \<open>
  \<open>nusb::transfer::TransferError\<close> and \<open>nusb::Error\<close> belong to the USB library. The code looks
  only at \<open>Stall\<close>; its tests also name \<open>Cancelled\<close> and \<open>Disconnected\<close>. Every other value of
  the two types is carried through unseen.
\<close>

datatype transfer_error = Stall | Cancelled | Disconnected | OtherTransfer nat

datatype error =
    Cleanup (primary: error) (cleanup: error)
  | Close string
  | Usb transfer_error
  | Open string
  | Protocol string
  | CommandFailed
  | Retired
  | InitializationTimeout

text \<open>\<open>Error::with_cleanup\<close>: a failing cleanup never replaces the error that caused it.\<close>

definition with_cleanup :: "error \<Rightarrow> error \<Rightarrow> error" where
  "with_cleanup e c = Cleanup e c"

fun root_cause :: "error \<Rightarrow> error" where
  "root_cause (Cleanup e c) = root_cause e"
| "root_cause e = e"

lemma root_cause_with_cleanup [simp]: "root_cause (with_cleanup e c) = root_cause e"
  by (simp add: with_cleanup_def)

section \<open>The trait \<open>BulkIo\<close>\<close>

record 'io bulk_io =
  bulk_max_lun :: "'io \<Rightarrow> u8"
  bulk_write :: "u8 list \<Rightarrow> ('io, error, nat) act"
  bulk_read :: "nat \<Rightarrow> ('io, error, u8 list) act"

text \<open>
  What a session needs of its transport to be free of panics: neither method panics, for any
  write and for the reads \<open>Scsi\<close> makes, none over one megabyte. \<open>Scsi\<close> checks every count and
  length the transport reports itself.
\<close>

locale bulk_transport =
  fixes B :: "'io bulk_io"
    and sane :: "'io \<Rightarrow> bool"
  assumes write_safe: "safe sane (bulk_write B d)"
    and read_safe: "n \<le> 1024 * 1024 \<Longrightarrow> safe sane (bulk_read B n)"

section \<open>The scripted transport of the crate's tests\<close>

record fake =
  fake_reads :: "u8 list list"
  fake_short :: bool

text \<open>\<open>Ok(b.len() - usize::from(self.short))\<close>, which panics on an empty short write.\<close>

definition fake_write :: "u8 list \<Rightarrow> (fake, error, nat) act" where
  "fake_write b = (\<lambda>f.
     if fake_short f then (if b = [] then panic f else ret (length b - 1) f)
     else ret (length b) f)"

definition fake_read :: "nat \<Rightarrow> (fake, error, u8 list) act" where
  "fake_read n = (\<lambda>f. case fake_reads f of
     [] \<Rightarrow> fail (Protocol ''unexpected read'') f
   | r # rs \<Rightarrow> ret r (f\<lparr>fake_reads := rs\<rparr>))"

definition fake_io :: "fake bulk_io" where
  "fake_io = \<lparr>bulk_max_lun = (\<lambda>_. 15), bulk_write = fake_write, bulk_read = fake_read\<rparr>"

lemma fake_io_sel [simp]:
  "bulk_max_lun fake_io f = 15"
  "bulk_write fake_io = fake_write"
  "bulk_read fake_io = fake_read"
  by (simp_all add: fake_io_def)

interpretation fake: bulk_transport fake_io "\<lambda>f. \<not> fake_short f"
  by unfold_locales
    (auto simp: fake_write_def fake_read_def act_simps safe_def split: list.splits)

section \<open>Wire traces\<close>

text \<open>A write that reports another count than the length of its data leaves a mark behind it.\<close>

datatype wire = Sent "u8 list" | Short nat | Received "u8 list"

definition shortfall :: "u8 list \<Rightarrow> ('e, nat) outcome \<Rightarrow> wire list" where
  "shortfall d r = (case r of Ok n \<Rightarrow> if n = length d then [] else [Short n] | _ \<Rightarrow> [])"

lemma shortfall_full [simp]: "shortfall d (Ok (length d)) = []"
  by (simp add: shortfall_def)

lemma Sent_shortfall [simp]: "Sent c \<notin> set (shortfall d r)"
  by (auto simp: shortfall_def split: outcome.split)

definition traced :: "'io bulk_io \<Rightarrow> ('io \<times> wire list) bulk_io" where
  "traced B = \<lparr>
     bulk_max_lun = (\<lambda>(i, l). bulk_max_lun B i),
     bulk_write = (\<lambda>d (i, l). case bulk_write B d i of (r, j) \<Rightarrow> (r, j, l @ Sent d # shortfall d r)),
     bulk_read = (\<lambda>n (i, l). case bulk_read B n i of (r, j) \<Rightarrow>
       (r, j, l @ (case r of Ok c \<Rightarrow> [Received c] | _ \<Rightarrow> [])))\<rparr>"

lemma traced_sel:
  "bulk_max_lun (traced B) (i, l) = bulk_max_lun B i"
  "bulk_write (traced B) d (i, l) = (r, x) \<longleftrightarrow>
     (\<exists>j. bulk_write B d i = (r, j) \<and> x = (j, l @ Sent d # shortfall d r))"
  "bulk_read (traced B) n (i, l) = (q, x) \<longleftrightarrow>
     (\<exists>j. bulk_read B n i = (q, j) \<and> x = (j, l @ (case q of Ok c \<Rightarrow> [Received c] | _ \<Rightarrow> [])))"
  by (auto simp: traced_def split: prod.splits)

text \<open>A traced run sends only messages that satisfy \<open>P\<close>.\<close>

definition sends_only :: "(u8 list \<Rightarrow> bool) \<Rightarrow> 'io \<times> wire list \<Rightarrow> 'io \<times> wire list \<Rightarrow> bool" where
  "sends_only P x y \<longleftrightarrow> (\<exists>ws. snd y = snd x @ ws \<and> (\<forall>d. Sent d \<in> set ws \<longrightarrow> P d))"

lemma sends_only_refl: "reflp (sends_only P)"
  by (simp add: reflp_def sends_only_def)

lemma sends_only_trans: "transp (sends_only P)"
  by (auto intro!: transpI simp: sends_only_def)

lemma sends_only_mono: "(\<And>d. P d \<Longrightarrow> Q d) \<Longrightarrow> sends_only P x y \<Longrightarrow> sends_only Q x y"
  unfolding sends_only_def by blast

lemma traced_write_sends: "P d \<Longrightarrow> within (sends_only P) (bulk_write (traced B) d)"
  by (auto simp: within_def traced_def sends_only_def split: prod.splits)

lemma traced_read_sends: "within (sends_only P) (bulk_read (traced B) n)"
  by (auto simp: within_def traced_def sends_only_def split: prod.splits outcome.splits)

end
