(* ===== verification/Scsi.thy ===== *)
theory Scsi
  imports Bulk_Io
begin

text \<open>
  Bulk-Only Transport and the SCSI commands of \<open>nusb-scsi/src/lib.rs\<close> (\<open>struct Scsi\<close>,
  \<open>Scsi::command\<close>, the commands built on it, \<open>block_command\<close>), over any transport \<open>B\<close>.
  The session is a record; every method is an action on it. The two loops of \<open>command\<close> are
  \<open>data_in\<close> and \<open>data_out\<close>.
\<close>

section \<open>State\<close>

record geometry =
  blocks :: u64
  block_size :: u32

record 'io scsi =
  io :: 'io
  tag :: u32
  lun :: u8
  usable :: bool

text \<open>\<open>Scsi::new\<close>.\<close>

definition scsi_new :: "'io bulk_io \<Rightarrow> 'io \<Rightarrow> u8 \<Rightarrow> error + 'io scsi" where
  "scsi_new B i l =
     (if 15 < l \<or> bulk_max_lun B i < l then Inl (Protocol ''invalid LUN'')
      else Inr \<lparr>io = i, tag = 0, lun = l, usable = True\<rparr>)"

definition with_io :: "('io, error, 'a) act \<Rightarrow> ('io scsi, error, 'a) act" where
  "with_io m = (\<lambda>s. case m (io s) of (r, i) \<Rightarrow> (r, s\<lparr>io := i\<rparr>))"

section \<open>One command\<close>

definition usbc :: "u8 list" where "usbc = [0x55, 0x53, 0x42, 0x43]"
definition usbs :: "u8 list" where "usbs = [0x55, 0x53, 0x42, 0x53]"

definition max_chunk :: nat where "max_chunk = 1024 * 1024"

text \<open>The command block wrapper; bytes after the command block stay zero.\<close>

definition cbw :: "u32 \<Rightarrow> u32 \<Rightarrow> nat \<Rightarrow> u8 \<Rightarrow> u8 list \<Rightarrow> u8 list" where
  "cbw t len incoming l cdb =
     usbc @ to_le_bytes_u32 t @ to_le_bytes_u32 len @
     [if 0 < incoming then 0x80 else 0, l, of_nat (length cdb)] @
     cdb @ replicate (16 - length cdb) 0"

text \<open>\<open>while data.len() < incoming\<close>: short chunks accumulate, an empty or oversized one fails.\<close>

function data_in :: "'io bulk_io \<Rightarrow> nat \<Rightarrow> u8 list \<Rightarrow> ('io scsi, error, u8 list) act" where
  "data_in B incoming data s =
     (if length data < incoming then
        (case with_io (bulk_read B (min (incoming - length data) max_chunk)) s of
           (Ok chunk, t) \<Rightarrow>
             (if chunk = [] \<or> incoming - length data < length chunk
              then (Err (Protocol ''short or oversized data stage''), t)
              else data_in B incoming (data @ chunk) t)
         | (Err e, t) \<Rightarrow> (Err e, t)
         | (Dropped, t) \<Rightarrow> (Dropped, t)
         | (Panicked, t) \<Rightarrow> (Panicked, t))
      else (Ok data, s))"
  by pat_completeness auto
termination
  by (relation "measure (\<lambda>(B, incoming, data, s). incoming - length data)")
    (auto intro!: diff_less_mono2)

declare data_in.simps [simp del]

text \<open>\<open>for chunk in outgoing.chunks(1024 * 1024)\<close>.\<close>

fun write_chunks :: "'io bulk_io \<Rightarrow> u8 list list \<Rightarrow> ('io scsi, error, unit) act" where
  "write_chunks B [] = ret ()"
| "write_chunks B (c # cs) =
     and_then (with_io (bulk_write B c)) (\<lambda>n.
     and_then (require (n = length c) (Protocol ''short data write'')) (\<lambda>_.
     write_chunks B cs))"

definition data_out :: "'io bulk_io \<Rightarrow> u8 list \<Rightarrow> ('io scsi, error, unit) act" where
  "data_out B outgoing = write_chunks B (chunks max_chunk outgoing)"

text \<open>\<open>if incoming > 0 { .. } else if !outgoing.is_empty() { .. }\<close>; \<open>data\<close> stays empty otherwise.\<close>

definition data_stage :: "'io bulk_io \<Rightarrow> nat \<Rightarrow> u8 list \<Rightarrow> ('io scsi, error, u8 list) act" where
  "data_stage B incoming outgoing =
     (if 0 < incoming then data_in B incoming []
      else if outgoing \<noteq> [] then and_then (data_out B outgoing) (\<lambda>_. ret [])
      else ret [])"

text \<open>
  The checks of the command status wrapper. Only a passed or failed status with a sound
  frame makes the session usable again.
\<close>

definition check_csw :: "u32 \<Rightarrow> u32 \<Rightarrow> u8 list \<Rightarrow> u8 list \<Rightarrow> ('io scsi, error, u8 list) act" where
  "check_csw t len data csw =
     (if length csw \<noteq> 13 \<or> take 4 csw \<noteq> usbs \<or> take 4 (drop 4 csw) \<noteq> to_le_bytes_u32 t
      then fail (Protocol ''invalid CSW length, signature or tag'')
      else and_then (unwrap (u32_from_le_bytes (take 4 (drop 8 csw)))) (\<lambda>residue.
        if len < residue then fail (Protocol ''invalid CSW residue'')
        else if csw ! 12 = 0 \<and> residue = 0 then
          and_then (modify (\<lambda>s. s\<lparr>usable := True\<rparr>)) (\<lambda>_. ret data)
        else if csw ! 12 = 1 then
          and_then (modify (\<lambda>s. s\<lparr>usable := True\<rparr>)) (\<lambda>_. fail CommandFailed)
        else fail (Protocol ''CSW phase error or incomplete transfer'')))"

text \<open>
  The wire exchange of a command, from the first \<open>await\<close> on. The session is already marked
  unusable here, so an exchange that stops anywhere leaves it retired.
\<close>

definition exchange ::
  "'io bulk_io \<Rightarrow> u32 \<Rightarrow> u32 \<Rightarrow> u8 list \<Rightarrow> nat \<Rightarrow> u8 list \<Rightarrow> ('io scsi, error, u8 list) act" where
  "exchange B t len wrapper incoming outgoing =
     and_then (with_io (bulk_write B wrapper)) (\<lambda>n.
     and_then (require (n = length wrapper) (Protocol ''short CBW'')) (\<lambda>_.
     and_then (data_stage B incoming outgoing) (\<lambda>data.
     and_then (with_io (bulk_read B 13)) (\<lambda>csw.
     check_csw t len data csw))))"

definition bad_shape :: "u8 list \<Rightarrow> nat \<Rightarrow> u8 list \<Rightarrow> bool" where
  "bad_shape cdb incoming outgoing \<longleftrightarrow>
     cdb = [] \<or> 16 < length cdb \<or> (0 < incoming \<and> outgoing \<noteq> [])"

definition command :: "'io bulk_io \<Rightarrow> u8 list \<Rightarrow> nat \<Rightarrow> u8 list \<Rightarrow> ('io scsi, error, u8 list) act" where
  "command B cdb incoming outgoing s =
     (if \<not> usable s then (Err Retired, s)
      else if bad_shape cdb incoming outgoing then (Err (Protocol ''invalid command shape''), s)
      else case u32_try_from (max incoming (length outgoing)) of
        None \<Rightarrow> (Err (Protocol ''transfer exceeds BOT limit''), s)
      | Some len \<Rightarrow>
          let t = tag s + 1
          in exchange B t len (cbw t len incoming (lun s) cdb) incoming outgoing
               (s\<lparr>tag := t, usable := False\<rparr>))"

section \<open>The commands\<close>

definition test_unit_ready :: "'io bulk_io \<Rightarrow> ('io scsi, error, unit) act" where
  "test_unit_ready B = and_then (command B (replicate 6 0) 0 []) (\<lambda>_. ret ())"

definition request_sense :: "'io bulk_io \<Rightarrow> ('io scsi, error, u8 list) act" where
  "request_sense B = command B [3, 0, 0, 0, 18, 0] 18 []"

text \<open>
  The sense that means power-on, reset or a new medium: fixed format, current error, UNIT
  ATTENTION, and one of \<open>(0x28, 0)\<close>, \<open>(0x29, 0..=7)\<close>. The length test comes first, so the
  indexing below it is in range.
\<close>

definition reset_or_new_medium :: "u8 list \<Rightarrow> bool" where
  "reset_or_new_medium sense \<longleftrightarrow>
     14 \<le> length sense \<and> sense ! 0 AND 0x7f = 0x70 \<and> 6 \<le> sense ! 7 \<and> sense ! 2 AND 0x0f = 6 \<and>
     ((sense ! 12 = 0x28 \<and> sense ! 13 = 0) \<or> (sense ! 12 = 0x29 \<and> sense ! 13 \<le> 7))"

definition initialize_ready :: "'io bulk_io \<Rightarrow> ('io scsi, error, unit) act" where
  "initialize_ready B = match_result (test_unit_ready B) ret (\<lambda>e.
     case e of
       CommandFailed \<Rightarrow>
         and_then (request_sense B) (\<lambda>sense.
         and_then (require (reset_or_new_medium sense) CommandFailed) (\<lambda>_.
         test_unit_ready B))
     | _ \<Rightarrow> fail e)"

definition inquiry :: "'io bulk_io \<Rightarrow> ('io scsi, error, u8 list) act" where
  "inquiry B = command B [0x12, 0, 0, 0, 36, 0] 36 []"

text \<open>START STOP UNIT with LOEJ=1, START=0; a successful eject retires the session.\<close>

definition eject :: "'io bulk_io \<Rightarrow> ('io scsi, error, unit) act" where
  "eject B = and_then (command B [0x1b, 0, 0, 0, 2, 0] 0 []) (\<lambda>_.
     modify (\<lambda>s. s\<lparr>usable := False\<rparr>))"

text \<open>READ CAPACITY(10); the two \<open>unwrap\<close>s and the slice would panic on a reply of another length.\<close>

definition get_geometry :: "'io bulk_io \<Rightarrow> ('io scsi, error, geometry) act" where
  "get_geometry B =
     and_then (command B [0x25, 0, 0, 0, 0, 0, 0, 0, 0, 0] 8 []) (\<lambda>bytes.
     and_then (unwrap (slice 0 4 bytes)) (\<lambda>hi.
     and_then (unwrap (u32_from_be_bytes hi)) (\<lambda>last.
     and_then (unwrap (slice 4 (length bytes) bytes)) (\<lambda>lo.
     and_then (unwrap (u32_from_be_bytes lo)) (\<lambda>size.
       if last = - 1 \<or> size = 0 \<or> \<not> is_power_of_two size
       then fail (Protocol ''unsupported capacity or sector size'')
       else ret \<lparr>blocks = ucast last + 1, block_size = size\<rparr>)))))"

text \<open>
  \<open>block_command\<close> for a \<open>usize\<close> of \<open>uw\<close> bits: the ten-byte command block and the transfer length.
\<close>

definition block_command :: "nat \<Rightarrow> u8 \<Rightarrow> u32 \<Rightarrow> u16 \<Rightarrow> u32 \<Rightarrow> error + (u8 list \<times> nat)" where
  "block_command uw op lba count bs =
     (if count = 0 \<or> bs = 0 \<or> \<not> is_power_of_two bs \<or> checked_add lba (ucast count - 1) = None
      then Inl (Protocol ''invalid block range'')
      else case checked_mul uw (unat count) (unat bs) of
        None \<Rightarrow> Inl (Protocol ''block range overflow'')
      | Some len \<Rightarrow>
          Inr ([op, 0] @ to_be_bytes_u32 lba @ [0] @ to_be_bytes_u16 count @ [0], len))"

definition read_blocks ::
  "nat \<Rightarrow> 'io bulk_io \<Rightarrow> u32 \<Rightarrow> u16 \<Rightarrow> u32 \<Rightarrow> ('io scsi, error, u8 list) act" where
  "read_blocks uw B lba count bs = (case block_command uw 0x28 lba count bs of
     Inl e \<Rightarrow> fail e
   | Inr (cdb, len) \<Rightarrow> command B cdb len [])"

definition write_blocks ::
  "nat \<Rightarrow> 'io bulk_io \<Rightarrow> u32 \<Rightarrow> u16 \<Rightarrow> u32 \<Rightarrow> u8 list \<Rightarrow> ('io scsi, error, unit) act" where
  "write_blocks uw B lba count bs bytes = (case block_command uw 0x2a lba count bs of
     Inl e \<Rightarrow> fail e
   | Inr (cdb, len) \<Rightarrow>
       if length bytes \<noteq> len then fail (Protocol ''write length differs from sector count'')
       else and_then (command B cdb 0 bytes) (\<lambda>_. ret ()))"

text \<open>SYNCHRONIZE CACHE(10).\<close>

definition flush :: "'io bulk_io \<Rightarrow> ('io scsi, error, unit) act" where
  "flush B = and_then (command B [0x35, 0, 0, 0, 0, 0, 0, 0, 0, 0] 0 []) (\<lambda>_. ret ())"

end
