(* ===== verification/Scsi_Framing.thy ===== *)
theory Scsi_Framing
  imports Scsi
begin

text \<open>
  What \<open>Scsi::command\<close> guarantees over any transport: when the session stays usable, what
  crossed the wire when a command succeeded, that nothing but the command's own messages is
  ever sent, and that no method panics on a transport that keeps the trait's contract.
\<close>

section \<open>The command status wrapper\<close>

definition csw_bytes :: "u32 \<Rightarrow> u32 \<Rightarrow> u8 \<Rightarrow> u8 list" where
  "csw_bytes t residue status = usbs @ to_le_bytes_u32 t @ to_le_bytes_u32 residue @ [status]"

lemma length_consts [simp]: "length usbc = 4" "length usbs = 4"
  by (simp_all add: usbc_def usbs_def)

lemma u32_from_le_bytes_Some: "u32_from_le_bytes bs = Some w \<Longrightarrow> bs = to_le_bytes_u32 w"
proof -
  assume "u32_from_le_bytes bs = Some w"
  then obtain a b c d where bs: "bs = [a, b, c, d]"
    and w: "w = ucast a OR push_bit 8 (ucast b) OR push_bit 16 (ucast c) OR push_bit 24 (ucast d)"
    by (auto elim: u32_from_le_bytes.elims)
  have "ucast w = a" "ucast (drop_bit 8 w) = b" "ucast (drop_bit 16 w) = c" "ucast (drop_bit 24 w) = d"
    unfolding w by (rule bit_word_eqI; auto simp: bit_simps dest: bit_imp_le_length)+
  then show ?thesis by (simp add: bs to_le_bytes_u32_def)
qed

lemma u32_from_le_bytes_4: "length bs = 4 \<Longrightarrow> \<exists>w. u32_from_le_bytes bs = Some w"
  by (auto simp: length_Suc_conv numeral_eq_Suc)

lemma csw_cases:
  assumes "length csw = 13" "take 4 csw = usbs" "take 4 (drop 4 csw) = to_le_bytes_u32 t"
  obtains residue status where "csw = csw_bytes t residue status"
proof -
  obtain r where r: "u32_from_le_bytes (take 4 (drop 8 csw)) = Some r"
    using u32_from_le_bytes_4 [of "take 4 (drop 8 csw)"] assms(1) by auto
  have "length (drop 12 csw) = Suc 0" using assms(1) by simp
  then obtain st where st: "drop 12 csw = [st]"
    by (metis length_0_conv length_Suc_conv)
  have "csw = take 4 csw @ take 4 (drop 4 csw) @ take 4 (drop 8 csw) @ drop 12 csw"
    using append_take_drop_id [of 4 csw] append_take_drop_id [of 4 "drop 4 csw"]
      append_take_drop_id [of 4 "drop 8 csw"] by simp
  then show thesis
    using assms(2,3) u32_from_le_bytes_Some [OF r] st that by (simp add: csw_bytes_def)
qed

lemma csw_parts [simp]:
  "length (csw_bytes t r st) = 13"
  "take 4 (csw_bytes t r st) = usbs"
  "take 4 (drop 4 (csw_bytes t r st)) = to_le_bytes_u32 t"
  "take 4 (drop 8 (csw_bytes t r st)) = to_le_bytes_u32 r"
  "csw_bytes t r st ! 12 = st"
  by (simp_all add: csw_bytes_def nth_append)

lemma csw_bytes_inject [simp]: "csw_bytes t r st = csw_bytes t' r' st' \<longleftrightarrow> t = t' \<and> r = r' \<and> st = st'"
  by (simp add: csw_bytes_def to_le_bytes_u32_inject)

lemma check_csw_valid:
  "check_csw t len data (csw_bytes t r st) s =
     (if len < r then (Err (Protocol ''invalid CSW residue''), s)
      else if st = 0 \<and> r = 0 then (Ok data, s\<lparr>usable := True\<rparr>)
      else if st = 1 then (Err CommandFailed, s\<lparr>usable := True\<rparr>)
      else (Err (Protocol ''CSW phase error or incomplete transfer''), s))"
  by (simp add: check_csw_def act_simps)

lemma check_csw_invalid:
  assumes "\<And>r st. csw \<noteq> csw_bytes t r st"
  shows "check_csw t len data csw s = (Err (Protocol ''invalid CSW length, signature or tag''), s)"
proof -
  have "length csw \<noteq> 13 \<or> take 4 csw \<noteq> usbs \<or> take 4 (drop 4 csw) \<noteq> to_le_bytes_u32 t"
    using assms csw_cases by metis
  then show ?thesis by (simp add: check_csw_def act_simps)
qed

lemma check_csw_cases:
  obtains (passed) "csw = csw_bytes t 0 0" "check_csw t len data csw s = (Ok data, s\<lparr>usable := True\<rparr>)"
  | (failed) r where "csw = csw_bytes t r 1" "r \<le> len"
      "check_csw t len data csw s = (Err CommandFailed, s\<lparr>usable := True\<rparr>)"
  | (broken) m where "check_csw t len data csw s = (Err (Protocol m), s)"
proof (cases "\<exists>r st. csw = csw_bytes t r st")
  case True
  then obtain r st where c: "csw = csw_bytes t r st" by blast
  note run = check_csw_valid [of t len data r st s, folded c]
  consider "len < r" | "\<not> len < r" "st = 0 \<and> r = 0" | "\<not> len < r" "\<not> (st = 0 \<and> r = 0)" "st = 1"
    | "\<not> len < r" "\<not> (st = 0 \<and> r = 0)" "st \<noteq> 1" by blast
  then show thesis
  proof cases
    case 1 with run show thesis by (intro broken) simp
  next
    case 2 with run c show thesis by (intro passed) simp_all
  next
    case 3 with run c show thesis by (intro failed [of r]) (simp_all add: not_less)
  next
    case 4 with run show thesis by (intro broken) (simp del: de_Morgan_conj)
  qed
next
  case False
  then show thesis using check_csw_invalid [of csw t len data s] broken by blast
qed

section \<open>Frames\<close>

text \<open>The data stage touches the transport only.\<close>

definition io_only :: "'io scsi \<Rightarrow> 'io scsi \<Rightarrow> bool" where
  "io_only s t \<longleftrightarrow> tag t = tag s \<and> lun t = lun s \<and> usable t = usable s"

lemma io_only_order [simp, intro]: "reflp io_only" "transp io_only"
  by (auto intro!: reflpI transpI simp: io_only_def)

lemma with_io_only [within_intros]: "within io_only (with_io m)"
  by (auto simp: within_def with_io_def io_only_def split: prod.split)

lemma with_io_run: "with_io m s = (r, t) \<longleftrightarrow> (\<exists>i. m (io s) = (r, i) \<and> t = s\<lparr>io := i\<rparr>)"
  by (auto simp: with_io_def split: prod.split)

lemma data_in_step:
  assumes "length data < incoming"
  shows "data_in B incoming data =
    and_then (with_io (bulk_read B (min (incoming - length data) max_chunk))) (\<lambda>chunk.
    and_then (require (chunk \<noteq> [] \<and> length chunk \<le> incoming - length data)
      (Protocol ''short or oversized data stage'')) (\<lambda>_.
    data_in B incoming (data @ chunk)))"
  using assms
  by (auto simp: data_in.simps [of B incoming data] and_then_def require_def ret_def fail_def
      fun_eq_iff split: prod.split outcome.split)

lemma data_in_done: "incoming \<le> length data \<Longrightarrow> data_in B incoming data = ret data"
  by (auto simp: data_in.simps [of B incoming data] ret_def fun_eq_iff)

text \<open>Any relation the transport's reads keep, the whole loop keeps.\<close>

lemma data_in_within:
  assumes "reflp R" "transp R" "\<And>n. within R (with_io (bulk_read B n))"
  shows "within R (data_in B incoming data)"
proof (induction "incoming - length data" arbitrary: data rule: less_induct)
  case less
  show ?case
  proof (cases "length data < incoming")
    case True
    have body: "within R (and_then (require (c \<noteq> [] \<and> length c \<le> incoming - length data) e)
        (\<lambda>_. data_in B incoming (data @ c)))" for c :: "u8 list" and e
    proof (cases "c \<noteq> [] \<and> length c \<le> incoming - length data")
      case ok: True
      then have "incoming - length (data @ c) < incoming - length data"
        using True by (cases c) auto
      then show ?thesis using less ok assms(1) by (simp add: act_simps)
    next
      case bad: False
      then have "and_then (require (c \<noteq> [] \<and> length c \<le> incoming - length data) e)
        (\<lambda>_. data_in B incoming (data @ c)) = fail e"
        by (auto simp: require_def act_simps)
      then show ?thesis using assms(1) by (simp add: within_intros)
    qed
    show ?thesis unfolding data_in_step [OF True]
      by (rule within_and_then [OF assms(1,2) assms(3) body])
  next
    case False
    then show ?thesis using assms(1) by (simp add: data_in_done within_intros)
  qed
qed

lemma write_chunks_within:
  assumes "reflp R" "transp R" "\<And>c. c \<in> set cs \<Longrightarrow> within R (with_io (bulk_write B c))"
  shows "within R (write_chunks B cs)"
  using assms(3) by (induction cs) (auto intro!: within_intros assms(1,2))

lemma data_stage_within:
  assumes "reflp R" "transp R" "\<And>n. within R (with_io (bulk_read B n))"
    and "\<And>c. c \<in> set (chunks max_chunk outgoing) \<Longrightarrow> within R (with_io (bulk_write B c))"
  shows "within R (data_stage B incoming outgoing)"
  unfolding data_stage_def data_out_def using assms
  by (intro within_intros data_in_within write_chunks_within) auto

lemma data_stage_io_only [within_intros]: "within io_only (data_stage B incoming outgoing)"
  by (intro data_stage_within with_io_only io_only_order)

lemma data_in_length: "data_in B incoming data s = (Ok d, t) \<Longrightarrow> length data \<le> incoming \<Longrightarrow> length d = incoming"
proof (induction "incoming - length data" arbitrary: data s rule: less_induct)
  case less
  show ?case
  proof (cases "length data < incoming")
    case True
    from less.prems(1) obtain c u where "c \<noteq> []" "length c \<le> incoming - length data"
      "data_in B incoming (data @ c) u = (Ok d, t)"
      by (auto simp: data_in_step [OF True] and_then_Ok require_iffs)
    then show ?thesis using True by (intro less.hyps [of "data @ c"]) (cases c; auto)+
  next
    case False
    then show ?thesis using less.prems by (simp add: data_in_done act_simps)
  qed
qed

lemma data_stage_length: "data_stage B incoming outgoing s = (Ok d, t) \<Longrightarrow> length d = incoming"
  by (auto simp: data_stage_def and_then_Ok act_simps split: if_splits dest: data_in_length)

section \<open>When the session stays usable\<close>

lemma exchange_cases:
  assumes run: "exchange B t len w incoming outgoing s = (r, u)" and "\<not> usable s"
  obtains (completed) d where "r = Ok d" "length d = incoming" "usable u" "tag u = tag s" "lun u = lun s"
  | (refused) "r = Err CommandFailed" "usable u" "tag u = tag s" "lun u = lun s"
  | (retired) "\<not> usable u" "\<forall>d. r \<noteq> Ok d" "tag u = tag s" "lun u = lun s"
proof -
  let ?head = "and_then (with_io (bulk_write B w)) (\<lambda>n.
     and_then (require (n = length w) (Protocol ''short CBW'')) (\<lambda>_.
     and_then (data_stage B incoming outgoing) (\<lambda>data.
     and_then (with_io (bulk_read B 13)) (\<lambda>csw. ret (data, csw)))))"
  have split: "exchange B t len w incoming outgoing = and_then ?head (\<lambda>(data, csw). check_csw t len data csw)"
    by (simp add: exchange_def and_then_assoc act_simps)
  have io: "within io_only ?head" by (intro within_intros io_only_order)
  show thesis
  proof (cases "?head s")
    case (Pair q v)
    have v: "io_only s v" by (rule withinD [OF io Pair])
    show thesis
    proof (cases "\<exists>d csw. q = Ok (d, csw)")
      case True
      then obtain d csw where q: "q = Ok (d, csw)" by blast
      have len: "length d = incoming"
        using Pair q by (auto simp: and_then_Ok require_iffs act_simps dest!: data_stage_length)
      from run split Pair q have c: "check_csw t len d csw v = (r, u)"
        by (simp add: and_then_run)
      show thesis
        by (rule check_csw_cases [of csw t len d v])
          (use c v len assms(2) completed refused retired in \<open>auto simp: io_only_def\<close>)
    next
      case False
      then have "r = (case q of Err e \<Rightarrow> Err e | Dropped \<Rightarrow> Dropped | Panicked \<Rightarrow> Panicked)" "u = v"
        using run split Pair by (auto simp: and_then_def split: outcome.splits)
      then show thesis using v False assms(2) retired by (cases q) (auto simp: io_only_def)
    qed
  qed
qed

lemma command_retired: "\<not> usable s \<Longrightarrow> command B cdb incoming outgoing s = (Err Retired, s)"
  by (simp add: command_def)

text \<open>The four ways a command can go, whatever the transport does.\<close>

lemma command_cases:
  assumes run: "command B cdb incoming outgoing s = (r, u)"
  obtains (refused_early) e where "r = Err e" "u = s" "\<not> usable s \<or> e \<noteq> CommandFailed"
  | (completed) d where "r = Ok d" "length d = incoming" "usable s" "usable u" "tag u = tag s + 1" "lun u = lun s"
  | (failed) "r = Err CommandFailed" "usable s" "usable u" "tag u = tag s + 1" "lun u = lun s"
  | (retired) "\<forall>d. r \<noteq> Ok d" "usable s" "\<not> usable u" "tag u = tag s + 1" "lun u = lun s"
proof (cases "usable s \<and> \<not> bad_shape cdb incoming outgoing")
  case False
  then show thesis using run refused_early by (auto simp: command_def split: if_splits)
next
  case True
  show thesis
  proof (cases "u32_try_from (max incoming (length outgoing))")
    case None
    then show thesis using run refused_early True by (auto simp: command_def)
  next
    case (Some len)
    let ?s = "s\<lparr>tag := tag s + 1, usable := False\<rparr>"
    from run True Some have x: "exchange B (tag s + 1) len (cbw (tag s + 1) len incoming (lun s) cdb)
        incoming outgoing ?s = (r, u)" by (simp add: command_def Let_def)
    have "\<not> usable ?s" by simp
    with x show thesis
      by (rule exchange_cases) (use True completed failed retired in auto)
  qed
qed

lemma command_length: "command B cdb incoming outgoing s = (Ok d, u) \<Longrightarrow> length d = incoming"
  by (erule command_cases) auto

section \<open>What crosses the wire\<close>

abbreviation wire_log :: "('io \<times> wire list) scsi \<Rightarrow> wire list" where
  "wire_log s \<equiv> snd (io s)"

lemma traced_write_log: "with_io (bulk_write (traced B) d) s = (r, t) \<Longrightarrow> wire_log t = wire_log s @ Sent d # shortfall d r"
  by (cases "io s") (auto simp: with_io_run traced_sel)

lemma traced_read_log:
  "with_io (bulk_read (traced B) n) s = (Ok c, t) \<Longrightarrow> wire_log t = wire_log s @ [Received c]"
  by (cases "io s") (auto simp: with_io_run traced_sel)

lemma data_in_log:
  "data_in (traced B) incoming data s = (Ok d, t) \<Longrightarrow>
   \<exists>ins. wire_log t = wire_log s @ map Received ins \<and> d = data @ concat ins"
proof (induction "incoming - length data" arbitrary: data s rule: less_induct)
  case less
  show ?case
  proof (cases "length data < incoming")
    case True
    from less.prems obtain c u where c: "c \<noteq> []" "length c \<le> incoming - length data"
      and rd: "with_io (bulk_read (traced B) (min (incoming - length data) max_chunk)) s = (Ok c, u)"
      and rest: "data_in (traced B) incoming (data @ c) u = (Ok d, t)"
      by (auto simp: data_in_step [OF True] and_then_Ok require_iffs)
    have "incoming - length (data @ c) < incoming - length data" using c True by (cases c) auto
    from less.hyps [OF this rest] obtain ins
      where "wire_log t = wire_log u @ map Received ins" "d = (data @ c) @ concat ins" by blast
    then show ?thesis using traced_read_log [OF rd] by (intro exI [of _ "c # ins"]) simp
  next
    case False
    then show ?thesis using less.prems by (simp add: data_in_done act_simps)
  qed
qed

lemma write_chunks_log:
  "write_chunks (traced B) cs s = (Ok x, t) \<Longrightarrow> wire_log t = wire_log s @ map Sent cs"
  by (induction cs arbitrary: s) (auto simp: and_then_Ok act_simps require_iffs dest!: traced_write_log)

lemma data_stage_log:
  assumes "data_stage (traced B) incoming outgoing s = (Ok d, t)" "\<not> bad_shape cdb incoming outgoing"
  shows "\<exists>ins. wire_log t = wire_log s @ map Sent (chunks max_chunk outgoing) @ map Received ins \<and> concat ins = d"
  using assms
  by (auto simp: data_stage_def data_out_def bad_shape_def and_then_Ok act_simps
      split: if_splits dest!: data_in_log write_chunks_log)

text \<open>A command's messages: its wrapper and the chunks of its data, nothing else.\<close>

definition message_of :: "u8 list \<Rightarrow> nat \<Rightarrow> u8 list \<Rightarrow> u8 list \<Rightarrow> bool" where
  "message_of cdb incoming outgoing d \<longleftrightarrow>
     (\<exists>t len l. u32_try_from (max incoming (length outgoing)) = Some len \<and> d = cbw t len incoming l cdb) \<or>
     d \<in> set (chunks max_chunk outgoing)"

abbreviation sends :: "(u8 list \<Rightarrow> bool) \<Rightarrow> ('io \<times> wire list) scsi \<Rightarrow> ('io \<times> wire list) scsi \<Rightarrow> bool" where
  "sends P s t \<equiv> sends_only P (io s) (io t)"

lemma sends_order [simp, intro]: "reflp (sends P)" "transp (sends P)"
  using sends_only_refl sends_only_trans by (auto intro!: reflpI transpI dest: reflpD transpD)

lemma with_io_sends: "within (sends_only P) m \<Longrightarrow> within (sends P) (with_io m)"
  by (rule withinI) (auto simp: with_io_run dest: withinD)

lemma modify_sends [within_intros]: "(\<And>s. io (f s) = io s) \<Longrightarrow> within (sends P) (modify f)"
  by (simp add: within_def modify_def sends_only_refl [THEN reflpD])

lemma check_csw_sends [within_intros]: "within (sends P) (check_csw t len data csw)"
  unfolding check_csw_def by (intro within_intros sends_order) auto

lemma command_sends:
  assumes "\<And>d. message_of cdb incoming outgoing d \<Longrightarrow> P d"
  shows "within (sends P) (command (traced B) cdb incoming outgoing)"
proof (rule withinI)
  fix s r u assume run: "command (traced B) cdb incoming outgoing s = (r, u)"
  have msg: "within (sends P) (with_io (bulk_write (traced B) d))"
    if "message_of cdb incoming outgoing d" for d
    using assms [OF that] by (intro with_io_sends traced_write_sends)
  have rd: "within (sends P) (with_io (bulk_read (traced B) n))" for n
    by (intro with_io_sends traced_read_sends)
  have "within (sends P) (exchange (traced B) t len (cbw t len incoming l cdb) incoming outgoing)"
    if "u32_try_from (max incoming (length outgoing)) = Some len" for t len l
    unfolding exchange_def
    by (intro within_and_then within_intros sends_order msg rd data_stage_within) (use that in \<open>auto simp: message_of_def\<close>)
  note x = withinD [OF this]
  show "sends P s u"
  proof (cases "u = s")
    case True then show ?thesis by (simp add: sends_only_refl [THEN reflpD])
  next
    case False
    with run show ?thesis
      by (auto simp: command_def Let_def split: if_splits option.splits dest: x)
  qed
qed

section \<open>Panic freedom\<close>

lemma with_io_safe: "safe P m \<Longrightarrow> safe (\<lambda>s. P (io s)) (with_io m)"
  by (rule safeI) (auto simp: with_io_run dest: safeD)

context bulk_transport begin

lemma with_write_safe [safe_intros]: "safe (\<lambda>s. sane (io s)) (with_io (bulk_write B d))"
  by (rule with_io_safe [OF write_safe])

lemma with_read_safe [safe_intros]: "n \<le> 1024 * 1024 \<Longrightarrow> safe (\<lambda>s. sane (io s)) (with_io (bulk_read B n))"
  by (rule with_io_safe [OF read_safe])

lemma data_in_safe [safe_intros]: "safe (\<lambda>s. sane (io s)) (data_in B incoming data)"
proof (induction "incoming - length data" arbitrary: data rule: less_induct)
  case less
  show ?case
  proof (cases "length data < incoming")
    case True
    have body: "safe (\<lambda>s. sane (io s)) (and_then (require (c \<noteq> [] \<and> length c \<le> incoming - length data) e)
        (\<lambda>_. data_in B incoming (data @ c)))" for c e
    proof (cases "c \<noteq> [] \<and> length c \<le> incoming - length data")
      case ok: True
      then have "incoming - length (data @ c) < incoming - length data"
        using True by (cases c) auto
      then show ?thesis using less ok by (simp add: act_simps)
    next
      case bad: False
      then have "and_then (require (c \<noteq> [] \<and> length c \<le> incoming - length data) e)
        (\<lambda>_. data_in B incoming (data @ c)) = fail e" by (auto simp: require_def act_simps)
      then show ?thesis by (simp add: safe_intros)
    qed
    show ?thesis unfolding data_in_step [OF True]
      by (rule safe_and_then_any [OF with_read_safe body]) (simp add: max_chunk_def)
  next
    case False
    then show ?thesis by (simp add: data_in_done safe_intros)
  qed
qed

lemma write_chunks_safe [safe_intros]: "safe (\<lambda>s. sane (io s)) (write_chunks B cs)"
  by (induction cs) (auto intro!: safe_intros)

lemma data_stage_safe [safe_intros]: "safe (\<lambda>s. sane (io s)) (data_stage B incoming outgoing)"
  unfolding data_stage_def data_out_def by (auto intro!: safe_intros)

lemma check_csw_safe [safe_intros]: "safe (\<lambda>s. sane (io s)) (check_csw t len data csw)"
proof (rule safeI)
  fix s r u assume "sane (io s)" "check_csw t len data csw s = (r, u)"
  then show "r \<noteq> Panicked \<and> sane (io u)" by (cases rule: check_csw_cases [of csw t len data s]) auto
qed

lemma exchange_safe [safe_intros]: "safe (\<lambda>s. sane (io s)) (exchange B t len w incoming outgoing)"
  unfolding exchange_def by (intro safe_intros) simp

lemma command_safe [safe_intros]: "safe (\<lambda>s. sane (io s)) (command B cdb incoming outgoing)"
proof (rule safeI)
  fix s r u assume s: "sane (io s)" and run: "command B cdb incoming outgoing s = (r, u)"
  show "r \<noteq> Panicked \<and> sane (io u)"
  proof (cases "\<not> usable s \<or> bad_shape cdb incoming outgoing \<or> u32_try_from (max incoming (length outgoing)) = None")
    case True
    then show ?thesis using run s by (auto simp: command_def split: if_splits option.splits)
  next
    case False
    then obtain len where "u32_try_from (max incoming (length outgoing)) = Some len" by blast
    with False run have "exchange B (tag s + 1) len (cbw (tag s + 1) len incoming (lun s) cdb) incoming outgoing
        (s\<lparr>tag := tag s + 1, usable := False\<rparr>) = (r, u)" by (simp add: command_def Let_def)
    from safeD [OF exchange_safe _ this] s show ?thesis by simp
  qed
qed

lemma test_unit_ready_safe [safe_intros]: "safe (\<lambda>s. sane (io s)) (test_unit_ready B)"
  and request_sense_safe [safe_intros]: "safe (\<lambda>s. sane (io s)) (request_sense B)"
  and inquiry_safe [safe_intros]: "safe (\<lambda>s. sane (io s)) (inquiry B)"
  and flush_safe [safe_intros]: "safe (\<lambda>s. sane (io s)) (flush B)"
  by (auto simp: test_unit_ready_def request_sense_def inquiry_def flush_def intro!: safe_intros)

lemma eject_safe [safe_intros]: "safe (\<lambda>s. sane (io s)) (eject B)"
  unfolding eject_def by (intro safe_intros) (simp add: safe_def act_simps)

lemma initialize_ready_safe [safe_intros]: "safe (\<lambda>s. sane (io s)) (initialize_ready B)"
  unfolding initialize_ready_def by (intro safe_intros) (auto split: error.split intro!: safe_intros)

text \<open>The reply to READ CAPACITY has its eight bytes, so neither the slices nor the \<open>unwrap\<close>s panic.\<close>

lemma geometry_safe [safe_intros]: "safe (\<lambda>s. sane (io s)) (get_geometry B)"
  unfolding get_geometry_def
proof (rule safe_and_then [where Q = "\<lambda>b. length b = 8"])
  fix bytes :: "u8 list" assume b: "length bytes = 8"
  obtain hi lo where parts: "u32_from_be_bytes (take 4 bytes) = Some hi" "u32_from_be_bytes (drop 4 bytes) = Some lo"
    using u32_from_le_bytes_4 [of "rev (take 4 bytes)"] u32_from_le_bytes_4 [of "rev (drop 4 bytes)"] b
    by (auto simp: u32_from_be_bytes_def)
  then show "safe (\<lambda>s. sane (io s)) (and_then (unwrap (slice 0 4 bytes)) (\<lambda>hi.
     and_then (unwrap (u32_from_be_bytes hi)) (\<lambda>last.
     and_then (unwrap (slice 4 (length bytes) bytes)) (\<lambda>lo.
     and_then (unwrap (u32_from_be_bytes lo)) (\<lambda>size.
       if last = - 1 \<or> size = 0 \<or> \<not> is_power_of_two size
       then fail (Protocol ''unsupported capacity or sector size'')
       else ret \<lparr>blocks = ucast last + 1, block_size = size\<rparr>)))))"
    using b by (simp add: slice_def act_simps safe_intros)
qed (auto intro: safe_intros dest: command_length)

lemma read_blocks_safe [safe_intros]: "safe (\<lambda>s. sane (io s)) (read_blocks uw B lba count bs)"
  unfolding read_blocks_def by (auto split: sum.split prod.split intro!: safe_intros)

lemma write_blocks_safe [safe_intros]: "safe (\<lambda>s. sane (io s)) (write_blocks uw B lba count bs bytes)"
  unfolding write_blocks_def by (auto split: sum.split prod.split intro!: safe_intros)

lemmas method_safe = command_safe geometry_safe initialize_ready_safe test_unit_ready_safe inquiry_safe
  request_sense_safe flush_safe eject_safe read_blocks_safe write_blocks_safe

end

end
