(* ===== verification/Range_Session.thy ===== *)
theory Range_Session
  imports Scsi_Framing
begin

text \<open>
  \<open>nusb-scsi/src/range.rs\<close>: bounded byte ranges over the SCSI engine, with the access mode fixed
  when the session is opened. \<open>uw\<close> is the width of \<open>usize\<close>: 64 on the native targets, 32 in the
  WASM build; multiplications and slices that would overflow or leave their bounds are panics.
\<close>

definition max_range_bytes :: nat where "max_range_bytes = 4 * 1024 * 1024"

datatype access = ReadOnly | ReadWrite

record 'io range_session =
  scsi :: "'io scsi"
  geometry :: geometry
  access :: access

definition with_scsi :: "('io scsi, error, 'a) act \<Rightarrow> ('io range_session, error, 'a) act" where
  "with_scsi m = (\<lambda>s. case m (scsi s) of (r, c) \<Rightarrow> (r, s\<lparr>scsi := c\<rparr>))"

text \<open>
  \<open>RangeSession::connect\<close> consumes the SCSI session; a failed connection drops it, so the action
  runs on the session given to it and returns the new range session.
\<close>

definition connect :: "'io bulk_io \<Rightarrow> access \<Rightarrow> ('io scsi, error, 'io range_session) act" where
  "connect B a =
     and_then (initialize_ready B) (\<lambda>_.
     and_then (get_geometry B) (\<lambda>g.
     and_then (require (\<not> (blocks g = 0 \<or> ucast (- 1 :: u32) < blocks g \<or> 65536 < block_size g))
       (Protocol ''unsupported managed storage geometry'')) (\<lambda>_.
     (\<lambda>s. (Ok \<lparr>scsi = s, geometry = g, access = a\<rparr>, s)))))"

definition is_usable :: "'io range_session \<Rightarrow> bool" where
  "is_usable s = usable (scsi s)"

definition size_bytes :: "'io range_session \<Rightarrow> u64" where
  "size_bytes s = blocks (geometry s) * ucast (block_size (geometry s))"

definition span :: "'io range_session \<Rightarrow> u64 \<Rightarrow> nat \<Rightarrow> error + (u32 \<times> u16 \<times> nat)" where
  "span s offset len =
     (if len = 0 \<or> max_range_bytes < len
      then Inl (Protocol ''range length must be 1 byte through 4 MiB'')
      else case checked_add offset (of_nat len) of
        None \<Rightarrow> Inl (Protocol ''range lies outside managed storage'')
      | Some stop \<Rightarrow>
          if size_bytes s < stop then Inl (Protocol ''range lies outside managed storage'')
          else (let bs = ucast (block_size (geometry s)); first = offset div bs; last = div_ceil stop bs
            in (case u16_try_from (last - first) of
                 None \<Rightarrow> Inl (Protocol ''range exceeds READ/WRITE(10) block count'')
               | Some count \<Rightarrow> Inr (ucast first, count, unat (offset mod bs)))))"

definition read_range ::
  "nat \<Rightarrow> 'io bulk_io \<Rightarrow> u64 \<Rightarrow> nat \<Rightarrow> ('io range_session, error, u8 list) act" where
  "read_range uw B offset len s = (case span s offset len of
     Inl e \<Rightarrow> (Err e, s)
   | Inr (lba, count, skip) \<Rightarrow>
       and_then (with_scsi (read_blocks uw B lba count (block_size (geometry s)))) (\<lambda>bytes.
       unwrap (slice skip (skip + len) bytes)) s)"

definition write_range ::
  "nat \<Rightarrow> 'io bulk_io \<Rightarrow> u64 \<Rightarrow> u8 list \<Rightarrow> ('io range_session, error, unit) act" where
  "write_range uw B offset bytes s =
     (if access s \<noteq> ReadWrite then (Err (Protocol ''managed storage was opened read-only''), s)
      else case span s offset (length bytes) of
        Inl e \<Rightarrow> (Err e, s)
      | Inr (lba, count, skip) \<Rightarrow>
          let bs = block_size (geometry s)
          in and_then (unwrap (checked_mul uw (unat count) (unat bs))) (\<lambda>transfer_length.
             if skip = 0 \<and> transfer_length = length bytes
             then with_scsi (write_blocks uw B lba count bs bytes)
             else and_then (with_scsi (read_blocks uw B lba count bs)) (\<lambda>sectors.
                  and_then (unwrap (copy_at skip bytes sectors)) (\<lambda>sectors.
                  with_scsi (write_blocks uw B lba count bs sectors)))) s)"

definition sync :: "'io bulk_io \<Rightarrow> ('io range_session, error, unit) act" where
  "sync B = with_scsi (flush B)"

definition range_eject :: "'io bulk_io \<Rightarrow> ('io range_session, error, unit) act" where
  "range_eject B = with_scsi (eject B)"

end
