(* ===== verification/Nusb_Open.thy ===== *)
theory Nusb_Open
  imports Range_Session
begin

text \<open>
  \<open>NusbIo\<close> of \<open>nusb-scsi/src/lib.rs\<close>: opening the vendor interface, the transport over its two bulk
  endpoints, GET_MAX_LUN, teardown on native targets and in the browser. The USB library and
  the browser's device object are parameters: \<open>nusb\<close> and \<open>web_usb\<close> are records of the calls the
  code makes, acting on a world of type \<open>'w\<close>.
\<close>

section \<open>What the code uses of the USB library\<close>

text \<open>
  \<open>submit_in\<close> is \<open>None\<close> where submitting the buffer panics, as it does for a request that is not made of
  whole packets.
\<close>

datatype transfer_type = Control | Isochronous | Bulk | Interrupt

record endpoint_descriptor =
  transfer_type :: transfer_type
  address :: u8
  max_packet_size :: nat

record alt_descriptor =
  alternate_setting :: u8
  class_code :: u8
  subclass_code :: u8
  protocol_code :: u8
  endpoints :: "endpoint_descriptor list"

datatype control_type = StandardRequest | ClassRequest | VendorRequest
datatype recipient = ToDevice | ToInterface | ToEndpoint | ToOther

record control_request =
  control_type :: control_type
  recipient :: recipient
  request :: u8
  req_value :: u16
  req_index :: u16
  req_length :: u16

record completion =
  status :: "transfer_error option"
  actual_len :: nat
  buffer :: "u8 list"

record ('w, 'i, 'e) nusb =
  interface_number :: "'i \<Rightarrow> u8"
  get_alt_setting :: "'i \<Rightarrow> 'w \<Rightarrow> u8"
  descriptors :: "'i \<Rightarrow> 'w \<Rightarrow> alt_descriptor list"
  open_endpoint :: "'i \<Rightarrow> u8 \<Rightarrow> ('w, error, 'e) act"
  control_in :: "'i \<Rightarrow> control_request \<Rightarrow> nat \<Rightarrow> ('w, transfer_error, u8 list) act"
  submit_out :: "'e \<Rightarrow> u8 list \<Rightarrow> 'w \<Rightarrow> 'w"
  submit_in :: "'e \<Rightarrow> nat \<Rightarrow> 'w \<Rightarrow> 'w option"
  next_complete :: "'e \<Rightarrow> ('w, error, completion) act"
  cancel_all :: "'e \<Rightarrow> 'w \<Rightarrow> 'w"
  pending_transfers :: "'e \<Rightarrow> 'w \<Rightarrow> nat"

section \<open>The open transport\<close>

record ('e, 'd, 'i) nusb_io =
  io_input :: 'e
  io_output :: 'e
  input_packet_size :: nat
  io_max_lun :: u8
  web_device :: "'d option"
  web_interface :: "'i option"

text \<open>
  \<open>usize::next_multiple_of\<close>: it panics on zero, and on overflow as arithmetic does where overflow
  checks are on (a build without them wraps around).
\<close>

definition next_multiple_of :: "nat \<Rightarrow> nat \<Rightarrow> nat \<Rightarrow> nat option" where
  "next_multiple_of uw n p =
     (if p = 0 then None
      else let up = (if n mod p = 0 then n else n + (p - n mod p))
           in if up < 2 ^ uw then Some up else None)"

text \<open>\<open>completion.status?\<close>\<close>

definition completion_ok :: "completion \<Rightarrow> ('s, error, unit) act" where
  "completion_ok c = (case status c of None \<Rightarrow> ret () | Some e \<Rightarrow> fail (Usb e))"

text \<open>An action of the world, under the open transport.\<close>

definition on_world :: "('w, 'e, 'a) act \<Rightarrow> ('h \<times> 'w, 'e, 'a) act" where
  "on_world m = (\<lambda>(h, w). case m w of (r, v) \<Rightarrow> (r, (h, v)))"

definition submitted :: "('w \<Rightarrow> 'w option) \<Rightarrow> ('w, 'e, unit) act" where
  "submitted f = (\<lambda>w. case f w of None \<Rightarrow> (Panicked, w) | Some v \<Rightarrow> (Ok (), v))"

definition nusb_write ::
  "('w, 'i, 'e) nusb \<Rightarrow> u8 list \<Rightarrow> (('e, 'd, 'i) nusb_io \<times> 'w, error, nat) act" where
  "nusb_write N data = (\<lambda>(h, w).
     and_then (on_world (modify (submit_out N (io_output h) data))) (\<lambda>_.
     and_then (on_world (next_complete N (io_output h))) (\<lambda>completion.
     and_then (completion_ok completion) (\<lambda>_.
     ret (actual_len completion)))) (h, w))"

definition nusb_read ::
  "nat \<Rightarrow> ('w, 'i, 'e) nusb \<Rightarrow> nat \<Rightarrow> (('e, 'd, 'i) nusb_io \<times> 'w, error, u8 list) act" where
  "nusb_read uw N len = (\<lambda>(h, w).
     and_then (unwrap (next_multiple_of uw len (input_packet_size h))) (\<lambda>n.
     and_then (on_world (submitted (submit_in N (io_input h) n))) (\<lambda>_.
     and_then (on_world (next_complete N (io_input h))) (\<lambda>completion.
     and_then (completion_ok completion) (\<lambda>_.
     ret (buffer completion))))) (h, w))"

definition nusb_bulk :: "nat \<Rightarrow> ('w, 'i, 'e) nusb \<Rightarrow> (('e, 'd, 'i) nusb_io \<times> 'w) bulk_io" where
  "nusb_bulk uw N = \<lparr>bulk_max_lun = (\<lambda>(h, w). io_max_lun h), bulk_write = nusb_write N, bulk_read = nusb_read uw N\<rparr>"

section \<open>Opening\<close>

text \<open>Durations are nanoseconds; the limit is 60 seconds.\<close>

definition validate_timeout :: "nat \<Rightarrow> ('s, error, unit) act" where
  "validate_timeout timeout =
     require (\<not> (timeout = 0 \<or> 60 * 10 ^ 9 < timeout))
       (Protocol ''initialization timeout must be positive and at most 60 seconds'')"

definition get_max_lun_request :: "u8 \<Rightarrow> control_request" where
  "get_max_lun_request i = \<lparr>control_type = ClassRequest, recipient = ToInterface, request = 0xfe,
     req_value = 0, req_index = ucast i, req_length = 1\<rparr>"

definition parse_max_lun :: "transfer_error + u8 list \<Rightarrow> error + u8" where
  "parse_max_lun response = (case response of
     Inr bytes \<Rightarrow> if length bytes = 1 \<and> bytes ! 0 \<le> 15 then Inr (bytes ! 0)
       else Inl (Protocol ''invalid GET_MAX_LUN response'')
   | Inl Stall \<Rightarrow> Inr 0
   | Inl e \<Rightarrow> Inl (Usb e))"

text \<open>
  \<open>from_interface\<close> uses the alternate setting that is already active, and of its descriptor the
  first bulk endpoint of each direction.
\<close>

definition is_bulk_in :: "endpoint_descriptor \<Rightarrow> bool" where
  "is_bulk_in e \<longleftrightarrow> transfer_type e = Bulk \<and> address e AND 0x80 \<noteq> 0"

definition is_bulk_out :: "endpoint_descriptor \<Rightarrow> bool" where
  "is_bulk_out e \<longleftrightarrow> transfer_type e = Bulk \<and> address e AND 0x80 = 0"

definition from_interface ::
  "('w, 'i, 'e) nusb \<Rightarrow> 'i \<Rightarrow> u8 \<Rightarrow> ('w, error, ('e, 'd, 'i) nusb_io) act" where
  "from_interface N i alternate = (\<lambda>w.
     and_then (require (get_alt_setting N i w = alternate)
       (Protocol ''selected alternate setting is not active'')) (\<lambda>_.
     and_then (ok_or (Protocol ''selected alternate setting is missing'')
       (find (\<lambda>d. alternate_setting d = alternate) (descriptors N i w))) (\<lambda>descriptor.
     and_then (require (\<not> (class_code descriptor \<noteq> 0xff \<or> subclass_code descriptor \<noteq> 6 \<or> protocol_code descriptor \<noteq> 0x50))
       (Protocol ''managed storage requires ff/06/50'')) (\<lambda>_.
     and_then (ok_or (Protocol ''bulk IN endpoint missing'') (find is_bulk_in (endpoints descriptor))) (\<lambda>inp.
     and_then (ok_or (Protocol ''bulk OUT endpoint missing'') (find is_bulk_out (endpoints descriptor))) (\<lambda>outp.
     and_then (open_endpoint N i (address inp)) (\<lambda>ein.
     and_then (open_endpoint N i (address outp)) (\<lambda>eout.
     ret \<lparr>io_input = ein, io_output = eout, input_packet_size = max_packet_size inp, io_max_lun = 0,
       web_device = None, web_interface = None\<rparr>))))))) w)"

definition initialize ::
  "('w, 'i, 'e) nusb \<Rightarrow> 'i \<Rightarrow> u8 \<Rightarrow> nat \<Rightarrow> ('w, error, ('e, 'd, 'i) nusb_io) act" where
  "initialize N i alternate timeout =
     and_then (validate_timeout timeout) (\<lambda>_.
     and_then (from_interface N i alternate) (\<lambda>h.
     and_then (match_result (control_in N i (get_max_lun_request (interface_number N i)) timeout)
         (\<lambda>bytes. ret (Inr bytes)) (\<lambda>e. ret (Inl e))) (\<lambda>response.
     (case parse_max_lun response of
        Inl e \<Rightarrow> fail e
      | Inr n \<Rightarrow> ret (h\<lparr>io_max_lun := n\<rparr>)))))"

text \<open>\<open>NusbIo::connect\<close> of the native targets.\<close>

definition nusb_connect ::
  "('w, 'i, 'e) nusb \<Rightarrow> 'i \<Rightarrow> u8 \<Rightarrow> nat \<Rightarrow> ('w, error, ('e, 'd, 'i) nusb_io) act" where
  "nusb_connect N i alternate timeout = initialize N i alternate timeout"

section \<open>Native teardown\<close>

text \<open>
  \<open>while endpoint.pending() != 0 { let _ = endpoint.next_complete().await; }\<close>. The loop need not
  end; then the value is \<open>None\<close>.
\<close>

partial_function (option) drain :: "('w, 'i, 'e) nusb \<Rightarrow> 'e \<Rightarrow> 'w \<Rightarrow> ((error, unit) outcome \<times> 'w) option" where
  "drain N e w =
     (if pending_transfers N e w = 0 then Some (Ok (), w)
      else case next_complete N e w of
        (Dropped, v) \<Rightarrow> Some (Dropped, v)
      | (Panicked, v) \<Rightarrow> Some (Panicked, v)
      | (_, v) \<Rightarrow> drain N e v)"

definition close_native ::
  "('w, 'i, 'e) nusb \<Rightarrow> ('e, 'd, 'i) nusb_io \<Rightarrow> 'w \<Rightarrow> ((error, unit) outcome \<times> 'w) option" where
  "close_native N h w =
     (case drain N (io_input h) (cancel_all N (io_output h) (cancel_all N (io_input h) w)) of
        Some (Ok _, v) \<Rightarrow> drain N (io_output h) v
      | stopped \<Rightarrow> stopped)"

section \<open>The browser\<close>

text \<open>
  A race against a timer: the timer winning drops the other future, and the value is \<open>None\<close>. Races
  nest, so when an await has been abandoned, \<open>own\<close> says of the world whether the timer of this race
  ran out; if not, the caller dropped the whole race. A caller that awaits the race to its end is
  \<open>awaited\<close>.
\<close>

definition deadline :: "('w \<Rightarrow> bool) \<Rightarrow> ('w, 'e, 'a) act \<Rightarrow> ('w, 'f, ('e + 'a) option) act" where
  "deadline own m = (\<lambda>w. case m w of
     (Ok a, v) \<Rightarrow> (Ok (Some (Inr a)), v)
   | (Err e, v) \<Rightarrow> (Ok (Some (Inl e)), v)
   | (Dropped, v) \<Rightarrow> if own v then (Ok None, v) else (Dropped, v)
   | (Panicked, v) \<Rightarrow> (Panicked, v))"

abbreviation awaited :: "'w \<Rightarrow> bool" where
  "awaited \<equiv> \<lambda>_. True"

text \<open>\<open>drop_interface\<close> is the effect of dropping the last handle of a claimed interface: it starts a
  release that nobody awaits.\<close>

record ('w, 'i, 'n) web_usb =
  device_opened :: "'w \<Rightarrow> bool"
  release_interface :: "'i \<Rightarrow> ('w, error, unit) act"
  drop_interface :: "'i \<Rightarrow> 'w \<Rightarrow> 'w"
  device_close :: "('w, string, unit) act"
  configuration :: "'w \<Rightarrow> (u8 \<times> u8) list option"
  from_js :: "('w, error, 'n) act"
  claim_interface :: "'n \<Rightarrow> u8 \<Rightarrow> ('w, error, 'i) act"

text \<open>The release of \<open>close_web\<close>; a release that fails on a device already closed is no failure.\<close>

definition release_step :: "('w \<Rightarrow> bool) \<Rightarrow> ('w, 'i, 'n) web_usb \<Rightarrow> 'i option \<Rightarrow> ('w, error, error + unit) act" where
  "release_step own W interface = (case interface of
     None \<Rightarrow> ret (Inr ())
   | Some i \<Rightarrow> and_then (deadline own (release_interface W i)) (\<lambda>result w.
       (case result of
          Some (Inl e) \<Rightarrow> if \<not> device_opened W w then (Ok (Inr ()), w) else (Ok (Inl e), w)
        | Some (Inr _) \<Rightarrow> (Ok (Inr ()), w)
        | None \<Rightarrow> (Ok (Inl (Protocol ''WebUSB interface release timed out'')), w))))"

definition close_step :: "('w \<Rightarrow> bool) \<Rightarrow> ('w, 'i, 'n) web_usb \<Rightarrow> ('w, error, error + unit) act" where
  "close_step own W = and_then (deadline own (device_close W)) (\<lambda>result. ret
     (case result of
        Some (Inr _) \<Rightarrow> Inr ()
      | Some (Inl value) \<Rightarrow> Inl (Close value)
      | None \<Rightarrow> Inl (Protocol ''WebUSB device close timed out'')))"

definition close_web :: "('w \<Rightarrow> bool) \<Rightarrow> ('w, 'i, 'n) web_usb \<Rightarrow> 'i option \<Rightarrow> ('w, error, unit) act" where
  "close_web own W interface =
     and_then (release_step own W interface) (\<lambda>released.
     and_then (close_step own W) (\<lambda>closed.
       (case (released, closed) of
          (Inl p, Inl c) \<Rightarrow> fail (with_cleanup p c)
        | (Inl e, _) \<Rightarrow> fail e
        | (_, Inl e) \<Rightarrow> fail e
        | _ \<Rightarrow> ret ())))"

text \<open>
  The raced body of \<open>connect_web\<close>: the variable \<open>claimed\<close> outlives it, so it is part of the
  state, and the claim is kept when the body fails or is dropped later.
\<close>

definition open_claimed ::
  "('w, 'i, 'e) nusb \<Rightarrow> ('w, 'i, 'n) web_usb \<Rightarrow> u8 \<Rightarrow> u8 \<Rightarrow> nat \<Rightarrow>
   ('i option \<times> 'w, error, ('e, 'd, 'i) nusb_io) act" where
  "open_claimed N W number alternate timeout = (\<lambda>(claimed, w).
     and_then (ok_or (Protocol ''no active USB configuration'') (configuration W w)) (\<lambda>interfaces.
     and_then (ok_or (Protocol ''selected USB interface is missing'') (find (\<lambda>(n, a). n = number) interfaces)) (\<lambda>(n, a).
     and_then (require (a = alternate) (Protocol ''selected alternate setting is not active'')) (\<lambda>_.
     and_then (on_world (from_js W)) (\<lambda>native.
     and_then (on_world (claim_interface W native number)) (\<lambda>i.
     and_then (modify (\<lambda>(_, v). (Some i, v))) (\<lambda>_.
     on_world (initialize N i alternate timeout))))))) (claimed, w))"

text \<open>
  A caller may drop \<open>connect_web\<close> at any of its awaits, those of the failed open's \<open>close_web\<close> included; while
  the body runs, that also drops the claimed interface.
\<close>

definition connect_web ::
  "('w \<Rightarrow> bool) \<Rightarrow> ('w, 'i, 'e) nusb \<Rightarrow> ('w, 'i, 'n) web_usb \<Rightarrow> 'd \<Rightarrow> u8 \<Rightarrow> u8 \<Rightarrow> nat \<Rightarrow>
   ('w, error, ('e, 'd, 'i) nusb_io) act" where
  "connect_web own N W device number alternate timeout =
     and_then (validate_timeout timeout) (\<lambda>_ w.
       (case deadline (\<lambda>(_, v). own v) (open_claimed N W number alternate timeout) (None, w) of
          (Ok (Some (Inr h)), (claimed, v)) \<Rightarrow> (Ok (h\<lparr>web_device := Some device, web_interface := claimed\<rparr>), v)
        | (Ok failed, (claimed, v)) \<Rightarrow>
            let e = (case failed of Some (Inl e) \<Rightarrow> e | _ \<Rightarrow> InitializationTimeout)
            in match_result (close_web own W claimed) (\<lambda>_. fail e) (\<lambda>cleanup. fail (with_cleanup e cleanup)) v
        | (Err e, (_, v)) \<Rightarrow> (Err e, v)
        | (Dropped, (claimed, v)) \<Rightarrow> (Dropped, case claimed of None \<Rightarrow> v | Some i \<Rightarrow> drop_interface W i v)
        | (Panicked, (_, v)) \<Rightarrow> (Panicked, v)))"

text \<open>\<open>self.web_interface.as_ref().expect(..).clone()\<close>.\<close>

definition retain_web_interface :: "('e, 'd, 'i) nusb_io \<Rightarrow> 'i option" where
  "retain_web_interface h = web_interface h"

text \<open>\<open>NusbIo::close\<close> in the browser.\<close>

definition close_owned :: "('w \<Rightarrow> bool) \<Rightarrow> ('w, 'i, 'n) web_usb \<Rightarrow> ('e, 'd, 'i) nusb_io \<Rightarrow> ('w, error, unit) act" where
  "close_owned own W h = (case web_device h of
     None \<Rightarrow> fail (Protocol ''missing WebUSB owner'')
   | Some _ \<Rightarrow> close_web own W (web_interface h))"

end
