(* ===== verification/Scsi_Properties.thy ===== *)
theory Scsi_Properties
  imports Scsi_Framing
begin

text \<open>
  The properties of \<open>struct Scsi\<close>: framing and retirement of \<open>command\<close>, the order of what is
  sent, the layout of wrapper and command block, the bounds of \<open>block_command\<close> and
  \<open>geometry\<close>, the fixed retry of \<open>initialize_ready\<close>, and panic freedom.
\<close>

section \<open>The messages of a command, in order\<close>

fun sent :: "wire list \<Rightarrow> u8 list list" where
  "sent [] = []"
| "sent (Sent d # ws) = d # sent ws"
| "sent (Short n # ws) = sent ws"
| "sent (Received c # ws) = sent ws"

lemma sent_append [simp]: "sent (xs @ ys) = sent xs @ sent ys"
  by (induction xs rule: sent.induct) auto

lemma sent_map_Received [simp]: "sent (map Received cs) = []"
  by (induction cs) auto

lemma sent_map_Sent [simp]: "sent (map Sent cs) = cs"
  by (induction cs) auto

lemma sent_shortfall [simp]: "sent (shortfall d r) = []"
  by (simp add: shortfall_def split: outcome.split)

abbreviation silent :: "('io \<times> wire list) scsi \<Rightarrow> ('io \<times> wire list) scsi \<Rightarrow> bool" where
  "silent s t \<equiv> sent (wire_log t) = sent (wire_log s)"

lemma silent_order [simp, intro]: "reflp silent" "transp silent"
  by (auto intro!: reflpI transpI)

lemma traced_read_silent [within_intros]: "within silent (with_io (bulk_read (traced B) n))"
  by (rule withinI) (auto simp: with_io_def traced_def split: prod.splits outcome.splits)

lemma check_csw_silent [within_intros]: "within silent (check_csw t len data csw)"
proof (rule withinI)
  fix s u :: "('io \<times> wire list) scsi" and r
  assume "check_csw t len data csw s = (r, u)"
  then show "silent s u"
    by (cases rule: check_csw_cases [of csw t len data s]) auto
qed

lemma write_chunks_sent:
  assumes "write_chunks (traced B) cs s = (r, u)"
  shows "\<exists>k. sent (wire_log u) = sent (wire_log s) @ take k cs"
  using assms
proof (induction cs arbitrary: s)
  case Nil
  then show ?case by (auto simp: act_simps)
next
  case (Cons c cs)
  obtain q t where w: "with_io (bulk_write (traced B) c) s = (q, t)" by fastforce
  note log = traced_write_log [OF w]
  show ?case
  proof (cases "q = Ok (length c)")
    case True
    with Cons.prems w have "write_chunks (traced B) cs t = (r, u)"
      by (simp add: and_then_run act_simps)
    from Cons.IH [OF this] obtain k where "sent (wire_log u) = sent (wire_log t) @ take k cs" ..
    then show ?thesis using log by (intro exI [of _ "Suc k"]) simp
  next
    case False
    with Cons.prems w have "u = t"
      by (cases q) (auto simp: and_then_def require_def fail_def)
    then show ?thesis using log by (intro exI [of _ "1"]) simp
  qed
qed

lemma data_stage_sent:
  assumes "data_stage (traced B) incoming outgoing s = (r, u)"
  shows "\<exists>k. sent (wire_log u) = sent (wire_log s) @ take k (chunks max_chunk outgoing)"
proof (cases "0 < incoming")
  case True
  have "within silent (data_in (traced B) incoming [])"
    by (intro data_in_within silent_order traced_read_silent)
  from withinD [OF this] assms True have "silent s u" by (simp add: data_stage_def)
  then show ?thesis by (intro exI [of _ 0]) simp
next
  case False
  show ?thesis
  proof (cases "outgoing = []")
    case True
    then show ?thesis using assms False by (auto simp: data_stage_def act_simps)
  next
    case out: False
    obtain q t where w: "write_chunks (traced B) (chunks max_chunk outgoing) s = (q, t)" by fastforce
    have "u = t" using assms False out w
      by (cases q) (auto simp: data_stage_def data_out_def and_then_def ret_def)
    then show ?thesis using write_chunks_sent [OF w] by simp
  qed
qed

lemma exchange_sent:
  assumes "exchange (traced B) t len w incoming outgoing s = (r, u)"
  shows "\<exists>k. sent (wire_log u) = sent (wire_log s) @ w # take k (chunks max_chunk outgoing)"
proof -
  let ?tail = "\<lambda>data. and_then (with_io (bulk_read (traced B) 13)) (\<lambda>csw. check_csw t len data csw)"
  have tail: "within silent (?tail data)" for data
    by (intro within_intros silent_order)
  obtain q v where w: "with_io (bulk_write (traced B) w) s = (q, v)" by fastforce
  note log = traced_write_log [OF w]
  show ?thesis
  proof (cases "q = Ok (length w)")
    case False
    with assms w have "u = v"
      by (cases q) (auto simp: exchange_def and_then_def require_def fail_def)
    then show ?thesis using log by (intro exI [of _ 0]) simp
  next
    case True
    obtain p x where d: "data_stage (traced B) incoming outgoing v = (p, x)" by fastforce
    from assms w True d have run: "and_then (data_stage (traced B) incoming outgoing) ?tail v = (r, u)"
      by (simp add: exchange_def and_then_run act_simps)
    have "silent x u"
    proof (cases p)
      case (Ok data)
      with run d have "?tail data x = (r, u)" by (simp add: and_then_run)
      then show ?thesis by (rule withinD [OF tail])
    qed (use run d in \<open>auto simp: and_then_run\<close>)
    then show ?thesis using data_stage_sent [OF d] log by auto
  qed
qed

lemma command_issue:
  assumes "usable s" "\<not> bad_shape cdb incoming outgoing" "max incoming (length outgoing) < 2 ^ 32"
  shows "command B cdb incoming outgoing s =
    exchange B (tag s + 1) (of_nat (max incoming (length outgoing)))
      (cbw (tag s + 1) (of_nat (max incoming (length outgoing))) incoming (lun s) cdb)
      incoming outgoing (s\<lparr>tag := tag s + 1, usable := False\<rparr>)"
  using assms by (simp add: command_def Let_def u32_try_from_def)

lemma command_sent_lemma:
  assumes "usable s" "\<not> bad_shape cdb incoming outgoing" "max incoming (length outgoing) < 2 ^ 32"
  shows "\<exists>k. sent (wire_log (snd (command (traced B) cdb incoming outgoing s))) = sent (wire_log s) @
    cbw (tag s + 1) (of_nat (max incoming (length outgoing))) incoming (lun s) cdb #
    take k (chunks max_chunk outgoing)"
proof -
  obtain r u where run: "command (traced B) cdb incoming outgoing s = (r, u)" by fastforce
  then show ?thesis
    using exchange_sent [of B _ _ _ incoming outgoing "s\<lparr>tag := tag s + 1, usable := False\<rparr>" r u]
    by (simp add: command_issue [OF assms])
qed

text \<open>
  Every command that \<open>Scsi::command\<close> issues puts its own command block wrapper on the wire,
  followed by nothing but a prefix of its data cut into one-megabyte chunks, in order and
  without gaps or repetition, whatever the transport answers and however the command ends.
\<close>

theorem command_sends_wrapper_then_prefix:
  assumes "usable s" "\<not> bad_shape cdb incoming outgoing" "max incoming (length outgoing) < 2 ^ 32"
  shows "\<exists>k. sent (wire_log (snd (command (traced B) cdb incoming outgoing s))) = sent (wire_log s) @
    cbw (tag s + 1) (of_nat (max incoming (length outgoing))) incoming (lun s) cdb #
    take k (chunks max_chunk outgoing)"
  using assms by (rule command_sent_lemma)

definition demo :: "u8 list list \<Rightarrow> (fake \<times> wire list) scsi" where
  "demo rs = \<lparr>io = (\<lparr>fake_reads = rs, fake_short = False\<rparr>, []), tag = 0, lun = 0, usable = True\<rparr>"

lemma demo_sel [simp]: "usable (demo rs)" "tag (demo rs) = 0" "lun (demo rs) = 0" "wire_log (demo rs) = []"
  by (simp_all add: demo_def)

theorem command_sends_wrapper_then_prefix_witness:
  "\<exists>k. sent (wire_log (snd (command (traced fake_io) [0x2a, 0, 0, 0, 0, 0, 0, 0, 1, 0] 0 [1, 2] (demo [])))) =
    cbw 1 2 0 0 [0x2a, 0, 0, 0, 0, 0, 0, 0, 1, 0] # take k [[1, 2]]"
proof -
  have "chunks max_chunk [1, 2 :: u8] = [[1, 2]]" by (rule chunks_single) (simp_all add: max_chunk_def)
  then show ?thesis
    using command_sends_wrapper_then_prefix [of "demo []" "[0x2a, 0, 0, 0, 0, 0, 0, 0, 1, 0]" 0 "[1, 2]" fake_io]
    by (simp add: bad_shape_def)
qed

section \<open>Success and retirement\<close>

text \<open>
  C1: \<open>Scsi::command\<close> returns \<open>Ok(data)\<close> only after a complete, correctly framed exchange: its
  wrapper and all of its data went out, each write reporting its full length, the chunks read back concatenate to exactly \<open>data\<close> of
  the requested length, and the last thing read was the 13-byte status wrapper with the
  signature, this command's tag, no residue and status 0. A wrapper left over from an earlier
  command carries another tag and is never taken for this one's.
\<close>

theorem command_ok_is_framed:
  assumes "command (traced B) cdb incoming outgoing s = (Ok data, u)"
  shows "\<exists>ins. wire_log u = wire_log s @
      Sent (cbw (tag s + 1) (of_nat (max incoming (length outgoing))) incoming (lun s) cdb) #
      map Sent (chunks max_chunk outgoing) @ map Received ins @ [Received (csw_bytes (tag s + 1) 0 0)] \<and>
    concat ins = data \<and> length data = incoming"
proof -
  have pre: "usable s" "\<not> bad_shape cdb incoming outgoing" "max incoming (length outgoing) < 2 ^ 32"
    using assms by (auto simp: command_def u32_try_from_def split: if_splits option.splits)
  let ?s = "s\<lparr>tag := tag s + 1, usable := False\<rparr>"
  let ?w = "cbw (tag s + 1) (of_nat (max incoming (length outgoing))) incoming (lun s) cdb"
  from assms obtain a b c where
    w: "with_io (bulk_write (traced B) ?w) ?s = (Ok (length ?w), a)" and
    d: "data_stage (traced B) incoming outgoing a = (Ok b, c)" and
    x: "and_then (with_io (bulk_read (traced B) 13)) (\<lambda>csw. check_csw (tag s + 1)
      (of_nat (max incoming (length outgoing))) b csw) c = (Ok data, u)"
    unfolding command_issue [OF pre] exchange_def by (auto simp: and_then_Ok require_iffs)
  from x obtain csw v where rd: "with_io (bulk_read (traced B) 13) c = (Ok csw, v)"
    and chk: "check_csw (tag s + 1) (of_nat (max incoming (length outgoing))) b csw v = (Ok data, u)"
    by (auto simp: and_then_Ok)
  have "csw = csw_bytes (tag s + 1) 0 0 \<and> data = b \<and> u = v\<lparr>usable := True\<rparr>"
    by (rule check_csw_cases [of csw "tag s + 1" "of_nat (max incoming (length outgoing))" b v])
      (use chk in auto)
  then show ?thesis
    using traced_write_log [OF w] data_stage_log [OF d pre(2)] traced_read_log [OF rd]
      data_stage_length [OF d] by auto
qed

theorem command_ok_is_framed_witness:
  "\<exists>ins u. command (traced fake_io) [3, 0, 0, 0, 2, 0] 2 [] (demo [[7], [8], csw_bytes 1 0 0]) = (Ok [7, 8], u) \<and>
    wire_log u = Sent (cbw 1 2 2 0 [3, 0, 0, 0, 2, 0]) # map Received ins @ [Received (csw_bytes 1 0 0)] \<and>
    concat ins = [7, 8]"
proof -
  have "\<exists>u. command (traced fake_io) [3, 0, 0, 0, 2, 0] 2 [] (demo [[7], [8], csw_bytes 1 0 0]) = (Ok [7, 8], u)"
    by (simp add: demo_def command_def bad_shape_def u32_try_from_def exchange_def data_stage_def
        data_in.simps with_io_def traced_def fake_write_def fake_read_def act_simps and_then_def
        check_csw_valid cbw_def)
  then show ?thesis using command_ok_is_framed [of fake_io "[3, 0, 0, 0, 2, 0]" 2 "[]"] by force
qed

text \<open>What evaluates a run over the scripted transport.\<close>

lemmas fake_run = demo_def command_def bad_shape_def u32_try_from_def exchange_def data_stage_def
  data_in.simps max_chunk_def with_io_def traced_def fake_write_def fake_read_def act_simps and_then_def
  match_result_def check_csw_valid


text \<open>A future dropped while the wrapper is being written.\<close>

definition hanging_io :: "unit bulk_io" where
  "hanging_io = \<lparr>bulk_max_lun = (\<lambda>_. 0), bulk_write = (\<lambda>d i. (Dropped, i)), bulk_read = (\<lambda>n i. (Dropped, i))\<rparr>"


text \<open>
  A successful eject retires the session: START STOP UNIT completed, and from then on every
  command returns \<open>Retired\<close> without touching the transport. A refused eject leaves the session
  usable.
\<close>

theorem eject_retires:
  assumes "eject B s = (Ok x, u)"
  shows "\<not> usable u \<and> tag u = tag s + 1 \<and> command B cdb incoming outgoing u = (Err Retired, u)"
proof -
  obtain d t where c: "command B [0x1b, 0, 0, 0, 2, 0] 0 [] s = (Ok d, t)" and u: "u = t\<lparr>usable := False\<rparr>"
    using assms by (auto simp: eject_def and_then_Ok modify_def)
  have "tag t = tag s + 1" using c by (cases rule: command_cases) auto
  then show ?thesis using u by (simp add: command_retired)
qed

theorem eject_retires_witness:
  "\<exists>u. eject fake_io \<lparr>io = \<lparr>fake_reads = [csw_bytes 1 0 0], fake_short = False\<rparr>, tag = 0, lun = 0, usable = True\<rparr> = (Ok (), u) \<and>
    command fake_io [0] 0 [] u = (Err Retired, u)"
proof -
  have "\<exists>u. eject fake_io \<lparr>io = \<lparr>fake_reads = [csw_bytes 1 0 0], fake_short = False\<rparr>, tag = 0, lun = 0, usable = True\<rparr> = (Ok (), u)"
    by (simp add: eject_def command_def bad_shape_def u32_try_from_def exchange_def data_stage_def
        with_io_def fake_write_def fake_read_def act_simps and_then_def check_csw_valid)
  then show ?thesis using eject_retires by blast
qed

section \<open>Initialization\<close>

text \<open>The command blocks \<open>initialize_ready\<close> may issue, with the tags they get after tag \<open>t\<close>.\<close>

definition readiness_script :: "u8 \<Rightarrow> u32 \<Rightarrow> u8 list list" where
  "readiness_script l t =
     [cbw (t + 1) 0 0 l (replicate 6 0), cbw (t + 2) 18 18 l [3, 0, 0, 0, 18, 0],
      cbw (t + 3) 0 0 l (replicate 6 0)]"

lemma command_sent_no_data:
  assumes "command (traced B) cdb incoming [] s = (r, u)" "usable s" "cdb \<noteq> []" "length cdb \<le> 16" "incoming < 2 ^ 32"
  shows "sent (wire_log u) = sent (wire_log s) @ [cbw (tag s + 1) (of_nat incoming) incoming (lun s) cdb]"
  using assms command_sent_lemma [of s cdb incoming "[]" B] by (auto simp: bad_shape_def)

lemma and_then_ret_run: "and_then m (\<lambda>_. ret ()) s = (q, v) \<Longrightarrow> \<exists>c. m s = (c, v) \<and> (\<forall>x. q = Ok x \<longrightarrow> (\<exists>d. c = Ok d)) \<and>
    (\<forall>e. q = Err e \<longrightarrow> c = Err e) \<and> (q = Dropped \<longrightarrow> c = Dropped) \<and> (q = Panicked \<longrightarrow> c = Panicked)"
  by (auto simp: and_then_def ret_def split: prod.splits outcome.splits)

lemma command_usable_tag:
  assumes "command B cdb incoming outgoing s = (r, u)" "usable s" "\<not> bad_shape cdb incoming outgoing"
    "max incoming (length outgoing) < 2 ^ 32"
  shows "tag u = tag s + 1 \<and> lun u = lun s"
proof -
  from assms(1) have "exchange B (tag s + 1) (of_nat (max incoming (length outgoing)))
      (cbw (tag s + 1) (of_nat (max incoming (length outgoing))) incoming (lun s) cdb)
      incoming outgoing (s\<lparr>tag := tag s + 1, usable := False\<rparr>) = (r, u)"
    by (simp add: command_issue [OF assms(2-4)])
  then show ?thesis by (rule exchange_cases) auto
qed

lemma test_unit_ready_run:
  assumes "test_unit_ready (traced B) s = (q, v)" "usable s"
  shows "sent (wire_log v) = sent (wire_log s) @ [cbw (tag s + 1) 0 0 (lun s) (replicate 6 0)] \<and>
    tag v = tag s + 1 \<and> lun v = lun s \<and> (q = Ok () \<longrightarrow> usable v)"
proof -
  from assms(1) obtain c where c: "command (traced B) (replicate 6 0) 0 [] s = (c, v)"
    and ok: "q = Ok () \<Longrightarrow> \<exists>d. c = Ok d" by (auto simp: test_unit_ready_def dest: and_then_ret_run)
  have "usable v" if "q = Ok ()" using ok [OF that] c by (auto elim: command_cases)
  then show ?thesis using command_sent_no_data [OF c] command_usable_tag [OF c] assms(2)
    by (auto simp: bad_shape_def)
qed

lemma request_sense_run:
  assumes "request_sense (traced B) s = (q, v)" "usable s"
  shows "sent (wire_log v) = sent (wire_log s) @ [cbw (tag s + 1) 18 18 (lun s) [3, 0, 0, 0, 18, 0]] \<and>
    tag v = tag s + 1 \<and> lun v = lun s \<and> (\<forall>d. q = Ok d \<longrightarrow> usable v)"
proof -
  from assms(1) have c: "command (traced B) [3, 0, 0, 0, 18, 0] 18 [] s = (q, v)"
    by (simp add: request_sense_def)
  have "usable v" if "q = Ok d" for d using c that by (auto elim: command_cases)
  then show ?thesis using command_sent_no_data [OF c] command_usable_tag [OF c] assms(2)
    by (auto simp: bad_shape_def)
qed

lemma request_sense_retired: "\<not> usable s \<Longrightarrow> request_sense B s = (Err Retired, s)"
  by (simp add: request_sense_def command_retired)

text \<open>
  \<open>initialize_ready\<close> issues at most three commands, always a prefix of TEST UNIT READY, REQUEST
  SENSE, TEST UNIT READY under consecutive tags: it never loops, never sends data and never
  repeats anything else. It succeeds only with a passed TEST UNIT READY and a usable session,
  and it issues the third command only when the sense it read reports power-on, reset or a new
  medium; a transport failure of the first command is returned as it is.
\<close>

theorem initialize_ready_script:
  assumes "initialize_ready (traced B) s = (r, u)" "usable s"
  shows "\<exists>k\<in>{1, 2, 3}. sent (wire_log u) = sent (wire_log s) @ take k (readiness_script (lun s) (tag s)) \<and>
    tag u = tag s + of_nat k \<and> (r = Ok () \<longrightarrow> k \<noteq> 2 \<and> usable u) \<and>
    (k = 3 \<longrightarrow> (\<exists>sense v w. request_sense (traced B) v = (Ok sense, w) \<and> tag v = tag s + 1 \<and> reset_or_new_medium sense)) \<and>
    (\<forall>q. test_unit_ready (traced B) s = (q, u) \<and> q \<noteq> Err CommandFailed \<longrightarrow> r = q)"
proof -
  obtain q v where t: "test_unit_ready (traced B) s = (q, v)" by fastforce
  note first = test_unit_ready_run [OF t assms(2)]
  show ?thesis
  proof (cases "q = Err CommandFailed")
    case False
    have "r = q \<and> u = v"
      using assms(1) t False
      by (cases q) (auto simp: initialize_ready_def match_result_def act_simps split: error.splits)
    then show ?thesis using first t by (intro bexI [of _ 1]) (auto simp: readiness_script_def)
  next
    case True
    with assms(1) t have rest: "and_then (request_sense (traced B)) (\<lambda>sense.
        and_then (require (reset_or_new_medium sense) CommandFailed) (\<lambda>_. test_unit_ready (traced B))) v = (r, u)"
      by (simp add: initialize_ready_def match_result_def)
    obtain p w where p: "request_sense (traced B) v = (p, w)" by fastforce
    show ?thesis
    proof (cases "usable v")
      case dead: False
      then have "u = v \<and> r = Err Retired" using rest by (simp add: request_sense_retired and_then_run)
      then show ?thesis using first t True by (intro bexI [of _ 1]) (auto simp: readiness_script_def)
    next
      case live: True
      note second = request_sense_run [OF p live]
      show ?thesis
      proof (cases "\<exists>sense. p = Ok sense \<and> reset_or_new_medium sense")
        case again: True
        then obtain sense where sense: "p = Ok sense" "reset_or_new_medium sense" by blast
        with rest p have third: "test_unit_ready (traced B) w = (r, u)" by (simp add: and_then_run act_simps)
        have "usable w" using second sense by simp
        from test_unit_ready_run [OF third this] show ?thesis
          using first second sense p t True
            by (intro bexI [of _ 3]) (auto simp: readiness_script_def add.commute)
      next
        case stop: False
        then have "u = w \<and> r \<noteq> Ok ()"
          using rest p by (cases p) (auto simp: and_then_run require_def act_simps)
        then show ?thesis using first second t True
          by (intro bexI [of _ 2]) (auto simp: readiness_script_def add.commute)
      qed
    qed
  qed
qed

text \<open>The sense of a device that was just powered on.\<close>

definition power_on_sense :: "u8 list" where
  "power_on_sense = [0x70, 0, 6, 0, 0, 0, 0, 10, 0, 0, 0, 0, 0x29, 0, 0, 0, 0, 0]"

theorem initialize_ready_script_witness:
  "\<exists>r u. initialize_ready (traced fake_io)
     (demo [csw_bytes 1 0 1, power_on_sense, csw_bytes 2 0 0, csw_bytes 3 0 0]) = (r, u) \<and>
     r = Ok () \<and> tag u = 3 \<and> usable u \<and>
     (\<exists>k\<in>{1, 2, 3}. sent (wire_log u) = take k (readiness_script 0 0) \<and> tag u = of_nat k)"
proof -
  have "\<exists>u. initialize_ready (traced fake_io)
     (demo [csw_bytes 1 0 1, power_on_sense, csw_bytes 2 0 0, csw_bytes 3 0 0]) = (Ok (), u) \<and> tag u = 3"
    by (simp add: initialize_ready_def test_unit_ready_def request_sense_def fake_run cbw_def
        power_on_sense_def reset_or_new_medium_def)
  then obtain u where run: "initialize_ready (traced fake_io)
     (demo [csw_bytes 1 0 1, power_on_sense, csw_bytes 2 0 0, csw_bytes 3 0 0]) = (Ok (), u)" and u: "tag u = 3"
    by blast
  from initialize_ready_script [OF run] u run show ?thesis by auto
qed

section \<open>Layouts and bounds\<close>

text \<open>The fields a BOT device reads from a wrapper.\<close>

definition parse_cbw :: "u8 list \<Rightarrow> (u32 \<times> u32 \<times> bool \<times> u8 \<times> u8 list) option" where
  "parse_cbw w =
     (if length w = 31 \<and> take 4 w = usbc \<and> 1 \<le> w ! 14 \<and> w ! 14 \<le> 16 then
        (case (u32_from_le_bytes (take 4 (drop 4 w)), u32_from_le_bytes (take 4 (drop 8 w))) of
           (Some t, Some len) \<Rightarrow> Some (t, len, w ! 12 = 0x80, w ! 13, take (unat (w ! 14)) (drop 15 w))
         | _ \<Rightarrow> None)
      else None)"

text \<open>
  The 31-byte command block wrapper that \<open>command\<close> builds decodes, by the field offsets of the
  Bulk-Only Transport specification, to the tag, transfer length, direction, LUN and command
  block it was built from.
\<close>

theorem cbw_roundtrip:
  assumes "cdb \<noteq> []" "length cdb \<le> 16"
  shows "parse_cbw (cbw t len incoming l cdb) = Some (t, len, 0 < incoming, l, cdb)"
proof -
  have n: "unat (of_nat (length cdb) :: u8) = length cdb"
    using assms(2) by (simp add: unat_of_nat)
  then have "1 \<le> (of_nat (length cdb) :: u8)" "(of_nat (length cdb) :: u8) \<le> 16"
    using assms by (simp_all add: word_le_nat_alt Suc_le_eq)
  with n show ?thesis using assms
    by (simp add: parse_cbw_def cbw_def nth_append)
qed

theorem cbw_roundtrip_witness:
  "parse_cbw (cbw 9 512 512 0 [0x28, 0, 0, 0, 0, 5, 0, 0, 1, 0]) =
     Some (9, 512, True, 0, [0x28, 0, 0, 0, 0, 5, 0, 0, 1, 0])"
  by (subst cbw_roundtrip) simp_all

lemma unat_count_minus_1: "count \<noteq> 0 \<Longrightarrow> unat (ucast count - 1 :: u32) = unat count - 1" for count :: u16
proof -
  assume "count \<noteq> 0"
  then have "unat count \<noteq> 0" by (simp add: unat_eq_0)
  moreover have c: "unat (ucast count :: u32) = unat count"
    using unat_bound [of count] by (simp add: unsigned_ucast_eq take_bit_nat_eq_self_iff)
  ultimately have "1 \<le> (ucast count :: u32)" by (simp add: word_le_nat_alt)
  then show ?thesis by (simp add: unat_sub c)
qed

lemma last_block_in_range:
  fixes lba :: u32 and count :: u16
  assumes "count \<noteq> 0"
  shows "checked_add lba (ucast count - 1) = None \<longleftrightarrow> 2 ^ 32 < unat lba + unat count"
proof -
  have "unat count \<noteq> 0" using assms by (simp add: unat_eq_0)
  then show ?thesis using unat_count_minus_1 [OF assms] by (auto simp: checked_add_def)
qed

lemma block_command_Inr:
  "block_command uw op lba count bs = Inr (cdb, len) \<longleftrightarrow>
     count \<noteq> 0 \<and> is_power_of_two bs \<and> unat lba + unat count \<le> 2 ^ 32 \<and> unat count * unat bs < 2 ^ uw \<and>
     cdb = [op, 0] @ to_be_bytes_u32 lba @ [0] @ to_be_bytes_u16 count @ [0] \<and> len = unat count * unat bs"
proof (cases "count = 0 \<or> bs = 0 \<or> \<not> is_power_of_two bs")
  case True
  then show ?thesis by (auto simp: block_command_def dest: is_power_of_two_pos)
next
  case False
  then have "count \<noteq> 0" by simp
  from False last_block_in_range [OF this, of lba] show ?thesis
    by (auto simp: block_command_def checked_mul_def)
qed

text \<open>
  \<open>block_command\<close> accepts exactly the block ranges READ(10) and WRITE(10) can carry and the
  platform can address: at least one block, a power-of-two block size, no block past 2^32 - 1,
  and a transfer length that fits \<open>usize\<close>. A 64-bit \<open>usize\<close> never overflows; on a 32-bit one,
  the WASM build, the overflow is the error \<open>block range overflow\<close>, not a wrapped length.
\<close>

theorem block_command_bounds:
  "((\<exists>cdb len. block_command uw op lba count bs = Inr (cdb, len)) \<longleftrightarrow>
     count \<noteq> 0 \<and> is_power_of_two bs \<and> unat lba + unat count \<le> 2 ^ 32 \<and> unat count * unat bs < 2 ^ uw) \<and>
   block_command 64 op lba count bs \<noteq> Inl (Protocol ''block range overflow'') \<and>
   (block_command 32 op lba count bs = Inl (Protocol ''block range overflow'') \<longleftrightarrow>
     count \<noteq> 0 \<and> is_power_of_two bs \<and> unat lba + unat count \<le> 2 ^ 32 \<and> 2 ^ 32 \<le> unat count * unat bs)"
proof (intro conjI)
  show "(\<exists>cdb len. block_command uw op lba count bs = Inr (cdb, len)) \<longleftrightarrow>
     count \<noteq> 0 \<and> is_power_of_two bs \<and> unat lba + unat count \<le> 2 ^ 32 \<and> unat count * unat bs < 2 ^ uw"
    by (auto simp: block_command_Inr)
  have "unat count * unat bs < 2 ^ 16 * 2 ^ 32"
    using unat_bound [of count] unat_bound [of bs] by (intro mult_strict_mono) simp_all
  then have "unat count * unat bs < 2 ^ 64" by simp
  then show "block_command 64 op lba count bs \<noteq> Inl (Protocol ''block range overflow'')"
    by (auto simp: block_command_def checked_mul_def)
  show "block_command 32 op lba count bs = Inl (Protocol ''block range overflow'') \<longleftrightarrow>
     count \<noteq> 0 \<and> is_power_of_two bs \<and> unat lba + unat count \<le> 2 ^ 32 \<and> 2 ^ 32 \<le> unat count * unat bs"
  proof (cases "count = 0 \<or> bs = 0 \<or> \<not> is_power_of_two bs")
    case True
    then show ?thesis by (auto simp: block_command_def dest: is_power_of_two_pos)
  next
    case False
    then have "count \<noteq> 0" by simp
    from False last_block_in_range [OF this, of lba] show ?thesis
      by (auto simp: block_command_def checked_mul_def)
  qed
qed

text \<open>
  The command block \<open>block_command\<close> builds is ten bytes long and carries the opcode in byte 0,
  the block address big-endian in bytes 2 to 5 and the block count big-endian in bytes 7 and 8,
  with every other byte zero; the length returned is the count times the block size.
\<close>

theorem block_command_roundtrip:
  assumes "block_command uw op lba count bs = Inr (cdb, len)"
  shows "length cdb = 10 \<and> cdb ! 0 = op \<and> cdb ! 1 = 0 \<and> cdb ! 6 = 0 \<and> cdb ! 9 = 0 \<and>
    u32_from_be_bytes (take 4 (drop 2 cdb)) = Some lba \<and>
    u16_from_be_bytes (take 2 (drop 7 cdb)) = Some count \<and> len = unat count * unat bs"
  using assms by (simp add: block_command_Inr nth_append)

theorem block_command_roundtrip_witness:
  "\<exists>cdb len. block_command 64 0x2a 0x01020304 5 512 = Inr (cdb, len) \<and>
     u32_from_be_bytes (take 4 (drop 2 cdb)) = Some 0x01020304 \<and> len = 2560"
proof -
  have "is_power_of_two 512" by (auto simp: is_power_of_two_iff intro: exI [of _ 9])
  then have "block_command 64 0x2a 0x01020304 5 512 =
      Inr ([0x2a, 0] @ to_be_bytes_u32 0x01020304 @ [0] @ to_be_bytes_u16 5 @ [0], 2560)"
    by (simp add: block_command_Inr)
  from block_command_roundtrip [OF this] this show ?thesis by simp
qed

lemma geometry_bounds_lemma:
  assumes "get_geometry B s = (Ok g, u)"
  shows "is_power_of_two (block_size g) \<and> 1 \<le> unat (blocks g) \<and> unat (blocks g) < 2 ^ 32 \<and> usable u"
proof -
  from assms obtain bytes last where c: "command B [0x25, 0, 0, 0, 0, 0, 0, 0, 0, 0] 8 [] s = (Ok bytes, u)"
    and last: "last \<noteq> (- 1 :: u32)" and g: "blocks g = ucast last + 1" "is_power_of_two (block_size g)"
    by (auto simp: get_geometry_def and_then_Ok act_iffs split: if_splits)
  from last unat_max_u32 have "unat last \<noteq> 2 ^ 32 - 1" by (metis word_unat_eq_iff)
  then have "unat last + 1 < 2 ^ 32" using unat_bound [of last] by simp
  moreover have "unat (ucast last :: u64) = unat last"
    using unat_bound [of last] by (simp add: unsigned_ucast_eq take_bit_nat_eq_self_iff)
  moreover have "usable u" using c by (auto elim: command_cases)
  ultimately show ?thesis using g by (simp add: unat_word_ariths)
qed

text \<open>
  A geometry that \<open>Scsi::geometry\<close> returns is always sound: a power-of-two block size, at least
  one block, and a block count that still fits 32 bits, because the reserved last address
  0xffffffff is refused.
\<close>

theorem geometry_bounds:
  assumes "get_geometry B s = (Ok g, u)"
  shows "is_power_of_two (block_size g) \<and> 1 \<le> unat (blocks g) \<and> unat (blocks g) < 2 ^ 32 \<and> usable u"
  using assms by (rule geometry_bounds_lemma)

theorem geometry_bounds_witness:
  "\<exists>g u. get_geometry (traced fake_io) (demo [[0, 0, 0, 7, 0, 0, 2, 0], csw_bytes 1 0 0]) = (Ok g, u) \<and>
     blocks g = 8 \<and> block_size g = 512 \<and> is_power_of_two (block_size g) \<and> usable u"
proof -
  have "is_power_of_two 512" by (auto simp: is_power_of_two_iff intro: exI [of _ 9])
  then have "\<exists>u. get_geometry (traced fake_io) (demo [[0, 0, 0, 7, 0, 0, 2, 0], csw_bytes 1 0 0]) =
      (Ok \<lparr>blocks = 8, block_size = 512\<rparr>, u)"
    by (simp add: get_geometry_def fake_run cbw_def slice_def u32_from_be_bytes_def)
  then show ?thesis using geometry_bounds by fastforce
qed

section \<open>No method panics\<close>

text \<open>
  Over every transport that keeps the contract of \<open>BulkIo\<close>, no method of \<open>Scsi\<close> panics: not
  \<open>command\<close>, whose CSW fields are unwrapped only after the length check, not \<open>geometry\<close>, whose
  reply is sliced and unwrapped, not \<open>initialize_ready\<close>, which indexes the sense, and none of the
  other commands. The transport is left in a state that keeps the contract.
\<close>

theorem scsi_never_panics:
  assumes "bulk_transport B sane" "sane (io s)"
  shows "fst (command B cdb incoming outgoing s) \<noteq> Panicked \<and> fst (get_geometry B s) \<noteq> Panicked \<and>
    fst (initialize_ready B s) \<noteq> Panicked \<and> fst (test_unit_ready B s) \<noteq> Panicked \<and>
    fst (inquiry B s) \<noteq> Panicked \<and> fst (request_sense B s) \<noteq> Panicked \<and> fst (flush B s) \<noteq> Panicked \<and>
    fst (eject B s) \<noteq> Panicked \<and> fst (read_blocks uw B lba count bs s) \<noteq> Panicked \<and>
    fst (write_blocks uw B lba count bs bytes s) \<noteq> Panicked \<and>
    sane (io (snd (command B cdb incoming outgoing s)))"
  by (intro conjI safe_total [where P = "\<lambda>s. sane (io s)"] safe_kept [where P = "\<lambda>s. sane (io s)"] assms(2)
      bulk_transport.method_safe [OF assms(1)])

theorem scsi_never_panics_witness:
  "fst (get_geometry fake_io \<lparr>io = \<lparr>fake_reads = [[1, 2, 3]], fake_short = False\<rparr>, tag = 0, lun = 0, usable = True\<rparr>) \<noteq> Panicked"
  using scsi_never_panics [OF fake.bulk_transport_axioms,
    of "\<lparr>io = \<lparr>fake_reads = [[1, 2, 3]], fake_short = False\<rparr>, tag = 0, lun = 0, usable = True\<rparr>"] by simp

end
