(* ===== verification/Nusb_Properties.thy ===== *)
theory Nusb_Properties
  imports Nusb_Open Scsi_Properties
begin

text \<open>
  The properties of opening, using and closing \<open>NusbIo\<close>: it is a \<open>bulk_transport\<close> over any USB
  library that behaves as documented, it opens only the descriptor the caller selected, its
  teardown ends, and in the browser every failed open and every close releases the interface
  before it closes the device without losing the error that came first.
\<close>

section \<open>The transport\<close>

lemma next_multiple_of_small:
  assumes "0 < p" "n + p \<le> 2 ^ uw"
  shows "\<exists>k. next_multiple_of uw n p = Some k \<and> n \<le> k \<and> p dvd k \<and> k < n + p"
proof (cases "n mod p = 0")
  case True
  then show ?thesis using assms by (auto simp: next_multiple_of_def dvd_eq_mod_eq_0)
next
  case False
  let ?k = "n + (p - n mod p)"
  have r: "n mod p < p" "0 < n mod p" using assms(1) False by simp_all
  have k: "?k = n div p * p + p" using div_mult_mod_eq [of n p] r(1) by linarith
  have "next_multiple_of uw n p = Some ?k" "n \<le> ?k" "?k < n + p"
    using assms r by (simp_all add: next_multiple_of_def Let_def)
  moreover have "p dvd ?k" unfolding k by simp
  ultimately show ?thesis by blast
qed

text \<open>
  What the USB library documents. \<open>packet\<close> is the packet size of an open endpoint, which is the one its
  descriptor in the active alternate setting gives. An IN request is accepted if it is made of whole
  packets; others may panic. A submitted transfer is pending, and waiting for a completion panics
  only when nothing is pending.
\<close>

definition usb_completes :: "('w, 'i, 'e) nusb \<Rightarrow> ('e \<Rightarrow> nat) \<Rightarrow> bool" where
  "usb_completes N packet \<longleftrightarrow>
     (\<forall>i a w e v d p. open_endpoint N i a w = (Ok e, v) \<longrightarrow> d \<in> set (descriptors N i w) \<longrightarrow>
       alternate_setting d = get_alt_setting N i w \<longrightarrow> p \<in> set (endpoints d) \<longrightarrow> address p = a \<longrightarrow> packet e = max_packet_size p) \<and>
     (\<forall>e d w. 0 < pending_transfers N e (submit_out N e d w)) \<and>
     (\<forall>e n w. packet e dvd n \<longrightarrow> (\<exists>v. submit_in N e n w = Some v \<and> 0 < pending_transfers N e v)) \<and>
     (\<forall>e w. 0 < pending_transfers N e w \<longrightarrow> fst (next_complete N e w) \<noteq> Panicked)"

lemma usb_completesD:
  assumes "usb_completes N packet"
  shows "open_endpoint N i (address p) w = (Ok e, v) \<Longrightarrow> d \<in> set (descriptors N i w) \<Longrightarrow>
      alternate_setting d = get_alt_setting N i w \<Longrightarrow> p \<in> set (endpoints d) \<Longrightarrow> packet e = max_packet_size p"
    and "packet e dvd n \<Longrightarrow> \<exists>v. submit_in N e n w = Some v \<and> 0 < pending_transfers N e v"
    and "0 < pending_transfers N e w \<Longrightarrow> fst (next_complete N e w) \<noteq> Panicked"
proof -
  note all = assms [unfolded usb_completes_def]
  show "open_endpoint N i (address p) w = (Ok e, v) \<Longrightarrow> d \<in> set (descriptors N i w) \<Longrightarrow>
      alternate_setting d = get_alt_setting N i w \<Longrightarrow> p \<in> set (endpoints d) \<Longrightarrow> packet e = max_packet_size p"
    by (rule conjunct1 [OF all, rule_format]) (assumption | rule refl)+
  show "packet e dvd n \<Longrightarrow> \<exists>v. submit_in N e n w = Some v \<and> 0 < pending_transfers N e v"
    using conjunct2 [OF conjunct2 [OF all]] by simp
  show "0 < pending_transfers N e w \<Longrightarrow> fst (next_complete N e w) \<noteq> Panicked"
    using conjunct2 [OF conjunct2 [OF all]] by simp
qed

text \<open>An open transport whose packet size is that of its IN endpoint.\<close>

definition packets_ok :: "('e \<Rightarrow> nat) \<Rightarrow> ('e, 'd, 'i) nusb_io \<times> 'w \<Rightarrow> bool" where
  "packets_ok packet x \<longleftrightarrow> input_packet_size (fst x) = packet (io_input (fst x)) \<and>
     0 < input_packet_size (fst x) \<and> input_packet_size (fst x) \<le> 65536"

lemma completion_tail:
  "fst (and_then (completion_ok c) (\<lambda>_. ret a) s) \<noteq> Panicked \<and> snd (and_then (completion_ok c) (\<lambda>_. ret a) s) = s"
  by (cases "status c") (simp_all add: completion_ok_def act_simps)

lemma and_then_on_world:
  "and_then (on_world m) k (h, w) = (case m w of
     (Ok a, v) \<Rightarrow> k a (h, v)
   | (Err e, v) \<Rightarrow> (Err e, (h, v))
   | (Dropped, v) \<Rightarrow> (Dropped, (h, v))
   | (Panicked, v) \<Rightarrow> (Panicked, (h, v)))"
  by (auto simp: on_world_def and_then_def split: prod.split outcome.split)

lemma on_world_iff: "on_world m (h, w) = (r, x) \<longleftrightarrow> (\<exists>v. m w = (r, v) \<and> x = (h, v))"
  by (auto simp: on_world_def split: prod.split)

lemma and_then_on_world_modify [act_simps]: "and_then (on_world (modify f)) k (h, w) = k () (h, f w)"
  by (simp add: and_then_on_world modify_def)

lemma and_then_on_world_submitted:
  "and_then (on_world (submitted f)) k (h, w) = (case f w of None \<Rightarrow> (Panicked, (h, w)) | Some v \<Rightarrow> k () (h, v))"
  by (simp add: and_then_on_world submitted_def split: option.split)

lemma await_completion:
  assumes "usb_completes N packet" "0 < pending_transfers N e w"
    and run: "and_then (on_world (next_complete N e)) (\<lambda>c. and_then (completion_ok c) (\<lambda>_. ret (f c))) (h, w) = (r, t)"
  shows "r \<noteq> Panicked \<and> fst t = h"
proof -
  obtain q v where q: "next_complete N e w = (q, v)" by fastforce
  have "q \<noteq> Panicked" using q usb_completesD(3) [OF assms(1,2)] by simp
  show ?thesis
  proof (cases q)
    case (Ok c)
    then have "and_then (completion_ok c) (\<lambda>_. ret (f c)) (h, v) = (r, t)" using run q by (simp add: and_then_on_world)
    then show ?thesis using completion_tail [of c "f c" "(h, v)"] by simp
  qed (use run q \<open>q \<noteq> Panicked\<close> in \<open>auto simp: and_then_on_world\<close>)
qed

lemma nusb_bulk_transport:
  assumes "usb_completes N packet" "32 \<le> uw"
  shows "bulk_transport (nusb_bulk uw N) (packets_ok packet)"
proof
  show "safe (packets_ok packet) (bulk_write (nusb_bulk uw N) d)" for d
  proof (rule safeI)
    fix s r t assume s: "packets_ok packet s" and run: "bulk_write (nusb_bulk uw N) d s = (r, t)"
    obtain h w where hw: "s = (h, w)" by (cases s)
    have "0 < pending_transfers N (io_output h) (submit_out N (io_output h) d w)"
      using assms(1) by (simp add: usb_completes_def)
    note await = await_completion [OF assms(1) this, where f = actual_len and h = h]
    with run hw await show "r \<noteq> Panicked \<and> packets_ok packet t" using s
      by (simp add: nusb_bulk_def nusb_write_def packets_ok_def act_simps)
  qed
  show "safe (packets_ok packet) (bulk_read (nusb_bulk uw N) n)" if n: "n \<le> 1024 * 1024" for n
  proof (rule safeI)
    fix s r t assume s: "packets_ok packet s" and run: "bulk_read (nusb_bulk uw N) n s = (r, t)"
    obtain h w where hw: "s = (h, w)" by (cases s)
    have "n + input_packet_size h \<le> 2 ^ 32" using n s hw by (simp add: packets_ok_def)
    also have "\<dots> \<le> 2 ^ uw" using assms(2) by (intro power_increasing) simp_all
    finally obtain k where k: "next_multiple_of uw n (input_packet_size h) = Some k" "packet (io_input h) dvd k"
      using next_multiple_of_small [of "input_packet_size h"] s hw by (auto simp: packets_ok_def)
    then obtain v where v: "submit_in N (io_input h) k w = Some v" "0 < pending_transfers N (io_input h) v"
      using usb_completesD(2) [OF assms(1)] by blast
    note await = await_completion [OF assms(1) v(2), where f = buffer and h = h]
    with run hw await show "r \<noteq> Panicked \<and> packets_ok packet t" using s
      by (simp add: nusb_bulk_def nusb_read_def packets_ok_def k(1) and_then_on_world_submitted v(1) act_simps)
  qed
qed

text \<open>
  A small USB library for the examples: one interface, whose two bulk endpoints can be opened, and
  transfers counted per endpoint. It panics on an IN request that is not made of whole packets.
\<close>

definition sample_alt :: "nat \<Rightarrow> alt_descriptor" where
  "sample_alt packet = \<lparr>alternate_setting = 0, class_code = 0xff, subclass_code = 6, protocol_code = 0x50,
     endpoints = [\<lparr>transfer_type = Interrupt, address = 0x83, max_packet_size = 8\<rparr>,
       \<lparr>transfer_type = Bulk, address = 0x81, max_packet_size = packet\<rparr>,
       \<lparr>transfer_type = Bulk, address = 0x02, max_packet_size = 512\<rparr>]\<rparr>"

definition sample_usb :: "nat \<Rightarrow> (nat \<times> nat, unit, bool) nusb" where
  "sample_usb packet = \<lparr>interface_number = (\<lambda>_. 7), get_alt_setting = (\<lambda>_ _. 0), descriptors = (\<lambda>_ _. [sample_alt packet]),
     open_endpoint = (\<lambda>_ a. if a = 0x83 then fail (Open ''endpoint is in use'') else ret (a = 0x81)), control_in = (\<lambda>_ _ _. ret [3]),
     submit_out = (\<lambda>e d (i, k). if e then (i + 1, k) else (i, k + 1)),
     submit_in = (\<lambda>e n (i, k). if n mod (if e then packet else 512) \<noteq> 0 then None
       else Some (if e then (i + 1, k) else (i, k + 1))),
     next_complete = (\<lambda>e (i, k). if (if e then i else k) = 0 then (Panicked, (i, k))
       else (Ok \<lparr>status = None, actual_len = 31, buffer = []\<rparr>, if e then (i - 1, k) else (i, k - 1))),
     cancel_all = (\<lambda>_ w. w), pending_transfers = (\<lambda>e (i, k). if e then i else k)\<rparr>"

abbreviation sample_handle :: "nat \<Rightarrow> (bool, unit, unit) nusb_io" where
  "sample_handle packet \<equiv> \<lparr>io_input = True, io_output = False, input_packet_size = packet, io_max_lun = 3,
     web_device = None, web_interface = None\<rparr>"

abbreviation sample_packet :: "nat \<Rightarrow> bool \<Rightarrow> nat" where
  "sample_packet packet \<equiv> \<lambda>e. if e then packet else 512"

lemma sample_completes: "usb_completes (sample_usb packet) (sample_packet packet)"
  by (auto simp: usb_completes_def sample_usb_def sample_alt_def act_iffs split: if_splits)

text \<open>
  \<open>NusbIo\<close> never panics under \<open>Scsi\<close> and \<open>RangeSession\<close> on targets of 32 bits or more, as long as
  the USB library keeps its documentation and the bulk IN descriptor has a packet size from 1 to
  65536: rounding a read up to whole packets does not overflow, and a completion is awaited only
  after a transfer was submitted. So no sequence of range operations over it panics.
\<close>

theorem nusb_transport_never_panics:
  assumes "usb_completes N packet" "32 \<le> uw" "packets_ok packet x"
  shows "fst (nusb_write N d x) \<noteq> Panicked \<and> (n \<le> 1024 * 1024 \<longrightarrow> fst (nusb_read uw N n x) \<noteq> Panicked) \<and>
    (io s = x \<longrightarrow> fst (command (nusb_bulk uw N) cdb incoming outgoing s) \<noteq> Panicked \<and>
      fst (get_geometry (nusb_bulk uw N) s) \<noteq> Panicked \<and>
      fst (read_blocks uw (nusb_bulk uw N) lba count bs s) \<noteq> Panicked \<and>
      fst (write_blocks uw (nusb_bulk uw N) lba count bs bytes s) \<noteq> Panicked)"
proof -
  note T = nusb_bulk_transport [OF assms(1,2)]
  have "fst (bulk_write (nusb_bulk uw N) d x) \<noteq> Panicked"
    by (rule safe_total [OF bulk_transport.write_safe [OF T] assms(3)])
  moreover have "fst (bulk_read (nusb_bulk uw N) n x) \<noteq> Panicked" if "n \<le> 1024 * 1024"
    by (rule safe_total [OF bulk_transport.read_safe [OF T that] assms(3)])
  moreover have "fst (command (nusb_bulk uw N) cdb incoming outgoing s) \<noteq> Panicked \<and>
      fst (get_geometry (nusb_bulk uw N) s) \<noteq> Panicked \<and>
      fst (read_blocks uw (nusb_bulk uw N) lba count bs s) \<noteq> Panicked \<and>
      fst (write_blocks uw (nusb_bulk uw N) lba count bs bytes s) \<noteq> Panicked" if "io s = x"
    using assms(3) that
    by (intro conjI safe_total [where P = "\<lambda>s. packets_ok packet (io s)"] bulk_transport.method_safe [OF T]) simp_all
  ultimately show ?thesis by (simp add: nusb_bulk_def)
qed

theorem nusb_transport_never_panics_witness:
  "fst (nusb_read 32 (sample_usb 512) 13 (sample_handle 512, (0, 0))) \<noteq> Panicked"
  using nusb_transport_never_panics [OF sample_completes [of 512] order_refl, of "(sample_handle 512, (0, 0))" _ 13]
  by (simp add: packets_ok_def)

text \<open>
  A bulk IN descriptor with a packet size of zero is opened without an error, and then the first
  read of any length panics, also the one of the first status wrapper, whatever the device
  answers: \<open>from_interface\<close> does not check \<open>max_packet_size\<close>, and \<open>next_multiple_of(0)\<close> panics.
\<close>

theorem zero_packet_size_panics:
  "(\<exists>h w. nusb_connect (sample_usb 0) () 0 (5 * 10 ^ 9) (0, 0) = (Ok h, w) \<and> input_packet_size h = 0) \<and>
   (\<forall>h. nusb_read uw N n (h\<lparr>input_packet_size := 0\<rparr>, w) = (Panicked, (h\<lparr>input_packet_size := 0\<rparr>, w)))"
proof
  show "\<exists>h w. nusb_connect (sample_usb 0) () 0 (5 * 10 ^ 9) (0, 0) = (Ok h, w) \<and> input_packet_size h = 0"
    by (simp add: nusb_connect_def initialize_def validate_timeout_def from_interface_def sample_usb_def sample_alt_def
        act_simps match_result_def and_then_def parse_max_lun_def is_bulk_in_def is_bulk_out_def)
  show "\<forall>h. nusb_read uw N n (h\<lparr>input_packet_size := 0\<rparr>, w) = (Panicked, (h\<lparr>input_packet_size := 0\<rparr>, w))"
    by (simp add: nusb_read_def next_multiple_of_def act_simps)
qed

section \<open>Opening\<close>

lemma find_Some_iff: "find P xs = Some x \<Longrightarrow> x \<in> set xs \<and> P x"
  by (induction xs) (auto split: if_splits)

lemma from_interface_cases:
  assumes "from_interface N i alternate w = (r, v)"
  obtains (refused) e where "r = Err (Protocol e)" "v = w"
  | (opened) d inp outp where "get_alt_setting N i w = alternate" "d \<in> set (descriptors N i w)" "alternate_setting d = alternate"
      "class_code d = 0xff" "subclass_code d = 6" "protocol_code d = 0x50"
      "find is_bulk_in (endpoints d) = Some inp" "find is_bulk_out (endpoints d) = Some outp"
      "and_then (open_endpoint N i (address inp)) (\<lambda>ein. and_then (open_endpoint N i (address outp)) (\<lambda>eout.
         ret \<lparr>io_input = ein, io_output = eout, input_packet_size = max_packet_size inp, io_max_lun = 0,
           web_device = None, web_interface = None\<rparr>)) w = (r, v)"
proof (cases "find (\<lambda>d. alternate_setting d = alternate) (descriptors N i w)")
  case None
  then show thesis using assms refused
    by (auto simp: from_interface_def require_def act_simps split: if_splits)
next
  case (Some d)
  note d = find_Some_iff [OF Some]
  show thesis
  proof (cases "get_alt_setting N i w = alternate \<and> class_code d = 0xff \<and> subclass_code d = 6 \<and> protocol_code d = 0x50 \<and>
      find is_bulk_in (endpoints d) \<noteq> None \<and> find is_bulk_out (endpoints d) \<noteq> None")
    case True
    then show thesis using assms Some d opened [of d] by (auto simp: from_interface_def act_simps)
  next
    case False
    then show thesis using assms Some refused
      by (auto simp: from_interface_def require_def act_simps split: if_splits option.splits)
        (cases "find is_bulk_in (endpoints d)"; cases "find is_bulk_out (endpoints d)"; auto simp: act_simps)
  qed
qed



text \<open>The packet size an open transport rounds to is its endpoint's.\<close>

lemma initialize_packet:
  assumes "usb_completes N packet" "initialize N i alternate timeout w = (Ok h, v)"
  shows "input_packet_size h = packet (io_input h)"
proof -
  obtain g z u response x where g: "from_interface N i alternate z = (Ok g, u)"
    and h: "(case parse_max_lun response of Inl e \<Rightarrow> fail e | Inr n \<Rightarrow> ret (g\<lparr>io_max_lun := n\<rparr>)) x = (Ok h, v)"
    using assms(2) unfolding initialize_def and_then_Ok by blast
  have same: "input_packet_size h = input_packet_size g" "io_input h = io_input g"
    using h by (auto simp: act_simps split: sum.split_asm)
  from g have "input_packet_size g = packet (io_input g)"
  proof (cases rule: from_interface_cases)
    case (opened d inp outp)
    obtain x where e: "open_endpoint N i (address inp) z = (Ok (io_input g), x)" "input_packet_size g = max_packet_size inp"
      using opened(9) by (auto simp: and_then_Ok act_simps)
    have "inp \<in> set (endpoints d)" using find_Some_iff [OF opened(7)] by blast
    then have "packet (io_input g) = max_packet_size inp"
      using usb_completesD(1) [OF assms(1) e(1) opened(2)] opened(1,3) by simp
    then show ?thesis using e(2) by simp
  qed simp
  then show ?thesis using same by simp
qed

lemma parse_max_lun_Inr: "parse_max_lun x = Inr n \<Longrightarrow> n \<le> 15"
  by (auto simp: parse_max_lun_def split: sum.splits transfer_error.splits if_splits)

text \<open>
  The maximum LUN of an open transport is always at most 15 and is what the device's one-byte
  reply said, or 0 for the stall that a single-LUN device may answer; any other reply fails the
  open. The request goes to the selected interface, after the endpoints are open. \<open>Scsi::new\<close>
  then refuses every LUN beyond it.
\<close>

theorem initialize_lun:
  assumes "initialize N i alternate timeout w = (Ok h, v)"
  shows "io_max_lun h \<le> 15 \<and> 0 < timeout \<and> timeout \<le> 60 * 10 ^ 9 \<and>
    (\<exists>g u. from_interface N i alternate w = (Ok g, u) \<and> h = g\<lparr>io_max_lun := io_max_lun h\<rparr> \<and>
      (\<exists>reply. control_in N i \<lparr>control_type = ClassRequest, recipient = ToInterface, request = 0xfe, req_value = 0,
          req_index = ucast (interface_number N i), req_length = 1\<rparr> timeout u = (reply, v) \<and>
        (reply = Ok [io_max_lun h] \<or> reply = Err Stall \<and> io_max_lun h = 0))) \<and>
    (\<forall>uw l c. scsi_new (nusb_bulk uw N) (h, v) l = Inr c \<longrightarrow> l \<le> io_max_lun h)"
proof -
  obtain g u where g: "from_interface N i alternate w = (Ok g, u)" and t: "0 < timeout" "timeout \<le> 60 * 10 ^ 9"
    and rest: "and_then (match_result (control_in N i (get_max_lun_request (interface_number N i)) timeout)
         (\<lambda>bytes. ret (Inr bytes)) (\<lambda>e. ret (Inl e))) (\<lambda>response.
       (case parse_max_lun response of Inl e \<Rightarrow> fail e | Inr n \<Rightarrow> ret (g\<lparr>io_max_lun := n\<rparr>))) u = (Ok h, v)"
    using assms by (auto simp: initialize_def validate_timeout_def and_then_Ok require_iffs)
  obtain reply x where reply: "control_in N i (get_max_lun_request (interface_number N i)) timeout u = (reply, x)" by fastforce
  have "x = v \<and> (reply = Ok [io_max_lun h] \<or> reply = Err Stall \<and> io_max_lun h = 0) \<and> h = g\<lparr>io_max_lun := io_max_lun h\<rparr> \<and> io_max_lun h \<le> 15"
  proof (cases reply)
    case (Ok bytes)
    then have "parse_max_lun (Inr bytes) = Inr (io_max_lun h)" "h = g\<lparr>io_max_lun := io_max_lun h\<rparr>" "x = v"
      using rest reply by (auto simp: match_result_def and_then_Ok act_iffs split: sum.splits)
    moreover from this(1) have "bytes = [io_max_lun h]" by (cases bytes) (auto simp: parse_max_lun_def split: if_splits)
    ultimately show ?thesis using Ok parse_max_lun_Inr by auto
  next
    case (Err e)
    then have p: "parse_max_lun (Inl e) = Inr (io_max_lun h)" "h = g\<lparr>io_max_lun := io_max_lun h\<rparr>" "x = v"
      using rest reply by (auto simp: match_result_def and_then_Ok act_iffs split: sum.splits)
    then have "e = Stall" "io_max_lun h = 0" by (auto simp: parse_max_lun_def split: transfer_error.splits)
    then show ?thesis using p Err by simp
  qed (use rest reply in \<open>auto simp: match_result_def and_then_def\<close>)
  moreover have "l \<le> io_max_lun h" if "scsi_new (nusb_bulk uw N) (h, v) l = Inr c" for uw l c
    using that by (auto simp: scsi_new_def nusb_bulk_def not_less split: if_splits)
  ultimately show ?thesis using g t reply unfolding get_max_lun_request_def by blast
qed

theorem initialize_lun_witness:
  "\<exists>(h :: (bool, unit, unit) nusb_io) v. initialize (sample_usb 512) () 0 (5 * 10 ^ 9) (0, 0) = (Ok h, v) \<and> io_max_lun h \<le> 15"
proof -
  have "\<exists>(h :: (bool, unit, unit) nusb_io) v. initialize (sample_usb 512) () 0 (5 * 10 ^ 9) (0, 0) = (Ok h, v)"
    by (simp add: initialize_def validate_timeout_def from_interface_def sample_usb_def sample_alt_def
        act_simps match_result_def and_then_def parse_max_lun_def is_bulk_in_def is_bulk_out_def)
  then obtain h :: "(bool, unit, unit) nusb_io" and v
    where run: "initialize (sample_usb 512) () 0 (5 * 10 ^ 9) (0, 0) = (Ok h, v)" by blast
  show ?thesis using initialize_lun [OF run] run by blast
qed

section \<open>Native teardown ends\<close>

text \<open>
  What the library documents of cancelling and waiting. \<open>cancelled e\<close> holds of the worlds in which nothing
  is in flight on \<open>e\<close> but cancelled transfers: \<open>cancel_all\<close> brings it about, cancelling or waiting on any
  endpoint does not end it. A wait on a cancelled endpoint returns one of its pending transfers; of a
  wait on an endpoint that was not cancelled nothing is assumed, it need not return.
\<close>

definition usb_drains :: "('w, 'i, 'e) nusb \<Rightarrow> ('e \<Rightarrow> 'w \<Rightarrow> bool) \<Rightarrow> bool" where
  "usb_drains N cancelled \<longleftrightarrow>
     (\<forall>e w. cancelled e (cancel_all N e w)) \<and>
     (\<forall>e f w. cancelled f w \<longrightarrow> cancelled f (cancel_all N e w)) \<and>
     (\<forall>e w. cancelled e w \<and> 0 < pending_transfers N e w \<longrightarrow>
       (\<exists>c v. next_complete N e w = (Ok c, v) \<and> Suc (pending_transfers N e v) = pending_transfers N e w \<and>
         (\<forall>f. f \<noteq> e \<longrightarrow> pending_transfers N f v = pending_transfers N f w) \<and> (\<forall>f. cancelled f w \<longrightarrow> cancelled f v)))"

lemma drain_ends:
  assumes "usb_drains N cancelled" "cancelled e w"
  shows "\<exists>v. drain N e w = Some (Ok (), v) \<and> pending_transfers N e v = 0 \<and>
    (\<forall>f. f \<noteq> e \<longrightarrow> pending_transfers N f v = pending_transfers N f w) \<and> (\<forall>f. cancelled f w \<longrightarrow> cancelled f v)"
  using assms(2)
proof (induction "pending_transfers N e w" arbitrary: w)
  case 0
  then show ?case by (simp add: drain.simps)
next
  case (Suc n)
  then have "cancelled e w \<and> 0 < pending_transfers N e w" by simp
  then obtain c v where v: "next_complete N e w = (Ok c, v)" "Suc (pending_transfers N e v) = pending_transfers N e w"
    "\<forall>f. f \<noteq> e \<longrightarrow> pending_transfers N f v = pending_transfers N f w" "\<forall>f. cancelled f w \<longrightarrow> cancelled f v"
    using assms(1) unfolding usb_drains_def by blast
  then have "n = pending_transfers N e v" "cancelled e v" using Suc.hyps(2) Suc.prems by simp_all
  from Suc.hyps(1) [OF this] v Suc.hyps(2) show ?case by (subst drain.simps) auto
qed

text \<open>
  C37: Native \<open>close\<close> returns, because it cancels before it waits. Over a USB library that returns the
  transfers of a cancelled endpoint one by one, as documented, and of which nothing is assumed about
  waiting on an endpoint that was not cancelled, both loops end, for any number of transfers in flight
  on either endpoint, with \<open>Ok\<close> and nothing left pending on either.
\<close>

theorem close_native_returns:
  assumes "usb_drains N cancelled"
  shows "\<exists>v. close_native N h w = Some (Ok (), v) \<and> pending_transfers N (io_input h) v = 0 \<and>
    pending_transfers N (io_output h) v = 0"
proof -
  let ?w = "cancel_all N (io_output h) (cancel_all N (io_input h) w)"
  have c: "cancelled (io_input h) ?w" "cancelled (io_output h) ?w" using assms by (simp_all add: usb_drains_def)
  obtain u where u: "drain N (io_input h) ?w = Some (Ok (), u)" "pending_transfers N (io_input h) u = 0" "cancelled (io_output h) u"
    using drain_ends [OF assms c(1)] c(2) by blast
  obtain v where v: "drain N (io_output h) u = Some (Ok (), v)" "pending_transfers N (io_output h) v = 0"
    "\<forall>f. f \<noteq> io_output h \<longrightarrow> pending_transfers N f v = pending_transfers N f u" using drain_ends [OF assms u(3)] by blast
  then show ?thesis using u by (cases "io_input h = io_output h") (auto simp: close_native_def)
qed

text \<open>
  A library on which a wait never returns unless the endpoint was cancelled: per endpoint, what is in
  flight and whether it was cancelled.
\<close>

definition silent_usb :: "((nat \<times> bool) \<times> (nat \<times> bool), unit, bool) nusb" where
  "silent_usb = \<lparr>interface_number = (\<lambda>_. 7), get_alt_setting = (\<lambda>_ _. 0), descriptors = (\<lambda>_ _. [sample_alt 512]),
     open_endpoint = (\<lambda>_ a. ret (a = 0x81)), control_in = (\<lambda>_ _ _. ret [3]),
     submit_out = (\<lambda>e d (i, k). if e then ((fst i + 1, False), k) else (i, (fst k + 1, False))),
     submit_in = (\<lambda>e n (i, k). Some (if e then ((fst i + 1, False), k) else (i, (fst k + 1, False)))),
     next_complete = (\<lambda>e (i, k).
       if \<not> snd (if e then i else k) then (Dropped, (i, k))
       else if fst (if e then i else k) = 0 then (Panicked, (i, k))
       else (Ok \<lparr>status = Some Cancelled, actual_len = 0, buffer = []\<rparr>,
         if e then ((fst i - 1, True), k) else (i, (fst k - 1, True)))),
     cancel_all = (\<lambda>e (i, k). if e then ((fst i, True), k) else (i, (fst k, True))),
     pending_transfers = (\<lambda>e (i, k). fst (if e then i else k))\<rparr>"

theorem close_native_returns_witness:
  "fst (next_complete silent_usb True ((3, False), (2, False))) = Dropped \<and>
   (\<exists>v. close_native silent_usb (sample_handle 512) ((3, False), (2, False)) = Some (Ok (), v))"
proof -
  have drains: "usb_drains silent_usb (\<lambda>e (i, k). snd (if e then i else k))" by (auto simp: usb_drains_def silent_usb_def)
  have "\<exists>v. close_native silent_usb (sample_handle 512) ((3, False), (2, False)) = Some (Ok (), v)"
    using close_native_returns [OF drains, of "sample_handle 512" "((3, False), (2, False))"] by blast
  then show ?thesis by (simp add: silent_usb_def)
qed

section \<open>The browser\<close>

text \<open>Why a release or a close failed, if it did; \<open>u\<close> is the world after the release.\<close>

definition release_failure :: "('w, 'i, 'n) web_usb \<Rightarrow> 'i option \<Rightarrow> 'w \<Rightarrow> 'w \<Rightarrow> error option" where
  "release_failure W interface w u = (case interface of
     None \<Rightarrow> None
   | Some i \<Rightarrow> (case fst (release_interface W i w) of
       Err e \<Rightarrow> if device_opened W u then Some e else None
     | Dropped \<Rightarrow> Some (Protocol ''WebUSB interface release timed out'')
     | _ \<Rightarrow> None))"

definition close_failure :: "('w, 'i, 'n) web_usb \<Rightarrow> 'w \<Rightarrow> error option" where
  "close_failure W u = (case fst (device_close W u) of
     Err value \<Rightarrow> Some (Close value)
   | Dropped \<Rightarrow> Some (Protocol ''WebUSB device close timed out'')
   | _ \<Rightarrow> None)"

lemma release_step_run:
  assumes "release_step own W interface w = (q, u)" "q \<noteq> Panicked"
  shows "u = (case interface of None \<Rightarrow> w | Some i \<Rightarrow> snd (release_interface W i w)) \<and>
    (q = Ok (case release_failure W interface w u of None \<Rightarrow> Inr () | Some e \<Rightarrow> Inl e) \<or> q = Dropped \<and> \<not> own u)"
proof (cases interface)
  case None
  then show ?thesis using assms by (simp add: release_step_def release_failure_def act_simps)
next
  case (Some i)
  obtain p x where p: "release_interface W i w = (p, x)" by fastforce
  show ?thesis
    using assms Some p by (cases p) (auto simp: release_step_def release_failure_def deadline_def and_then_def split: if_splits)
qed

lemma close_step_run:
  "close_step own W u = (case device_close W u of
     (Ok a, v) \<Rightarrow> (Ok (Inr ()), v) | (Err value, v) \<Rightarrow> (Ok (Inl (Close value)), v)
   | (Dropped, v) \<Rightarrow> if own v then (Ok (Inl (Protocol ''WebUSB device close timed out'')), v) else (Dropped, v)
   | (Panicked, v) \<Rightarrow> (Panicked, v))"
  by (auto simp: close_step_def and_then_def deadline_def ret_def split: prod.split outcome.split)

text \<open>\<open>close_web\<close>, unless its caller dropped it: the release, then the close, and what it makes of the two.\<close>

lemma close_web_result:
  assumes "close_web own W interface w = (r, v)" "r \<noteq> Panicked"
  defines "u \<equiv> (case interface of None \<Rightarrow> w | Some i \<Rightarrow> snd (release_interface W i w))"
  shows "r = Dropped \<and> (\<not> own u \<or> \<not> own v) \<or>
    v = snd (device_close W u) \<and>
    r = (case (release_failure W interface w u, close_failure W u) of
      (Some e, Some c) \<Rightarrow> Err (Cleanup e c) | (Some e, None) \<Rightarrow> Err e | (None, Some c) \<Rightarrow> Err c | (None, None) \<Rightarrow> Ok ())"
proof -
  obtain q t where q: "release_step own W interface w = (q, t)" by fastforce
  then have "q \<noteq> Panicked" using assms(1,2) by (auto simp: close_web_def and_then_def)
  note release = release_step_run [OF q this, folded u_def]
  obtain p x where p: "device_close W u = (p, x)" by fastforce
  from release consider "q = Dropped" "\<not> own u" "t = u"
    | "q = Ok (case release_failure W interface w u of None \<Rightarrow> Inr () | Some e \<Rightarrow> Inl e)" "t = u" by auto
  then show ?thesis
  proof cases
    case 1
    then show ?thesis using assms(1) q by (simp add: close_web_def and_then_def)
  next
    case 2
    then show ?thesis using assms(1,2) q p
      by (cases "release_failure W interface w u"; cases p)
        (auto simp: close_web_def and_then_run(1) close_step_run and_then_def [of "close_step own W"] close_failure_def
          with_cleanup_def act_simps split: if_splits)
  qed
qed

lemma close_web_awaited: "close_web awaited W interface w = (r, v) \<Longrightarrow> r \<noteq> Panicked \<Longrightarrow> r \<noteq> Dropped"
  by (drule (1) close_web_result) (auto split: option.split_asm)

text \<open>
  C36: \<open>close_web\<close> always closes, in order and honestly. The interface is released first and the device
  is closed after it, whatever the release did, failed and timed out releases included. The
  receipt is \<open>Ok\<close> only if both went through, where a release that fails on a device no longer
  open counts as done. If only one of them failed or timed out, the error is that one's own; if both
  did, it is the release's with the close's attached as its cleanup. It ends early only if the caller
  drops it.
\<close>

theorem close_web_receipt:
  assumes "close_web own W interface w = (r, v)" "r \<noteq> Panicked"
  shows "\<exists>u. u = (case interface of None \<Rightarrow> w | Some i \<Rightarrow> snd (release_interface W i w)) \<and>
    (r = Dropped \<longrightarrow> \<not> own u \<or> \<not> own v) \<and>
    (r \<noteq> Dropped \<longrightarrow> v = snd (device_close W u) \<and>
      (r = Ok () \<longleftrightarrow> (\<exists>x. fst (device_close W u) = Ok x) \<and>
        (case interface of None \<Rightarrow> True | Some i \<Rightarrow> (\<exists>x. fst (release_interface W i w) = Ok x) \<or>
          (\<exists>e. fst (release_interface W i w) = Err e \<and> \<not> device_opened W u))) \<and>
      (\<forall>p c. release_failure W interface w u = Some p \<and> close_failure W u = Some c \<longrightarrow> r = Err (Cleanup p c)) \<and>
      (\<forall>p. release_failure W interface w u = Some p \<and> close_failure W u = None \<longrightarrow> r = Err p) \<and>
      (\<forall>c. release_failure W interface w u = None \<and> close_failure W u = Some c \<longrightarrow> r = Err c))"
proof -
  define u where "u = (case interface of None \<Rightarrow> w | Some i \<Rightarrow> snd (release_interface W i w))"
  note run = close_web_result [OF assms, folded u_def]
  show ?thesis
  proof (intro exI [of _ u] conjI impI)
    show "u = (case interface of None \<Rightarrow> w | Some i \<Rightarrow> snd (release_interface W i w))" by (rule u_def)
    show "\<not> own u \<or> \<not> own v" if "r = Dropped" using run that by (auto split: option.split_asm)
    assume r: "r \<noteq> Dropped"
    have panic: "fst (release_interface W i w) \<noteq> Panicked" if "interface = Some i" for i
      using assms that by (cases "release_interface W i w")
        (auto simp: close_web_def release_step_def deadline_def and_then_def)
    have "fst (device_close W u) \<noteq> Panicked"
    proof
      assume p: "fst (device_close W u) = Panicked"
      obtain q t where q: "release_step own W interface w = (q, t)" by fastforce
      then have "q \<noteq> Panicked" using assms by (auto simp: close_web_def and_then_def)
      then have "q \<noteq> Dropped" using q r assms(1) by (auto simp: close_web_def and_then_def)
      with release_step_run [OF q \<open>q \<noteq> Panicked\<close>, folded u_def] p q assms show False
        by (cases "device_close W u") (auto simp: close_web_def and_then_run(1) close_step_run and_then_def [of "close_step own W"])
    qed
    then have shut: "close_failure W u = None \<longleftrightarrow> (\<exists>x. fst (device_close W u) = Ok x)"
      by (auto simp: close_failure_def split: outcome.split)
    have none: "release_failure W interface w u = None \<longleftrightarrow>
        (case interface of None \<Rightarrow> True | Some i \<Rightarrow> (\<exists>x. fst (release_interface W i w) = Ok x) \<or>
          (\<exists>e. fst (release_interface W i w) = Err e \<and> \<not> device_opened W u))"
      using panic by (cases interface) (auto simp: release_failure_def split: outcome.split)
    have v: "v = snd (device_close W u)" and eq: "r = (case (release_failure W interface w u, close_failure W u) of
        (Some e, Some c) \<Rightarrow> Err (Cleanup e c) | (Some e, None) \<Rightarrow> Err e | (None, Some c) \<Rightarrow> Err c | (None, None) \<Rightarrow> Ok ())"
      using run r by auto
    show "v = snd (device_close W u)" by (rule v)
    show "r = Ok () \<longleftrightarrow> (\<exists>x. fst (device_close W u) = Ok x) \<and>
        (case interface of None \<Rightarrow> True | Some i \<Rightarrow> (\<exists>x. fst (release_interface W i w) = Ok x) \<or>
          (\<exists>e. fst (release_interface W i w) = Err e \<and> \<not> device_opened W u))"
      unfolding none [symmetric] shut [symmetric] eq by (auto split: option.split)
    show "\<forall>p c. release_failure W interface w u = Some p \<and> close_failure W u = Some c \<longrightarrow> r = Err (Cleanup p c)"
      "\<forall>p. release_failure W interface w u = Some p \<and> close_failure W u = None \<longrightarrow> r = Err p"
      "\<forall>c. release_failure W interface w u = None \<and> close_failure W u = Some c \<longrightarrow> r = Err c" by (simp_all add: eq)
  qed
qed

text \<open>
  A browser device, open or not. A release fails; the close then fails too if the device is open, and
  a dropped interface leaves the device as it is.
\<close>

definition sample_web :: "(bool, unit, unit) web_usb" where
  "sample_web = \<lparr>device_opened = (\<lambda>w. w), release_interface = (\<lambda>_. fail (Open ''release'')), drop_interface = (\<lambda>_ w. w),
     device_close = (\<lambda>w. (Ok (), False)), configuration = (\<lambda>_. Some [(7, 0)]), from_js = ret (), claim_interface = (\<lambda>_ _. ret ())\<rparr>"

definition broken_web :: "(bool, unit, unit) web_usb" where
  "broken_web = sample_web\<lparr>device_close := (\<lambda>w. (Dropped, w))\<rparr>"

theorem close_web_receipt_witness:
  "close_web awaited sample_web (Some ()) True = (Err (Open ''release''), False) \<and>
   close_web awaited sample_web (Some ()) False = (Ok (), False) \<and>
   fst (close_web awaited broken_web (Some ()) True) =
     Err (Cleanup (Open ''release'') (Protocol ''WebUSB device close timed out''))"
proof -
  obtain r v where open_run: "close_web awaited sample_web (Some ()) True = (r, v)" by fastforce
  obtain q u where shut_run: "close_web awaited sample_web (Some ()) False = (q, u)" by fastforce
  obtain p x where broken_run: "close_web awaited broken_web (Some ()) True = (p, x)" by fastforce
  have calm: "r \<noteq> Panicked" "q \<noteq> Panicked" "p \<noteq> Panicked"
    using open_run shut_run broken_run
    by (auto simp: close_web_def release_step_def close_step_run deadline_def and_then_def sample_web_def broken_web_def act_simps)
  note awaits = close_web_awaited [OF open_run calm(1)] close_web_awaited [OF shut_run calm(2)] close_web_awaited [OF broken_run calm(3)]
  note eval = sample_web_def broken_web_def release_failure_def close_failure_def act_simps
  have "r = Err (Open ''release'') \<and> v = False" using close_web_receipt [OF open_run calm(1)] awaits(1) by (auto simp: eval)
  moreover have "q = Ok () \<and> u = False" using close_web_receipt [OF shut_run calm(2)] awaits(2) by (auto simp: eval)
  moreover have "p = Err (Cleanup (Open ''release'') (Protocol ''WebUSB device close timed out''))"
    using close_web_receipt [OF broken_run calm(3)] awaits(3) by (auto simp: eval)
  ultimately show ?thesis using open_run shut_run broken_run by simp
qed

text \<open>How the raced body of \<open>connect_web\<close> ends with a transport: the interface was claimed before.\<close>

lemma open_claimed_Ok:
  assumes "open_claimed N W number alternate timeout (None, w) = (Ok h, (claimed, v))"
  shows "claimed \<noteq> None \<and> io_max_lun h \<le> 15"
proof -
  from assms obtain i u where u: "on_world (initialize N i alternate timeout) (Some i, u) = (Ok h, (claimed, v))"
    by (auto simp: open_claimed_def and_then_Ok act_iffs require_iffs on_world_iff)
  then have run: "initialize N i alternate timeout u = (Ok h, v)" and c: "claimed = Some i"
    by (auto simp: on_world_iff)
  obtain g response x where "(case parse_max_lun response of Inl e \<Rightarrow> fail e | Inr n \<Rightarrow> ret (g\<lparr>io_max_lun := n\<rparr>)) x = (Ok h, v)"
    using run unfolding initialize_def and_then_Ok by blast
  then have "io_max_lun h \<le> 15" by (cases "parse_max_lun response") (auto simp: act_simps dest: parse_max_lun_Inr)
  then show ?thesis using c by simp
qed

lemma connect_web_Ok:
  fixes N :: "('w, 'i, 'e) nusb" and device :: 'd
  assumes "connect_web own N W device number alternate timeout w = (Ok h, v)"
  shows "io_max_lun h \<le> 15 \<and> web_device h = Some device \<and> web_interface h \<noteq> None"
proof -
  have t: "\<not> (timeout = 0 \<or> 60 * 10 ^ 9 < timeout)"
    using assms by (auto simp: connect_web_def validate_timeout_def require_def act_simps split: if_split_asm)
  obtain q :: "(error, ('e, 'd, 'i) nusb_io) outcome" and claimed u
    where q: "open_claimed N W number alternate timeout (None, w) = (q, (claimed, u))" by (metis surj_pair)
  show ?thesis
  proof (cases q)
    case (Ok g)
    then show ?thesis using assms t q open_claimed_Ok [of N W number alternate timeout w g claimed u]
      by (auto simp: connect_web_def validate_timeout_def act_simps deadline_def)
  qed (use assms t q in \<open>auto simp: connect_web_def validate_timeout_def act_simps deadline_def Let_def match_result_def
      split: prod.split_asm outcome.split_asm if_split_asm\<close>)
qed

text \<open>
  C31: \<open>connect_web\<close> never leaves a half-open device behind. A timeout out of bounds is refused before
  anything is touched. Otherwise, if it fails, in any step or by running out of time after the
  claim, \<open>close_web\<close> has run with whatever interface was claimed by then, and the error keeps the
  original failure as its root cause. If it succeeds the transport owns the device and the
  claimed interface, so the \<open>expect\<close> of \<open>retain_web_interface\<close> cannot panic. Only if the caller drops
  it, which its documentation reserves to a caller that closes the device, does it end without
  either: while the interface is being opened the claim is then dropped with it, unreleased.
\<close>

theorem connect_web_owns_or_closes:
  fixes N :: "('w, 'i, 'e) nusb" and device :: 'd
  assumes "connect_web own N W device number alternate timeout w = (r, v)" "r \<noteq> Panicked"
  shows "(timeout = 0 \<or> 60 * 10 ^ 9 < timeout \<longrightarrow> v = w \<and> (\<exists>e. r = Err (Protocol e))) \<and>
    (\<forall>h. r = Ok h \<longrightarrow> web_device h = Some device \<and> retain_web_interface h \<noteq> None \<and> io_max_lun h \<le> 15) \<and>
    (\<forall>e. r = Err e \<and> 0 < timeout \<and> timeout \<le> 60 * 10 ^ 9 \<longrightarrow>
      (\<exists>(q :: (error, ('e, 'd, 'i) nusb_io) outcome) claimed u first. open_claimed N W number alternate timeout (None, w) = (q, (claimed, u)) \<and>
        (q = Err first \<or> q = Dropped \<and> first = InitializationTimeout) \<and>
        v = snd (close_web own W claimed u) \<and> root_cause e = root_cause first)) \<and>
    (r = Dropped \<longrightarrow>
      (\<exists>(q :: (error, ('e, 'd, 'i) nusb_io) outcome) claimed u. open_claimed N W number alternate timeout (None, w) = (q, (claimed, u)) \<and>
        (if q = Dropped \<and> \<not> own u then v = (case claimed of None \<Rightarrow> u | Some i \<Rightarrow> drop_interface W i u)
         else close_web own W claimed u = (Dropped, v))))"
proof (cases "timeout = 0 \<or> 60 * 10 ^ 9 < timeout")
  case True
  then show ?thesis using assms(1) by (auto simp: connect_web_def validate_timeout_def require_def act_simps)
next
  case False
  obtain q :: "(error, ('e, 'd, 'i) nusb_io) outcome" and claimed u
    where q: "open_claimed N W number alternate timeout (None, w) = (q, (claimed, u))" by (metis surj_pair)
  have run: "(case q of
      Ok h \<Rightarrow> (Ok (h\<lparr>web_device := Some device, web_interface := claimed\<rparr>), u)
    | Err e \<Rightarrow> match_result (close_web own W claimed) (\<lambda>_. fail e) (\<lambda>c. fail (with_cleanup e c)) u
    | Dropped \<Rightarrow> if own u
        then match_result (close_web own W claimed) (\<lambda>_. fail InitializationTimeout) (\<lambda>c. fail (with_cleanup InitializationTimeout c)) u
        else (Dropped, case claimed of None \<Rightarrow> u | Some i \<Rightarrow> drop_interface W i u)
    | Panicked \<Rightarrow> (Panicked, u)) = (r, v)"
    using assms(1) False q by (cases q) (auto simp: connect_web_def validate_timeout_def act_simps deadline_def Let_def split: if_split_asm)
  have cleaned: "v = snd (close_web own W claimed u) \<and>
      ((\<exists>e. r = Err e \<and> root_cause e = root_cause first) \<or> r = Dropped \<and> close_web own W claimed u = (Dropped, v))"
    if "match_result (close_web own W claimed) (\<lambda>_. fail first) (\<lambda>c. fail (with_cleanup first c)) u = (r, v)" for first
  proof -
    obtain p x where p: "close_web own W claimed u = (p, x)" by fastforce
    then have "p \<noteq> Panicked" using that assms(2) by (auto simp: match_result_def)
    with p that show ?thesis by (cases p) (auto simp: match_result_def act_simps)
  qed
  show ?thesis
  proof (cases q)
    case (Ok h)
    then show ?thesis using False run open_claimed_Ok [of N W number alternate timeout w h claimed u] q
      by (auto simp: retain_web_interface_def)
  next
    case (Err first)
    then have "match_result (close_web own W claimed) (\<lambda>_. fail first) (\<lambda>c. fail (with_cleanup first c)) u = (r, v)" using run by simp
    from cleaned [OF this] show ?thesis using False q Err by auto
  next
    case Dropped
    show ?thesis
    proof (cases "own u")
      case True
      then have "match_result (close_web own W claimed) (\<lambda>_. fail InitializationTimeout)
          (\<lambda>c. fail (with_cleanup InitializationTimeout c)) u = (r, v)" using run Dropped by simp
      from cleaned [OF this] show ?thesis using False q Dropped True by auto
    next
      case caller: False
      then show ?thesis using False run q Dropped by auto
    qed
  qed (use run assms(2) in auto)
qed

definition slow_usb :: "(bool, unit, unit) nusb" where
  "slow_usb = \<lparr>interface_number = (\<lambda>_. 7), get_alt_setting = (\<lambda>_ _. 0), descriptors = (\<lambda>_ _. [sample_alt 512]),
     open_endpoint = (\<lambda>_ _. ret ()), control_in = (\<lambda>_ _ _ w. (Dropped, w)), submit_out = (\<lambda>_ _ w. w), submit_in = (\<lambda>_ _ w. Some w),
     next_complete = (\<lambda>_ w. (Dropped, w)), cancel_all = (\<lambda>_ w. w), pending_transfers = (\<lambda>_ _. 0)\<rparr>"

theorem connect_web_owns_or_closes_witness:
  "\<exists>e. connect_web awaited slow_usb sample_web () 7 0 (5 * 10 ^ 9) True =
    ((Err e :: (error, (unit, unit, unit) nusb_io) outcome), False) \<and> root_cause e = InitializationTimeout"
proof -
  obtain r :: "(error, (unit, unit, unit) nusb_io) outcome" and v
    where run: "connect_web awaited slow_usb sample_web () 7 0 (5 * 10 ^ 9) True = (r, v)" by fastforce
  have opened: "(open_claimed slow_usb sample_web 7 0 (5 * 10 ^ 9) (None, True)
      :: (error, (unit, unit, unit) nusb_io) outcome \<times> _) = (Dropped, (Some (), True))"
    by (simp add: open_claimed_def sample_web_def slow_usb_def sample_alt_def initialize_def validate_timeout_def from_interface_def
        act_simps is_bulk_in_def is_bulk_out_def match_result_def and_then_def on_world_def)
  have "close_web awaited sample_web (Some ()) True = (Err (Open ''release''), False)"
    by (simp add: close_web_def release_step_def close_step_run deadline_def and_then_def sample_web_def act_simps)
  then have "\<exists>e. r = Err e" "v = False"
    using run opened by (auto simp: connect_web_def validate_timeout_def act_simps deadline_def Let_def match_result_def)
  then have "r \<noteq> Panicked" by auto
  from connect_web_owns_or_closes [OF run this] \<open>\<exists>e. r = Err e\<close> \<open>v = False\<close> opened run show ?thesis by auto
qed

end
