(* ===== verification/Range_Facts.thy ===== *)
theory Range_Facts
  imports Range_Session Scsi_Properties
begin

text \<open>
  The arithmetic of \<open>RangeSession::span\<close> and the invariant it rests on. The invariant is what
  \<open>connect\<close> establishes about the geometry; no method changes geometry or access mode.
\<close>

section \<open>Invariant\<close>

definition geometry_ok :: "geometry \<Rightarrow> bool" where
  "geometry_ok g \<longleftrightarrow> is_power_of_two (block_size g) \<and> unat (block_size g) \<le> 65536 \<and>
     1 \<le> unat (blocks g) \<and> unat (blocks g) < 2 ^ 32"

definition range_inv :: "'io range_session \<Rightarrow> bool" where
  "range_inv s \<longleftrightarrow> geometry_ok (geometry s)"

abbreviation bsize :: "'io range_session \<Rightarrow> nat" where
  "bsize s \<equiv> unat (block_size (geometry s))"

lemma range_inv_bsize: "range_inv s \<Longrightarrow> 0 < bsize s \<and> bsize s \<le> 65536"
  by (auto simp: range_inv_def geometry_ok_def dest: is_power_of_two_pos)

lemma unat_ucast_u32: "unat (ucast w :: u64) = unat w" for w :: u32
  using unat_bound [of w] by (simp add: unsigned_ucast_eq take_bit_nat_eq_self_iff)

text \<open>The capacity does not wrap: fewer than 2^32 blocks of at most 2^16 bytes.\<close>

lemma unat_size_bytes: "range_inv s \<Longrightarrow> unat (size_bytes s) = unat (blocks (geometry s)) * bsize s"
proof -
  assume inv: "range_inv s"
  have "unat (blocks (geometry s)) * bsize s \<le> (2 ^ 32 - 1) * 65536"
    using inv by (intro mult_le_mono) (auto simp: range_inv_def geometry_ok_def)
  then show ?thesis by (simp add: size_bytes_def unat_word_ariths unat_ucast_u32)
qed

lemma connect_Ok:
  assumes "connect B a c = (Ok s, u)"
  shows "range_inv s \<and> access s = a \<and> scsi s = u \<and> usable u"
proof -
  from assms obtain g t where g: "get_geometry B t = (Ok g, u)" and s: "s = \<lparr>scsi = u, geometry = g, access = a\<rparr>"
    and small: "\<not> 65536 < block_size g"
    by (auto simp: connect_def and_then_Ok require_iffs)
  have "unat (block_size g) \<le> 65536" using small by (simp add: word_less_nat_alt not_less)
  with geometry_bounds_lemma [OF g] s show ?thesis by (simp add: range_inv_def geometry_ok_def)
qed

section \<open>Arithmetic of spans\<close>

lemma block_cover:
  fixes x n b :: nat
  assumes b: "0 < b" and n: "0 < n"
  defines "f \<equiv> x div b" and "l \<equiv> (x + n + b - 1) div b" and "k \<equiv> x mod b"
  shows "f * b + k = x" "k < b" "f < l" "k + n \<le> (l - f) * b" "(l - f) * b < k + n + b"
    "x + n \<le> m * b \<Longrightarrow> l \<le> m"
proof -
  show x: "f * b + k = x" and k: "k < b" using b by (simp_all add: f_def k_def)
  have q: "l * b + (x + n + b - 1) mod b = x + n + b - 1" by (simp add: l_def)
  have r: "(x + n + b - 1) mod b < b" using b by simp
  from q r b have lo: "x + n \<le> l * b" and hi: "l * b < x + n + b" by linarith+
  have "f * b < l * b" using x lo n by linarith
  then show fl: "f < l" by simp
  have d: "(l - f) * b = l * b - f * b" by (simp add: diff_mult_distrib)
  show "k + n \<le> (l - f) * b" "(l - f) * b < k + n + b" using d x lo hi by linarith+
  assume "x + n \<le> m * b"
  then have "l * b < Suc m * b" using hi by simp
  then have "l < Suc m" by (simp only: mult_less_cancel2)
  then show "l \<le> m" by simp
qed

lemma span_cong:
  assumes "geometry t = geometry s"
  shows "span t offset len = span s offset len"
  unfolding span_def size_bytes_def assms ..

text \<open>What \<open>span\<close> computes, in natural numbers.\<close>

lemma span_nat:
  assumes inv: "range_inv s" and len: "0 < len" "len \<le> max_range_bytes"
    and size: "unat offset + len \<le> unat (size_bytes s)"
  defines "f \<equiv> unat offset div bsize s" and "l \<equiv> (unat offset + len + bsize s - 1) div bsize s"
  shows "span s offset len =
    (if l - f < 2 ^ 16 then Inr (of_nat f, of_nat (l - f), unat offset mod bsize s)
     else Inl (Protocol ''range exceeds READ/WRITE(10) block count''))"
proof -
  have b: "0 < bsize s" using range_inv_bsize [OF inv] by simp
  have small: "unat (of_nat len :: u64) = len" using len(2) by (simp add: unat_of_nat max_range_bytes_def)
  have fits: "unat offset + len < 2 ^ 64" using size unat_bound [of "size_bytes s"] by simp
  define stop where "stop = offset + of_nat len"
  have stop: "checked_add offset (of_nat len) = Some stop" "unat stop = unat offset + len"
    using fits small by (simp_all add: checked_add_def stop_def unat_word_ariths)
  let ?bs = "ucast (block_size (geometry s)) :: u64"
  have bs: "unat ?bs = bsize s" by (rule unat_ucast_u32)
  have first: "unat (offset div ?bs) = f" by (simp add: unat_div bs f_def)
  have last: "unat (div_ceil stop ?bs) = l" using b by (subst unat_div_ceil) (simp_all add: bs stop l_def)
  note cover = block_cover [OF b len(1), of "unat offset", folded f_def l_def]
  have "offset div ?bs \<le> div_ceil stop ?bs" using cover(3) first last by (simp add: word_le_nat_alt)
  then have diff: "unat (div_ceil stop ?bs - offset div ?bs) = l - f" using first last by (simp add: unat_sub)
  have "u16_try_from (div_ceil stop ?bs - offset div ?bs) = (if l - f < 2 ^ 16 then Some (of_nat (l - f)) else None)"
    by (auto simp add: u16_try_from_def diff intro: ucast_of_nat [OF diff])
  moreover have "ucast (offset div ?bs) = (of_nat f :: u32)" by (rule ucast_of_nat [OF first])
  moreover have "\<not> size_bytes s < stop" using size stop by (simp add: word_less_nat_alt)
  ultimately show ?thesis using len stop by (simp add: span_def Let_def unat_mod bs)
qed

text \<open>
  The span of a range: inside the device, covering the bytes asked for and no more blocks than
  they touch.
\<close>

definition span_covers :: "'io range_session \<Rightarrow> u64 \<Rightarrow> nat \<Rightarrow> u32 \<Rightarrow> u16 \<Rightarrow> nat \<Rightarrow> bool" where
  "span_covers s offset len lba count skip \<longleftrightarrow>
     unat lba * bsize s + skip = unat offset \<and> skip < bsize s \<and> 1 \<le> unat count \<and>
     skip + len \<le> unat count * bsize s \<and> unat count * bsize s < skip + len + bsize s \<and>
     unat lba + unat count \<le> unat (blocks (geometry s))"

lemma span_range:
  assumes "span s offset len = Inr x"
  shows "0 < len" "len \<le> max_range_bytes" "unat offset + len \<le> unat (size_bytes s)"
proof -
  show len: "0 < len" "len \<le> max_range_bytes" using assms by (auto simp: span_def split: if_splits)
  then have small: "unat (of_nat len :: u64) = len" by (simp add: unat_of_nat max_range_bytes_def)
  from assms obtain stop where stop: "checked_add offset (of_nat len) = Some stop" and le: "\<not> size_bytes s < stop"
    by (auto simp: span_def split: if_splits option.splits)
  show "unat offset + len \<le> unat (size_bytes s)"
    using unat_checked_add [OF stop] le by (simp add: small word_less_nat_alt not_less)
qed

lemma span_Inr:
  assumes inv: "range_inv s" and run: "span s offset len = Inr (lba, count, skip)"
  shows "span_covers s offset len lba count skip"
proof -
  have b: "0 < bsize s" using range_inv_bsize [OF inv] by simp
  note r = span_range [OF run]
  define f l where "f = unat offset div bsize s" and "l = (unat offset + len + bsize s - 1) div bsize s"
  have cover: "f * bsize s + unat offset mod bsize s = unat offset" "unat offset mod bsize s < bsize s" "f < l"
    "unat offset mod bsize s + len \<le> (l - f) * bsize s"
    "(l - f) * bsize s < unat offset mod bsize s + len + bsize s" "l \<le> unat (blocks (geometry s))"
    using block_cover [OF b r(1), of "unat offset", folded f_def l_def] r(3) unat_size_bytes [OF inv] by auto
  have x: "l - f < 2 ^ 16" "lba = of_nat f" "count = of_nat (l - f)" "skip = unat offset mod bsize s"
    using run span_nat [OF inv r, folded f_def l_def] by (auto split: if_splits)
  have "f < 2 ^ 32" using cover(3,6) inv by (auto simp: range_inv_def geometry_ok_def)
  then have "unat lba = f" "unat count = l - f" using x by (simp_all add: unat_of_nat)
  then show ?thesis using cover x(4) by (simp add: span_covers_def)
qed

lemma span_transfer:
  assumes "range_inv s" "span s offset len = Inr (lba, count, skip)"
  shows "unat count * bsize s < 2 ^ 32"
  using span_Inr [OF assms] span_range [OF assms(2)] range_inv_bsize [OF assms(1)]
  by (auto simp: span_covers_def max_range_bytes_def)

lemma span_block_command:
  assumes "range_inv s" "span s offset len = Inr (lba, count, skip)" "32 \<le> uw"
  shows "block_command uw op lba count (block_size (geometry s)) =
    Inr ([op, 0] @ to_be_bytes_u32 lba @ [0] @ to_be_bytes_u16 count @ [0], unat count * bsize s)"
proof -
  have "unat count * bsize s < 2 ^ uw"
    using span_transfer [OF assms(1,2)] power_increasing [OF assms(3), of "2 :: nat"] by linarith
  moreover have "count \<noteq> 0" using span_Inr [OF assms(1,2)] by (auto simp: span_covers_def)
  ultimately show ?thesis
    using span_Inr [OF assms(1,2)] assms(1)
    by (auto simp: block_command_Inr span_covers_def range_inv_def geometry_ok_def)
qed

end
