(* ===== verification/Range_Contract.thy ===== *)
theory Range_Contract
  imports Range_Facts
begin

text \<open>
  What \<open>RangeSession\<close> needs from the layer below, as the locale \<open>block_store\<close>: a READ(10) returns
  the blocks it names, a WRITE(10) replaces them and nothing else. Inside it, ranges of bytes
  are proved to behave as ranges of one flat array. \<open>bot_target\<close> states the same one level
  down, for a device on the wire: how it answers a wrapper, streams data in chunks of its own
  choosing and closes with a status. Every \<open>bot_target\<close> is a \<open>block_store\<close>.
\<close>

definition rw_cdb :: "u8 \<Rightarrow> u32 \<Rightarrow> u16 \<Rightarrow> u8 list" where
  "rw_cdb op lba count = [op, 0] @ to_be_bytes_u32 lba @ [0] @ to_be_bytes_u16 count @ [0]"

definition overwrite :: "nat \<Rightarrow> 'a list \<Rightarrow> 'a list \<Rightarrow> 'a list" where
  "overwrite i ys xs = take i xs @ ys @ drop (i + length ys) xs"

lemma length_overwrite: "i + length ys \<le> length xs \<Longrightarrow> length (overwrite i ys xs) = length xs"
  by (simp add: overwrite_def)

lemma overwrite_nth:
  "i + length ys \<le> length xs \<Longrightarrow> k < length xs \<Longrightarrow>
   overwrite i ys xs ! k = (if i \<le> k \<and> k < i + length ys then ys ! (k - i) else xs ! k)"
  by (auto simp: overwrite_def nth_append)

lemma overwrite_read: "i + length ys \<le> length xs \<Longrightarrow> take (length ys) (drop i (overwrite i ys xs)) = ys"
  by (simp add: overwrite_def)

lemma overwrite_empty [simp]: "overwrite i [] xs = xs"
  by (simp add: overwrite_def)

text \<open>Reading blocks, splicing bytes into them and writing them back is splicing the bytes.\<close>

lemma overwrite_splice:
  assumes "i + n \<le> length xs" "k + length ys \<le> n"
  shows "overwrite i (take k (take n (drop i xs)) @ ys @ drop (k + length ys) (take n (drop i xs))) xs =
    overwrite (i + k) ys xs"
proof (rule nth_equalityI)
  let ?mid = "take k (take n (drop i xs)) @ ys @ drop (k + length ys) (take n (drop i xs))"
  have m: "length ?mid = n" using assms by simp
  show "length (overwrite i ?mid xs) = length (overwrite (i + k) ys xs)"
    using assms m by (simp add: length_overwrite)
  fix j assume "j < length (overwrite i ?mid xs)"
  then have j: "j < length xs" using assms m by (simp add: length_overwrite)
  have "i + length ?mid \<le> length xs" "i + k + length ys \<le> length xs" using assms m by auto
  from overwrite_nth [OF this(1) j] overwrite_nth [OF this(2) j]
  show "overwrite i ?mid xs ! j = overwrite (i + k) ys xs ! j"
    using assms m j by (auto simp: nth_append)
qed

locale block_store =
  fixes uw :: nat
    and B :: "'io bulk_io"
    and ready :: "'io scsi \<Rightarrow> bool"
    and contents :: "'io scsi \<Rightarrow> u8 list"
    and bs :: u32
  assumes width: "32 \<le> uw"
    and read_law: "ready c \<Longrightarrow> 0 < unat count \<Longrightarrow> unat count * unat bs < 2 ^ 32 \<Longrightarrow>
      (unat lba + unat count) * unat bs \<le> length (contents c) \<Longrightarrow>
      \<exists>d. read_blocks uw B lba count bs c = (Ok (take (unat count * unat bs) (drop (unat lba * unat bs) (contents c))), d) \<and>
          ready d \<and> contents d = contents c"
    and write_law: "ready c \<Longrightarrow> 0 < unat count \<Longrightarrow> unat count * unat bs < 2 ^ 32 \<Longrightarrow>
      (unat lba + unat count) * unat bs \<le> length (contents c) \<Longrightarrow> length data = unat count * unat bs \<Longrightarrow>
      \<exists>d. write_blocks uw B lba count bs data c = (Ok (), d) \<and>
          ready d \<and> contents d = overwrite (unat lba * unat bs) data (contents c)"
    and flush_law: "ready c \<Longrightarrow> \<exists>d. flush B c = (Ok (), d) \<and> ready d \<and> contents d = contents c"
begin

text \<open>A session whose geometry is the store's.\<close>

definition attached :: "'io range_session \<Rightarrow> bool" where
  "attached s \<longleftrightarrow> range_inv s \<and> ready (scsi s) \<and> block_size (geometry s) = bs \<and>
     length (contents (scsi s)) = unat (blocks (geometry s)) * unat bs"

lemma span_fits:
  assumes "attached s" "span s offset len = Inr (lba, count, skip)"
  shows "0 < unat count" "unat count * unat bs < 2 ^ 32"
    "(unat lba + unat count) * unat bs \<le> length (contents (scsi s))"
    "unat lba * unat bs + skip = unat offset" "skip + len \<le> unat count * unat bs"
proof -
  have inv: "range_inv s" and bs: "block_size (geometry s) = bs" using assms(1) by (auto simp: attached_def)
  note c = span_Inr [OF inv assms(2), unfolded span_covers_def bs]
  show "0 < unat count" "unat lba * unat bs + skip = unat offset" "skip + len \<le> unat count * unat bs"
    using c by auto
  show "unat count * unat bs < 2 ^ 32" using span_transfer [OF inv assms(2)] bs by simp
  have "(unat lba + unat count) * unat bs \<le> unat (blocks (geometry s)) * unat bs"
    using c by (intro mult_le_mono1) auto
  then show "(unat lba + unat count) * unat bs \<le> length (contents (scsi s))"
    using assms(1) by (simp add: attached_def)
qed

lemma read_range_flat:
  assumes "attached s" "span s offset len = Inr x"
  shows "\<exists>t. read_range uw B offset len s = (Ok (take len (drop (unat offset) (contents (scsi s)))), t) \<and>
    attached t \<and> contents (scsi t) = contents (scsi s) \<and> access t = access s \<and> geometry t = geometry s"
proof -
  obtain lba count skip where x: "x = (lba, count, skip)" by (cases x)
  note f = span_fits [OF assms(1) assms(2) [unfolded x]]
  have bs: "block_size (geometry s) = bs" and r: "ready (scsi s)" using assms(1) by (auto simp: attached_def)
  obtain d where d: "read_blocks uw B lba count bs (scsi s) =
      (Ok (take (unat count * unat bs) (drop (unat lba * unat bs) (contents (scsi s)))), d)"
    "ready d" "contents d = contents (scsi s)" using read_law [OF r f(1,2,3)] by blast
  let ?blk = "take (unat count * unat bs) (drop (unat lba * unat bs) (contents (scsi s)))"
  have "length ?blk = unat count * unat bs" using f(3) by (simp add: algebra_simps)
  then have "slice skip (skip + len) ?blk = Some (take len (drop (unat offset) (contents (scsi s))))"
    using f(4,5) by (simp add: slice_def drop_take min_def ac_simps)
  then show ?thesis using assms d x bs
    by (simp add: read_range_def with_scsi_def and_then_def act_simps attached_def range_inv_def)
qed

lemma write_range_flat:
  assumes "attached s" "access s = ReadWrite" "span s offset (length data) = Inr x"
  shows "\<exists>t. write_range uw B offset data s = (Ok (), t) \<and> attached t \<and>
    contents (scsi t) = overwrite (unat offset) data (contents (scsi s)) \<and> access t = access s \<and> geometry t = geometry s"
proof -
  obtain lba count skip where x: "x = (lba, count, skip)" by (cases x)
  note f = span_fits [OF assms(1) assms(3) [unfolded x]]
  have bs: "block_size (geometry s) = bs" and r: "ready (scsi s)" using assms(1) by (auto simp: attached_def)
  have tl: "checked_mul uw (unat count) (unat bs) = Some (unat count * unat bs)"
    using f(2) width power_increasing [of 32 uw "2 :: nat"] by (simp add: checked_mul_def)
  have fits: "unat offset + length data \<le> length (contents (scsi s))" using f(3,4,5) by (simp add: algebra_simps)
  show ?thesis
  proof (cases "skip = 0 \<and> unat count * unat bs = length data")
    case True
    obtain d where d: "write_blocks uw B lba count bs data (scsi s) = (Ok (), d)" "ready d"
      "contents d = overwrite (unat lba * unat bs) data (contents (scsi s))"
      using write_law [OF r f(1,2,3)] True by metis
    then show ?thesis using assms x bs tl True f(4) fits
      by (simp add: write_range_def with_scsi_def and_then_def act_simps attached_def range_inv_def
          Let_def length_overwrite)
  next
    case False
    obtain d where d: "read_blocks uw B lba count bs (scsi s) =
        (Ok (take (unat count * unat bs) (drop (unat lba * unat bs) (contents (scsi s)))), d)"
      "ready d" "contents d = contents (scsi s)" using read_law [OF r f(1,2,3)] by blast
    let ?blk = "take (unat count * unat bs) (drop (unat lba * unat bs) (contents (scsi s)))"
    let ?new = "take skip ?blk @ data @ drop (skip + length data) ?blk"
    have blk: "length ?blk = unat count * unat bs" using f(3) by (simp add: algebra_simps)
    have new: "copy_at skip data ?blk = Some ?new" "length ?new = unat count * unat bs"
      using blk f(5) by (simp_all add: copy_at_def)
    obtain e where e: "write_blocks uw B lba count bs ?new d = (Ok (), e)" "ready e"
      "contents e = overwrite (unat lba * unat bs) ?new (contents d)"
      using write_law [OF d(2) f(1,2) _ new(2), of lba] f(3) d(3) by metis
    have "contents e = overwrite (unat offset) data (contents (scsi s))"
      using e(3) d(3) overwrite_splice [of "unat lba * unat bs" "unat count * unat bs" "contents (scsi s)" skip data]
        f(3,4,5) by (simp add: algebra_simps)
    moreover have "skip \<noteq> 0 \<or> unat count * unat bs \<noteq> length data" using False by simp
    ultimately show ?thesis
      by (elim disjE) (use assms x bs tl d(1) new(1) e(1,2) fits in \<open>simp_all add: write_range_def
          with_scsi_def and_then_def act_simps attached_def range_inv_def Let_def length_overwrite\<close>)
  qed
qed

lemma sync_flat:
  assumes "attached s"
  shows "\<exists>t. sync B s = (Ok (), t) \<and> attached t \<and> contents (scsi t) = contents (scsi s) \<and>
    access t = access s \<and> geometry t = geometry s"
  using assms flush_law [of "scsi s"]
  by (auto simp: sync_def with_scsi_def attached_def range_inv_def split: prod.split)

text \<open>Bytes outside a written range survive it, and a read returns what was written.\<close>

lemma write_then_read:
  assumes s: "attached s" "access s = ReadWrite" and w: "span s offset (length data) = Inr x"
  shows "\<exists>t u. write_range uw B offset data s = (Ok (), t) \<and>
    read_range uw B offset (length data) t = (Ok data, u) \<and>
    (\<forall>k. k < length (contents (scsi s)) \<longrightarrow> k < unat offset \<or> unat offset + length data \<le> k \<longrightarrow>
      contents (scsi u) ! k = contents (scsi s) ! k)"
proof -
  obtain t where t: "write_range uw B offset data s = (Ok (), t)" "attached t"
    "contents (scsi t) = overwrite (unat offset) data (contents (scsi s))" "geometry t = geometry s"
    using write_range_flat [OF s w] by blast
  have "span t offset (length data) = Inr x" using w span_cong [OF t(4)] by simp
  from read_range_flat [OF t(2) this] obtain u where u: "read_range uw B offset (length data) t =
      (Ok (take (length data) (drop (unat offset) (contents (scsi t)))), u)" "contents (scsi u) = contents (scsi t)"
    by blast
  obtain lba count skip where x: "x = (lba, count, skip)" by (cases x)
  have fits: "unat offset + length data \<le> length (contents (scsi s))"
    using span_fits [OF s(1) w [unfolded x]] by (simp add: algebra_simps)
  then have "take (length data) (drop (unat offset) (contents (scsi t))) = data"
    by (simp add: t(3) overwrite_read)
  then show ?thesis using t(1,3) u fits by (auto simp: overwrite_nth)
qed

end

end
