(* ===== verification/Bot_Target.thy ===== *)
theory Bot_Target
  imports Range_Contract
begin

text \<open>
  A Bulk-Only Transport disk as the host sees it, stated as the locale \<open>bot_target\<close>: idle, sending
  the rest of a data stage, or receiving one. The target chooses the size of the chunks it
  sends. \<open>Scsi\<close> over any such target is a \<open>block_store\<close>, so all that was proved of byte ranges
  holds over it.
\<close>

locale bot_target =
  fixes uw :: nat
    and B :: "'io bulk_io"
    and bs :: u32
    and disk :: "'io \<Rightarrow> u8 list"
    and idle :: "'io \<Rightarrow> bool"
    and sending :: "'io \<Rightarrow> u32 \<Rightarrow> u8 list \<Rightarrow> bool"
    and receiving :: "'io \<Rightarrow> u32 \<Rightarrow> nat \<Rightarrow> nat \<Rightarrow> bool"
  assumes usize_width: "32 \<le> uw"
    and bs_pow2: "is_power_of_two bs"
    and disk_blocks: "idle i \<Longrightarrow> length (disk i) \<le> 2 ^ 32 * unat bs"
    and accept_read: "idle i \<Longrightarrow> 0 < unat count \<Longrightarrow> (unat lba + unat count) * unat bs \<le> length (disk i) \<Longrightarrow>
      \<exists>j. bulk_write B (cbw t (of_nat (unat count * unat bs)) (unat count * unat bs) l (rw_cdb 0x28 lba count)) i = (Ok 31, j) \<and>
        sending j t (take (unat count * unat bs) (drop (unat lba * unat bs) (disk i))) \<and> disk j = disk i"
    and accept_write: "idle i \<Longrightarrow> 0 < unat count \<Longrightarrow> (unat lba + unat count) * unat bs \<le> length (disk i) \<Longrightarrow>
      \<exists>j. bulk_write B (cbw t (of_nat (unat count * unat bs)) 0 l (rw_cdb 0x2a lba count)) i = (Ok 31, j) \<and>
        receiving j t (unat lba * unat bs) (unat count * unat bs) \<and> disk j = disk i"
    and accept_flush: "idle i \<Longrightarrow>
      \<exists>j. bulk_write B (cbw t 0 0 l [0x35, 0, 0, 0, 0, 0, 0, 0, 0, 0]) i = (Ok 31, j) \<and> sending j t [] \<and> disk j = disk i"
    and send: "sending i t xs \<Longrightarrow> xs \<noteq> [] \<Longrightarrow> 0 < n \<Longrightarrow>
      \<exists>c j. bulk_read B n i = (Ok c, j) \<and> c \<noteq> [] \<and> length c \<le> length xs \<and> c = take (length c) xs \<and>
        sending j t (drop (length c) xs) \<and> disk j = disk i"
    and receive: "receiving i t off n \<Longrightarrow> c \<noteq> [] \<Longrightarrow> length c = min n max_chunk \<Longrightarrow> off + n \<le> length (disk i) \<Longrightarrow>
      \<exists>j. bulk_write B c i = (Ok (length c), j) \<and> receiving j t (off + length c) (n - length c) \<and>
        disk j = overwrite off c (disk i)"
    and status_sent: "sending i t [] \<Longrightarrow> \<exists>j. bulk_read B 13 i = (Ok (csw_bytes t 0 0), j) \<and> idle j \<and> disk j = disk i"
    and status_received: "receiving i t off 0 \<Longrightarrow> \<exists>j. bulk_read B 13 i = (Ok (csw_bytes t 0 0), j) \<and> idle j \<and> disk j = disk i"
begin

definition ready_c :: "'io scsi \<Rightarrow> bool" where
  "ready_c c \<longleftrightarrow> usable c \<and> idle (io c)"

lemma data_in_streams:
  assumes "sending (io c) t xs"
  shows "\<exists>d. data_in B (length acc + length xs) acc c = (Ok (acc @ xs), d) \<and> sending (io d) t [] \<and>
    disk (io d) = disk (io c) \<and> io_only c d"
  using assms
proof (induction "length xs" arbitrary: xs acc c rule: less_induct)
  case less
  show ?case
  proof (cases "xs = []")
    case True
    then show ?thesis using less.prems by (auto simp: data_in_done act_simps io_only_def)
  next
    case False
    let ?n = "min (length xs) max_chunk"
    have "0 < ?n" using False by (simp add: max_chunk_def)
    from send [OF less.prems False this] obtain a j where a: "bulk_read B ?n (io c) = (Ok a, j)" "a \<noteq> []"
      "length a \<le> length xs" "a = take (length a) xs" "sending j t (drop (length a) xs)" "disk j = disk (io c)" by blast
    let ?c = "c\<lparr>io := j\<rparr>" and ?xs = "drop (length a) xs"
    have "length ?xs < length xs" "sending (io ?c) t ?xs" using a False by (cases a; simp)+
    from less.hyps [OF this, of "acc @ a"] obtain d where
      d: "data_in B (length (acc @ a) + length ?xs) (acc @ a) ?c = (Ok ((acc @ a) @ ?xs), d)"
        "sending (io d) t []" "disk (io d) = disk (io ?c)" "io_only ?c d" by blast
    have xs: "a @ ?xs = xs" using a(4) by (metis append_take_drop_id)
    have len: "length (acc @ a) + length ?xs = length acc + length xs" using a(3) by simp
    have lt: "length acc < length acc + length xs" using False by simp
    have rd: "with_io (bulk_read B (min (length acc + length xs - length acc) max_chunk)) c = (Ok a, ?c)"
      using a(1) by (simp add: with_io_def)
    have rest: "data_in B (length acc + length xs) (acc @ a) ?c = (Ok (acc @ xs), d)"
      using d(1) unfolding len append_assoc xs .
    have "data_in B (length acc + length xs) acc c = (Ok (acc @ xs), d)"
      unfolding data_in_step [OF lt]
      by (subst and_then_run(1), rule rd) (use a(2,3) rest in \<open>simp add: act_simps\<close>)
    then show ?thesis using d a(6) by (auto simp: io_only_def)
  qed
qed

lemma data_out_accepted:
  assumes "receiving (io c) t off (length xs)" "off + length xs \<le> length (disk (io c))"
  shows "\<exists>d. write_chunks B (chunks max_chunk xs) c = (Ok (), d) \<and> receiving (io d) t (off + length xs) 0 \<and>
    disk (io d) = overwrite off xs (disk (io c)) \<and> io_only c d"
  using assms
proof (induction "length xs" arbitrary: xs off c rule: less_induct)
  case less
  show ?case
  proof (cases "xs = []")
    case True
    then show ?thesis using less.prems by (auto simp: act_simps io_only_def)
  next
    case False
    let ?a = "take max_chunk xs" and ?xs = "drop max_chunk xs"
    have a: "?a \<noteq> []" "length ?a = min (length xs) max_chunk" using False by (auto simp: max_chunk_def)
    from receive [OF less.prems(1) a less.prems(2)] obtain j where
      j: "bulk_write B ?a (io c) = (Ok (length ?a), j)" "receiving j t (off + length ?a) (length xs - length ?a)"
        "disk j = overwrite off ?a (disk (io c))" by blast
    let ?c = "c\<lparr>io := j\<rparr>"
    have "length ?xs < length xs" using False by (simp add: max_chunk_def)
    moreover have "receiving (io ?c) t (off + length ?a) (length ?xs)" using j(2) a(2) by (simp add: min_def split: if_splits)
    moreover have "off + length ?a + length ?xs \<le> length (disk (io ?c))"
      using less.prems(2) j(3) by (simp add: length_overwrite)
    ultimately obtain d where d: "write_chunks B (chunks max_chunk ?xs) ?c = (Ok (), d)"
      "receiving (io d) t (off + length ?a + length ?xs) 0"
      "disk (io d) = overwrite (off + length ?a) ?xs (disk (io ?c))" "io_only ?c d" using less.hyps by blast
    have ch: "chunks max_chunk xs = ?a # chunks max_chunk ?xs"
      using False by (subst chunks.simps) (simp add: max_chunk_def)
    have "overwrite (off + length ?a) ?xs (overwrite off ?a (disk (io c))) = overwrite off xs (disk (io c))"
    proof -
      have "overwrite (off + length ys) zs (overwrite off ys ds) = overwrite off (ys @ zs) ds"
        if "off + length (ys @ zs) \<le> length ds" for ys zs and ds :: "u8 list"
        using that by (simp add: overwrite_def ac_simps)
      from this [of ?a ?xs "disk (io c)"] less.prems(2) show ?thesis by simp
    qed
    moreover have "write_chunks B (chunks max_chunk xs) c = (Ok (), d)"
      unfolding ch write_chunks.simps using j(1) d(1)
      by (simp add: and_then_def with_io_def act_simps)
    moreover have "length ?a + length ?xs = length xs" by simp
    ultimately show ?thesis using d j(3) by (auto simp: io_only_def add.assoc)
  qed
qed

lemma block_command_fits:
  assumes "ready_c c" "0 < unat count" "unat count * unat bs < 2 ^ 32"
    and fits: "(unat lba + unat count) * unat bs \<le> length (disk (io c))"
  shows "block_command uw op lba count bs = Inr (rw_cdb op lba count, unat count * unat bs)"
proof -
  have "idle (io c)" using assms(1) by (simp add: ready_c_def)
  from le_trans [OF fits disk_blocks [OF this]] is_power_of_two_pos [OF bs_pow2]
  have "unat lba + unat count \<le> 2 ^ 32" by (simp only: mult_le_cancel2)
  moreover have "unat count * unat bs < 2 ^ uw"
    using assms(3) power_increasing [OF usize_width, of "2 :: nat"] by linarith
  moreover have "count \<noteq> 0" using assms(2) by auto
  ultimately show ?thesis using bs_pow2 by (simp add: block_command_Inr rw_cdb_def)
qed

text \<open>A data-in, a data-out and a no-data command, from the wrapper to the status.\<close>

lemma command_in_runs:
  assumes c: "ready_c c" and cdb: "cdb \<noteq> []" "length cdb \<le> 16" and n: "length xs < 2 ^ 32"
    and w: "bulk_write B (cbw (tag c + 1) (of_nat (length xs)) (length xs) (lun c) cdb) (io c) = (Ok 31, j)"
    and j: "sending j (tag c + 1) xs" "disk j = disk (io c)"
  shows "\<exists>d. command B cdb (length xs) [] c = (Ok xs, d) \<and> ready_c d \<and> disk (io d) = disk (io c)"
proof -
  let ?w = "cbw (tag c + 1) (of_nat (length xs)) (length xs) (lun c) cdb"
  let ?c = "c\<lparr>tag := tag c + 1, usable := False\<rparr>" and ?d = "c\<lparr>tag := tag c + 1, usable := False, io := j\<rparr>"
  have wl: "length ?w = 31" using cdb by (simp add: cbw_def)
  have "with_io (bulk_write B ?w) ?c = (Ok (length ?w), ?d)" using w wl by (simp add: with_io_def)
  note step1 = and_then_run(1) [where m = "with_io (bulk_write B ?w)", OF this]
  obtain d where d: "data_stage B (length xs) [] ?d = (Ok xs, d)" "sending (io d) (tag c + 1) []"
    "disk (io d) = disk j" "io_only ?d d"
  proof (cases "xs = []")
    case True
    then show thesis using j that [of ?d] by (simp add: data_stage_def act_simps io_only_def)
  next
    case False
    then show thesis using data_in_streams [of ?d "tag c + 1" xs "[]"] j(1) that
      by (auto simp: data_stage_def)
  qed
  obtain k where k: "bulk_read B 13 (io d) = (Ok (csw_bytes (tag c + 1) 0 0), k)" "idle k" "disk k = disk (io d)"
    using status_sent [OF d(2)] by blast
  then have "with_io (bulk_read B 13) d = (Ok (csw_bytes (tag c + 1) 0 0), d\<lparr>io := k\<rparr>)" by (simp add: with_io_def)
  note step3 = and_then_run(1) [where m = "with_io (bulk_read B 13)", OF this]
  note step2 = and_then_run(1) [where m = "data_stage B (length xs) []", OF d(1)]
  have "command B cdb (length xs) [] c = (Ok xs, d\<lparr>io := k, usable := True\<rparr>)"
    using c cdb n wl
    by (simp add: ready_c_def command_issue bad_shape_def exchange_def act_simps step1 step2 step3 check_csw_valid)
  then show ?thesis using k d(3) j(2) by (simp add: ready_c_def)
qed

lemma command_out_runs:
  assumes c: "ready_c c" and cdb: "cdb \<noteq> []" "length cdb \<le> 16" and n: "xs \<noteq> []" "length xs < 2 ^ 32"
    and w: "bulk_write B (cbw (tag c + 1) (of_nat (length xs)) 0 (lun c) cdb) (io c) = (Ok 31, j)"
    and j: "receiving j (tag c + 1) off (length xs)" "disk j = disk (io c)" "off + length xs \<le> length (disk (io c))"
  shows "\<exists>d. command B cdb 0 xs c = (Ok [], d) \<and> ready_c d \<and> disk (io d) = overwrite off xs (disk (io c))"
proof -
  let ?w = "cbw (tag c + 1) (of_nat (length xs)) 0 (lun c) cdb"
  let ?c = "c\<lparr>tag := tag c + 1, usable := False\<rparr>" and ?d = "c\<lparr>tag := tag c + 1, usable := False, io := j\<rparr>"
  have wl: "length ?w = 31" using cdb by (simp add: cbw_def)
  have "with_io (bulk_write B ?w) ?c = (Ok (length ?w), ?d)" using w wl by (simp add: with_io_def)
  note step1 = and_then_run(1) [where m = "with_io (bulk_write B ?w)", OF this]
  obtain d where d: "write_chunks B (chunks max_chunk xs) ?d = (Ok (), d)" "receiving (io d) (tag c + 1) (off + length xs) 0"
    "disk (io d) = overwrite off xs (disk j)"
    using data_out_accepted [of ?d "tag c + 1" off xs] j by auto
  obtain k where k: "bulk_read B 13 (io d) = (Ok (csw_bytes (tag c + 1) 0 0), k)" "idle k" "disk k = disk (io d)"
    using status_received [OF d(2)] by blast
  then have "with_io (bulk_read B 13) d = (Ok (csw_bytes (tag c + 1) 0 0), d\<lparr>io := k\<rparr>)" by (simp add: with_io_def)
  note step3 = and_then_run(1) [where m = "with_io (bulk_read B 13)", OF this]
  note step2 = and_then_run(1) [where m = "write_chunks B (chunks max_chunk xs)", OF d(1)]
  have "command B cdb 0 xs c = (Ok [], d\<lparr>io := k, usable := True\<rparr>)"
    using c cdb n wl
    by (simp add: ready_c_def command_issue bad_shape_def exchange_def data_stage_def data_out_def act_simps
        and_then_assoc step1 step2 step3 check_csw_valid)
  then show ?thesis using k d(3) j(2) by (simp add: ready_c_def)
qed

end

text \<open>Such a target, with \<open>Scsi\<close> over it, keeps the contract of \<open>block_store\<close>.\<close>

sublocale bot_target \<subseteq> block_store uw B "ready_c" "\<lambda>c. disk (io c)" bs
proof
  show "32 \<le> uw" by (rule usize_width)
next
  fix c and count :: u16 and lba :: u32
  assume c: "ready_c c" and n: "0 < unat count" "unat count * unat bs < 2 ^ 32"
    and fits: "(unat lba + unat count) * unat bs \<le> length (disk (io c))"
  let ?xs = "take (unat count * unat bs) (drop (unat lba * unat bs) (disk (io c)))"
  have len: "length ?xs = unat count * unat bs" using fits by (simp add: algebra_simps)
  obtain j where "bulk_write B (cbw (tag c + 1) (of_nat (unat count * unat bs)) (unat count * unat bs) (lun c) (rw_cdb 0x28 lba count)) (io c) = (Ok 31, j)"
    "sending j (tag c + 1) ?xs" "disk j = disk (io c)"
    using accept_read [of "io c" count lba "tag c + 1" "lun c"] c n fits by (auto simp: ready_c_def)
  then have "\<exists>d. command B (rw_cdb 0x28 lba count) (unat count * unat bs) [] c = (Ok ?xs, d) \<and> ready_c d \<and> disk (io d) = disk (io c)"
    using command_in_runs [OF c, of "rw_cdb 0x28 lba count" ?xs j] len n by (simp add: rw_cdb_def)
  moreover have "read_blocks uw B lba count bs c = command B (rw_cdb 0x28 lba count) (unat count * unat bs) [] c"
    using block_command_fits [OF c n fits] by (simp add: read_blocks_def)
  ultimately show "\<exists>d. read_blocks uw B lba count bs c = (Ok ?xs, d) \<and> ready_c d \<and> disk (io d) = disk (io c)" by simp
next
  fix c and count :: u16 and lba :: u32 and data :: "u8 list"
  assume c: "ready_c c" and n: "0 < unat count" "unat count * unat bs < 2 ^ 32"
    and fits: "(unat lba + unat count) * unat bs \<le> length (disk (io c))" and len: "length data = unat count * unat bs"
  obtain j where "bulk_write B (cbw (tag c + 1) (of_nat (unat count * unat bs)) 0 (lun c) (rw_cdb 0x2a lba count)) (io c) = (Ok 31, j)"
    "receiving j (tag c + 1) (unat lba * unat bs) (unat count * unat bs)" "disk j = disk (io c)"
    using accept_write [of "io c" count lba "tag c + 1" "lun c"] c n fits by (auto simp: ready_c_def)
  moreover have "data \<noteq> []" using len n is_power_of_two_pos [OF bs_pow2] by auto
  ultimately have "\<exists>d. command B (rw_cdb 0x2a lba count) 0 data c = (Ok [], d) \<and> ready_c d \<and>
      disk (io d) = overwrite (unat lba * unat bs) data (disk (io c))"
    using command_out_runs [OF c, of "rw_cdb 0x2a lba count" data j "unat lba * unat bs"] len n fits
    by (simp add: rw_cdb_def algebra_simps)
  then show "\<exists>d. write_blocks uw B lba count bs data c = (Ok (), d) \<and> ready_c d \<and>
      disk (io d) = overwrite (unat lba * unat bs) data (disk (io c))"
    using block_command_fits [OF c n fits] len by (auto simp: write_blocks_def and_then_def act_simps)
next
  fix c assume c: "ready_c c"
  obtain j where "bulk_write B (cbw (tag c + 1) 0 0 (lun c) [0x35, 0, 0, 0, 0, 0, 0, 0, 0, 0]) (io c) = (Ok 31, j)"
    "sending j (tag c + 1) []" "disk j = disk (io c)"
    using accept_flush [of "io c" "tag c + 1" "lun c"] c by (auto simp: ready_c_def)
  then show "\<exists>d. flush B c = (Ok (), d) \<and> ready_c d \<and> disk (io d) = disk (io c)"
    using command_in_runs [OF c, of "[0x35, 0, 0, 0, 0, 0, 0, 0, 0, 0]" "[]" j]
    by (auto simp: flush_def and_then_def act_simps)
qed

text \<open>What a client of a target uses: ranges of bytes are ranges of its flat contents.\<close>

context bot_target begin

lemma attachedI:
  assumes "range_inv s" "usable (scsi s)" "idle (io (scsi s))" "block_size (geometry s) = bs"
    "length (disk (io (scsi s))) = unat (blocks (geometry s)) * unat bs"
  shows "attached s"
  using assms by (simp add: attached_def ready_c_def)

lemma attachedD: "attached s \<Longrightarrow> usable (scsi s) \<and> idle (io (scsi s)) \<and> range_inv s"
  by (simp add: attached_def ready_c_def)

lemmas target_flat = read_range_flat write_range_flat sync_flat

end

end
