(* ===== verification/Disk_Target.thy ===== *)
theory Disk_Target
  imports Bot_Target
begin

text \<open>
  The in-memory USB disk of \<open>nusb-scsi/src/range.rs\<close> (\<open>tests::Disk\<close>), an implementation of \<open>BulkIo\<close>
  that answers wrappers byte by byte, and the interpretation of \<open>bot_target\<close> on it: for every
  disk of 512-byte blocks up to one megabyte, not only for the sizes the tests use.
\<close>

record disk =
  disk_bytes :: "u8 list"
  commands :: "u8 list"
  reads :: "u8 list list"
  pending :: "(nat \<times> nat \<times> u32) option"
  fail_write :: bool

definition disk_status :: "u32 \<Rightarrow> bool \<Rightarrow> disk \<Rightarrow> disk" where
  "disk_status t failed d = d\<lparr>reads := reads d @
     [usbs @ to_le_bytes_u32 t @ to_le_bytes_u32 0 @ [if failed then 1 else 0]]\<rparr>"

text \<open>
  \<open>Disk::write\<close>: the data stage of a pending WRITE(10), else a wrapper. A failed assertion, a
  slice out of range and an unknown opcode are panics.
\<close>

definition disk_data :: "u8 list \<Rightarrow> nat \<times> nat \<times> u32 \<Rightarrow> (disk, error, nat) act" where
  "disk_data data = (\<lambda>(offset, len, t) d.
     if length data \<noteq> len then (Panicked, d)
     else if fail_write d then (Err (Usb Disconnected), d)
     else case copy_at offset data (disk_bytes d) of
       None \<Rightarrow> (Panicked, d)
     | Some bytes \<Rightarrow> (Ok (length data), disk_status t False (d\<lparr>disk_bytes := bytes\<rparr>)))"

definition disk_wrapper :: "u8 list \<Rightarrow> (disk, error, nat) act" where
  "disk_wrapper data = (\<lambda>d.
     if length data \<noteq> 31 then (Panicked, d)
     else case u32_from_le_bytes (take 4 (drop 4 data)) of
       None \<Rightarrow> (Panicked, d)
     | Some t \<Rightarrow>
         let cdb = drop 15 data; op = cdb ! 0; d = d\<lparr>commands := commands d @ [op]\<rparr>
         in if op \<in> {0, 0x35, 0x1b} then (Ok 31, disk_status t False d)
            else if op = 0x25 then
              (let blocks = of_nat (length (disk_bytes d) div 512) :: u32
               in if blocks = 0 then (Panicked, d)
                  else (Ok 31, disk_status t False (d\<lparr>reads := reads d @
                         [to_be_bytes_u32 (blocks - 1) @ to_be_bytes_u32 512]\<rparr>)))
            else if op = 0x28 \<or> op = 0x2a then
              (case (u32_from_be_bytes (take 4 (drop 2 cdb)), u16_from_be_bytes (take 2 (drop 7 cdb))) of
                 (Some lba, Some count) \<Rightarrow>
                   let offset = unat lba * 512; len = unat count * 512
                   in if op = 0x28 then
                        (case slice offset (offset + len) (disk_bytes d) of
                           None \<Rightarrow> (Panicked, d)
                         | Some bytes \<Rightarrow> (Ok 31, disk_status t False (d\<lparr>reads := reads d @ [bytes]\<rparr>)))
                      else (Ok 31, d\<lparr>pending := Some (offset, len, t)\<rparr>)
               | _ \<Rightarrow> (Panicked, d))
            else (Panicked, d))"

definition disk_write :: "u8 list \<Rightarrow> (disk, error, nat) act" where
  "disk_write data = (\<lambda>d. case pending d of
     Some p \<Rightarrow> disk_data data p (d\<lparr>pending := None\<rparr>)
   | None \<Rightarrow> disk_wrapper data d)"

definition disk_read :: "nat \<Rightarrow> (disk, error, u8 list) act" where
  "disk_read n = (\<lambda>d. case reads d of
     [] \<Rightarrow> fail (Protocol ''unexpected bulk read'') d
   | r # rs \<Rightarrow> ret r (d\<lparr>reads := rs\<rparr>))"

definition disk_io :: "disk bulk_io" where
  "disk_io = \<lparr>bulk_max_lun = (\<lambda>_. 15), bulk_write = disk_write, bulk_read = disk_read\<rparr>"

lemma disk_io_sel [simp]:
  "bulk_max_lun disk_io d = 15"
  "bulk_write disk_io = disk_write"
  "bulk_read disk_io = disk_read"
  by (simp_all add: disk_io_def)

section \<open>Its protocol states\<close>

definition disk_shape :: "disk \<Rightarrow> bool" where
  "disk_shape d \<longleftrightarrow> 512 dvd length (disk_bytes d) \<and> disk_bytes d \<noteq> [] \<and> length (disk_bytes d) \<le> max_chunk \<and>
     \<not> fail_write d"

definition disk_idle :: "disk \<Rightarrow> bool" where
  "disk_idle d \<longleftrightarrow> disk_shape d \<and> reads d = [] \<and> pending d = None"

definition disk_sending :: "disk \<Rightarrow> u32 \<Rightarrow> u8 list \<Rightarrow> bool" where
  "disk_sending d t xs \<longleftrightarrow> disk_shape d \<and> pending d = None \<and>
     reads d = (if xs = [] then [] else [xs]) @ [csw_bytes t 0 0]"

definition disk_receiving :: "disk \<Rightarrow> u32 \<Rightarrow> nat \<Rightarrow> nat \<Rightarrow> bool" where
  "disk_receiving d t off n \<longleftrightarrow> disk_shape d \<and> off + n \<le> length (disk_bytes d) \<and>
     (if n = 0 then pending d = None \<and> reads d = [csw_bytes t 0 0] else pending d = Some (off, n, t) \<and> reads d = [])"

lemma disk_status_csw: "disk_status t False d = d\<lparr>reads := reads d @ [csw_bytes t 0 0]\<rparr>"
  by (simp add: disk_status_def csw_bytes_def)

lemma cbw_fields:
  assumes "cdb \<noteq> []" "length cdb \<le> 16"
  shows "length (cbw t len n l cdb) = 31" "take 4 (drop 4 (cbw t len n l cdb)) = to_le_bytes_u32 t"
    "drop 15 (cbw t len n l cdb) = cdb @ replicate (16 - length cdb) 0"
  using assms by (simp_all add: cbw_def)

text \<open>How the disk decodes the wrappers \<open>Scsi\<close> builds.\<close>

lemma disk_wrapper_read:
  assumes "unat lba * 512 + unat count * 512 \<le> length (disk_bytes d)"
  shows "disk_wrapper (cbw t len n l (rw_cdb 0x28 lba count)) d = (Ok 31, d\<lparr>commands := commands d @ [0x28],
    reads := reads d @ [take (unat count * 512) (drop (unat lba * 512) (disk_bytes d)), csw_bytes t 0 0]\<rparr>)"
  using assms
  by (simp add: disk_wrapper_def cbw_fields rw_cdb_def disk_status_csw slice_def nth_append)

lemma disk_wrapper_write:
  "disk_wrapper (cbw t len n l (rw_cdb 0x2a lba count)) d = (Ok 31, d\<lparr>commands := commands d @ [0x2a],
    pending := Some (unat lba * 512, unat count * 512, t)\<rparr>)"
  by (simp add: disk_wrapper_def cbw_fields rw_cdb_def nth_append)

lemma disk_wrapper_plain:
  "op \<in> {0, 0x35, 0x1b} \<Longrightarrow> length rest \<le> 15 \<Longrightarrow> disk_wrapper (cbw t len n l (op # rest)) d =
    (Ok 31, d\<lparr>commands := commands d @ [op], reads := reads d @ [csw_bytes t 0 0]\<rparr>)"
  by (auto simp: disk_wrapper_def cbw_fields disk_status_csw)

text \<open>
  The disk is a \<open>bot_target\<close> for a \<open>usize\<close> of any supported width, so \<open>Scsi\<close> and \<open>RangeSession\<close>
  over it have every property proved of \<open>block_store\<close>.
\<close>

lemma disk_bot_target:
  assumes "32 \<le> uw"
  shows "bot_target uw disk_io 512 disk_bytes disk_idle disk_sending disk_receiving"
proof
  show "32 \<le> uw" by (rule assms)
  show "is_power_of_two 512" by (auto simp: is_power_of_two_iff intro: exI [of _ 9])
  fix i :: disk and count :: u16 and lba t :: u32 and l :: u8
  assume i: "disk_idle i"
  then show "length (disk_bytes i) \<le> 2 ^ 32 * unat (512 :: u32)"
    by (simp add: disk_idle_def disk_shape_def max_chunk_def)
  assume n: "0 < unat count" and fits: "(unat lba + unat count) * unat (512 :: u32) \<le> length (disk_bytes i)"
  have f: "unat lba * 512 + unat count * 512 \<le> length (disk_bytes i)" using fits by (simp add: add_mult_distrib)
  have ne: "take (unat count * 512) (drop (unat lba * 512) (disk_bytes i)) \<noteq> []"
    using n f by (auto simp: not_le)
  show "\<exists>j. bulk_write disk_io (cbw t (of_nat (unat count * unat (512 :: u32))) (unat count * unat (512 :: u32)) l (rw_cdb 0x28 lba count)) i = (Ok 31, j) \<and>
      disk_sending j t (take (unat count * unat (512 :: u32)) (drop (unat lba * unat (512 :: u32)) (disk_bytes i))) \<and>
      disk_bytes j = disk_bytes i"
    using i ne by (simp add: disk_write_def disk_idle_def disk_wrapper_read [OF f] disk_sending_def disk_shape_def)
  show "\<exists>j. bulk_write disk_io (cbw t (of_nat (unat count * unat (512 :: u32))) 0 l (rw_cdb 0x2a lba count)) i = (Ok 31, j) \<and>
      disk_receiving j t (unat lba * unat (512 :: u32)) (unat count * unat (512 :: u32)) \<and> disk_bytes j = disk_bytes i"
    using i n f by (simp add: disk_write_def disk_idle_def disk_wrapper_write disk_receiving_def disk_shape_def)
next
  fix i :: disk and t :: u32 and l :: u8
  assume "disk_idle i"
  then show "\<exists>j. bulk_write disk_io (cbw t 0 0 l [0x35, 0, 0, 0, 0, 0, 0, 0, 0, 0]) i = (Ok 31, j) \<and>
      disk_sending j t [] \<and> disk_bytes j = disk_bytes i"
    by (simp add: disk_write_def disk_idle_def disk_wrapper_plain disk_sending_def disk_shape_def)
next
  fix i :: disk and t :: u32 and xs :: "u8 list" and n :: nat
  assume "disk_sending i t xs" "xs \<noteq> []" "0 < n"
  then show "\<exists>c j. bulk_read disk_io n i = (Ok c, j) \<and> c \<noteq> [] \<and> length c \<le> length xs \<and> c = take (length c) xs \<and>
      disk_sending j t (drop (length c) xs) \<and> disk_bytes j = disk_bytes i"
    by (simp add: disk_read_def disk_sending_def disk_shape_def act_simps)
next
  fix i :: disk and t :: u32 and off n :: nat and c :: "u8 list"
  assume r: "disk_receiving i t off n" "c \<noteq> []" "length c = min n max_chunk" "off + n \<le> length (disk_bytes i)"
  have c: "length c = n" "0 < n" using r by (auto simp: disk_receiving_def disk_shape_def)
  then show "\<exists>j. bulk_write disk_io c i = (Ok (length c), j) \<and> disk_receiving j t (off + length c) (n - length c) \<and>
      disk_bytes j = overwrite off c (disk_bytes i)"
    using r by (auto simp: disk_write_def disk_receiving_def disk_shape_def disk_data_def copy_at_def disk_status_csw overwrite_def)
next
  fix i :: disk and t :: u32
  assume "disk_sending i t []"
  then show "\<exists>j. bulk_read disk_io 13 i = (Ok (csw_bytes t 0 0), j) \<and> disk_idle j \<and> disk_bytes j = disk_bytes i"
    by (simp add: disk_read_def disk_sending_def disk_idle_def disk_shape_def act_simps)
next
  fix i :: disk and t :: u32 and off :: nat
  assume "disk_receiving i t off 0"
  then show "\<exists>j. bulk_read disk_io 13 i = (Ok (csw_bytes t 0 0), j) \<and> disk_idle j \<and> disk_bytes j = disk_bytes i"
    by (simp add: disk_read_def disk_receiving_def disk_idle_def disk_shape_def act_simps)
qed

interpretation disk64: bot_target 64 disk_io 512 disk_bytes disk_idle disk_sending disk_receiving
  by (rule disk_bot_target) simp

interpretation disk32: bot_target 32 disk_io 512 disk_bytes disk_idle disk_sending disk_receiving
  by (rule disk_bot_target) simp

text \<open>
  \<open>RangeSession::connect\<close> over an idle disk finds its capacity: TEST UNIT READY answers at once,
  READ CAPACITY(10) returns the last block.
\<close>

lemma replicate_6: "replicate 6 x = x # replicate 5 x"
  by (simp add: numeral_eq_Suc)

lemma disk_test_unit_ready:
  assumes "usable c" "disk_idle (io c)"
  shows "\<exists>d. test_unit_ready disk_io c = (Ok (), d) \<and> usable d \<and> disk_idle (io d) \<and> disk_bytes (io d) = disk_bytes (io c)"
proof -
  obtain j where "bulk_write disk_io (cbw (tag c + 1) 0 0 (lun c) (replicate 6 0)) (io c) = (Ok 31, j)"
    "disk_sending j (tag c + 1) []" "disk_bytes j = disk_bytes (io c)"
    using assms by (simp add: disk_write_def disk_idle_def replicate_6 disk_wrapper_plain disk_sending_def disk_shape_def)
  then show ?thesis
    using disk64.command_in_runs [of c "replicate 6 0" "[]" j] assms
    by (auto simp: test_unit_ready_def disk64.ready_c_def and_then_def act_simps)
qed

lemma disk_geometry:
  assumes "usable c" "disk_idle (io c)"
  shows "\<exists>d. get_geometry disk_io c = (Ok \<lparr>blocks = of_nat (length (disk_bytes (io c)) div 512), block_size = 512\<rparr>, d) \<and>
    usable d \<and> disk_idle (io d) \<and> disk_bytes (io d) = disk_bytes (io c)"
proof -
  define n where "n = length (disk_bytes (io c)) div 512"
  have "disk_shape (io c)" using assms by (simp add: disk_idle_def)
  then have n: "0 < n" "n < 2 ^ 32"
    by (auto simp: disk_shape_def n_def max_chunk_def intro!: gr0I)
  then have ni: "unat (of_nat n :: u32) = n" by (simp add: unat_of_nat)
  with n have nz: "(of_nat n :: u32) \<noteq> 0" by (metis neq0_conv unat_0)
  let ?reply = "to_be_bytes_u32 (of_nat n - 1) @ to_be_bytes_u32 512"
  obtain j where j: "bulk_write disk_io (cbw (tag c + 1) 8 8 (lun c) [0x25, 0, 0, 0, 0, 0, 0, 0, 0, 0]) (io c) = (Ok 31, j)"
    "disk_sending j (tag c + 1) ?reply" "disk_bytes j = disk_bytes (io c)"
    using assms nz by (simp add: disk_write_def disk_idle_def disk_wrapper_def cbw_fields disk_status_csw
      disk_sending_def disk_shape_def n_def [symmetric] Let_def to_be_bytes_u32_def)
  obtain d where d: "command disk_io [0x25, 0, 0, 0, 0, 0, 0, 0, 0, 0] 8 [] c = (Ok ?reply, d)"
    "usable d" "disk_idle (io d)" "disk_bytes (io d) = disk_bytes (io c)"
    using disk64.command_in_runs [of c "[0x25, 0, 0, 0, 0, 0, 0, 0, 0, 0]" ?reply j] j assms
    by (auto simp: disk64.ready_c_def)
  have u: "unat (of_nat n - 1 :: u32) = n - 1" using n ni nz by (simp add: unat_sub word_le_nat_alt)
  have "(of_nat n - 1 :: u32) \<noteq> - 1" using nz by (metis add.right_neutral diff_add_cancel uminus_add_conv_diff)
  moreover have "ucast (of_nat n - 1 :: u32) + 1 = (of_nat n :: u64)"
  proof -
    have "ucast (of_nat n - 1 :: u32) = (of_nat (n - 1) :: u64)" by (rule ucast_of_nat [OF u])
    then show ?thesis using n by simp
  qed
  moreover have "is_power_of_two 512" by (rule disk64.bs_pow2)
  ultimately show ?thesis using d
    by (simp add: get_geometry_def and_then_def act_simps slice_def n_def)
qed

lemma disk_connect:
  assumes "usable c" "disk_idle (io c)"
  shows "\<exists>s d. connect disk_io a c = (Ok s, d) \<and> disk64.attached s \<and> access s = a \<and>
    geometry s = \<lparr>blocks = of_nat (length (disk_bytes (io c)) div 512), block_size = 512\<rparr> \<and>
    disk_bytes (io (scsi s)) = disk_bytes (io c)"
proof -
  obtain d where d: "test_unit_ready disk_io c = (Ok (), d)" "usable d" "disk_idle (io d)" "disk_bytes (io d) = disk_bytes (io c)"
    using disk_test_unit_ready [OF assms] by blast
  obtain e where e: "get_geometry disk_io d = (Ok \<lparr>blocks = of_nat (length (disk_bytes (io d)) div 512), block_size = 512\<rparr>, e)"
    "usable e" "disk_idle (io e)" "disk_bytes (io e) = disk_bytes (io d)" using disk_geometry [OF d(2,3)] by blast
  define n where "n = length (disk_bytes (io c)) div 512"
  have "disk_shape (io c)" using assms by (simp add: disk_idle_def)
  then have n: "0 < n" "n \<le> 2048" "length (disk_bytes (io c)) = n * 512"
    by (auto simp: disk_shape_def n_def max_chunk_def intro!: gr0I)
  then have u: "unat (of_nat n :: u64) = n" by (simp add: unat_of_nat)
  have nz: "(of_nat n :: u64) \<noteq> 0" using n u by (metis neq0_conv unat_0)
  have small: "\<not> ucast (- 1 :: u32) < (of_nat n :: u64)" 
    using n(2) u by (simp only: word_less_nat_alt unat_ucast_u32 unat_max_u32) simp
  have run: "connect disk_io a c = (Ok \<lparr>scsi = e, geometry = \<lparr>blocks = of_nat n, block_size = 512\<rparr>, access = a\<rparr>, e)"
    using d e nz small by (simp add: connect_def initialize_ready_def match_result_def and_then_def act_simps n_def)
  let ?s = "\<lparr>scsi = e, geometry = \<lparr>blocks = of_nat n, block_size = 512\<rparr>, access = a\<rparr>"
  have "range_inv ?s" using connect_Ok [OF run] by simp
  then have "disk64.attached ?s"
    using e d n u by (simp add: disk64.attached_def disk64.ready_c_def)
  then show ?thesis using run d e by (simp add: n_def)
qed

end
