(* ===== verification/Range_Properties.thy ===== *)
theory Range_Properties
  imports Disk_Target
begin

text \<open>
  The properties of \<open>RangeSession\<close>: exactness of \<open>span\<close>, what \<open>connect\<close> establishes, refusals
  that send nothing, the read-only guarantee on the wire, retirement, panic freedom, and the
  refinement to one flat array of bytes over every Bulk-Only target.
\<close>

section \<open>Sessions as a transition system\<close>

datatype range_op = Read_Op u64 nat | Write_Op u64 "u8 list" | Sync_Op | Eject_Op

text \<open>
  Any sequence of calls the owner of a session can make; how each call ends, also by being
  dropped, is the transport's choice.
\<close>

definition range_apply :: "nat \<Rightarrow> 'io bulk_io \<Rightarrow> range_op \<Rightarrow> 'io range_session \<Rightarrow> 'io range_session" where
  "range_apply uw B op s = (case op of
     Read_Op offset len \<Rightarrow> snd (read_range uw B offset len s)
   | Write_Op offset bytes \<Rightarrow> snd (write_range uw B offset bytes s)
   | Sync_Op \<Rightarrow> snd (sync B s)
   | Eject_Op \<Rightarrow> snd (range_eject B s))"

inductive range_steps :: "nat \<Rightarrow> 'io bulk_io \<Rightarrow> 'io range_session \<Rightarrow> 'io range_session \<Rightarrow> bool"
  for uw :: nat and B :: "'io bulk_io" where
  none: "range_steps uw B s s"
| more: "range_steps uw B s t \<Longrightarrow> range_steps uw B s (range_apply uw B op t)"

text \<open>A relation that every operation keeps is kept by every sequence.\<close>

lemma range_steps_within:
  assumes "range_steps uw B s t" and R: "reflp R" "transp R"
    and ops: "\<And>offset len. within R (read_range uw B offset len)" "\<And>offset bytes. within R (write_range uw B offset bytes)"
      "within R (sync B)" "within R (range_eject B)"
  shows "R s t"
  using assms(1)
proof induction
  case (none s)
  show ?case using R(1) by (rule reflpD)
next
  case (more s t op)
  have "R t (range_apply uw B op t)"
    using ops by (cases op) (simp_all add: range_apply_def within_def)
  with more.IH show ?case by (rule transpE [OF R(2)])
qed

section \<open>Frames of the operations\<close>

lemma with_scsi_run: "with_scsi m s = (r, t) \<longleftrightarrow> (\<exists>c. m (scsi s) = (r, c) \<and> t = s\<lparr>scsi := c\<rparr>)"
  by (auto simp: with_scsi_def split: prod.split)

definition same_session :: "'io range_session \<Rightarrow> 'io range_session \<Rightarrow> bool" where
  "same_session s t \<longleftrightarrow> geometry t = geometry s \<and> access t = access s"

lemma same_session_order [simp, intro]: "reflp same_session" "transp same_session"
  by (auto intro!: reflpI transpI simp: same_session_def)

lemma with_scsi_same [within_intros]: "within same_session (with_scsi m)"
  by (auto simp: within_def with_scsi_def same_session_def split: prod.split)

text \<open>
  Both range operations are, under their guards, sequences of lifted \<open>Scsi\<close> calls.
\<close>

lemma read_range_within:
  assumes R: "reflp R" "transp R"
    and rd: "\<And>lba count bs. within R (with_scsi (read_blocks uw B lba count bs))"
  shows "within R (read_range uw B offset len)"
proof (rule withinI)
  fix s r t assume run: "read_range uw B offset len s = (r, t)"
  have "within R (and_then (with_scsi (read_blocks uw B lba count bs)) (\<lambda>bytes. unwrap (slice skip (skip + len) bytes)))"
    for lba count bs skip by (intro within_intros R rd)
  note body = withinD [OF this]
  show "R s t" using run R(1)
    by (auto simp: read_range_def split: sum.splits prod.splits dest: reflpD body)
qed

lemma write_range_within:
  assumes R: "reflp R" "transp R"
    and rd: "\<And>lba count bs. within R (with_scsi (read_blocks uw B lba count bs))"
    and wr: "\<And>lba count bs data. within R (with_scsi (write_blocks uw B lba count bs data))"
  shows "within R (write_range uw B offset bytes)"
proof (rule withinI)
  fix s r t assume run: "write_range uw B offset bytes s = (r, t)"
  have "within R (and_then (unwrap x) (\<lambda>n. if skip = 0 \<and> n = length bytes
      then with_scsi (write_blocks uw B lba count bs bytes)
      else and_then (with_scsi (read_blocks uw B lba count bs)) (\<lambda>sectors.
        and_then (unwrap (copy_at skip bytes sectors)) (\<lambda>sectors. with_scsi (write_blocks uw B lba count bs sectors)))))"
    for x lba count bs skip by (intro within_intros R rd wr)
  note body = withinD [OF this]
  show "R s t" using run R(1)
    by (auto simp: write_range_def Let_def split: if_splits(2) sum.splits prod.splits dest: reflpD body)
qed

lemma range_same: "within same_session (read_range uw B offset len)" "within same_session (write_range uw B offset bytes)"
  "within same_session (sync B)" "within same_session (range_eject B)"
  unfolding sync_def range_eject_def
  by (intro read_range_within write_range_within within_intros same_session_order)+

lemma range_steps_same: "range_steps uw B s t \<Longrightarrow> same_session s t"
  by (erule range_steps_within) (intro range_same same_session_order)+

section \<open>What is sent\<close>

lemma cbw_opcode: "cdb \<noteq> [] \<Longrightarrow> length cdb \<le> 16 \<Longrightarrow> length (cbw t len n l cdb) = 31 \<and> cbw t len n l cdb ! 15 = hd cdb"
  by (cases cdb) (simp_all add: cbw_def nth_append)

text \<open>A wrapper with one of the opcodes in \<open>ops\<close>.\<close>

definition wrapper_of :: "u8 set \<Rightarrow> u8 list \<Rightarrow> bool" where
  "wrapper_of ops d \<longleftrightarrow> length d = 31 \<and> d ! 15 \<in> ops"

lemma no_data_command_sends:
  assumes "cdb \<noteq> []" "length cdb \<le> 16" "hd cdb \<in> ops"
  shows "within (sends (wrapper_of ops)) (command (traced B) cdb incoming [])"
  using assms by (intro command_sends) (auto simp: message_of_def wrapper_of_def cbw_opcode)

lemma read_blocks_sends: "0x28 \<in> ops \<Longrightarrow> within (sends (wrapper_of ops)) (read_blocks uw (traced B) lba count bs)"
  unfolding read_blocks_def
  by (auto split: sum.split simp: block_command_Inr intro!: within_intros no_data_command_sends)

lemma flush_sends: "0x35 \<in> ops \<Longrightarrow> within (sends (wrapper_of ops)) (flush (traced B))"
  unfolding flush_def by (intro within_intros sends_order no_data_command_sends) simp_all

lemma eject_sends: "0x1b \<in> ops \<Longrightarrow> within (sends (wrapper_of ops)) (eject (traced B))"
  unfolding eject_def by (intro within_intros sends_order no_data_command_sends) simp_all

lemma test_unit_ready_sends: "0 \<in> ops \<Longrightarrow> within (sends (wrapper_of ops)) (test_unit_ready (traced B))"
  unfolding test_unit_ready_def by (intro within_intros sends_order no_data_command_sends) (simp_all add: replicate_6)

lemma initialize_ready_sends: "0 \<in> ops \<Longrightarrow> 3 \<in> ops \<Longrightarrow> within (sends (wrapper_of ops)) (initialize_ready (traced B))"
  unfolding initialize_ready_def request_sense_def
  by (auto split: error.split intro!: within_intros no_data_command_sends test_unit_ready_sends)

lemma get_geometry_sends: "0x25 \<in> ops \<Longrightarrow> within (sends (wrapper_of ops)) (get_geometry (traced B))"
  unfolding get_geometry_def by (intro within_intros sends_order no_data_command_sends) simp_all

lemma connect_sends:
  assumes "0 \<in> ops" "3 \<in> ops" "0x25 \<in> ops"
  shows "within (sends (wrapper_of ops)) (connect (traced B) a)"
proof -
  have "within (sends (wrapper_of ops)) (\<lambda>s. (Ok (f s), s))" for f :: "('a \<times> wire list) scsi \<Rightarrow> 'b"
    by (simp add: within_def sends_only_refl [THEN reflpD])
  then show ?thesis using assms unfolding connect_def
    by (intro within_intros sends_order initialize_ready_sends get_geometry_sends)
qed

text \<open>The opcodes a read-only session can put on the wire after it is connected.\<close>

abbreviation read_only_ops :: "u8 set" where "read_only_ops \<equiv> {0x28, 0x35, 0x1b}"

definition read_only_step :: "('io \<times> wire list) range_session \<Rightarrow> ('io \<times> wire list) range_session \<Rightarrow> bool" where
  "read_only_step s t \<longleftrightarrow> same_session s t \<and>
     (access s = ReadOnly \<longrightarrow> sends (wrapper_of read_only_ops) (scsi s) (scsi t))"

lemma read_only_order [simp, intro]: "reflp read_only_step" "transp read_only_step"
  using sends_only_refl [of "wrapper_of read_only_ops"] sends_only_trans [of "wrapper_of read_only_ops"]
  by (auto intro!: reflpI transpI simp: read_only_step_def same_session_def dest: reflpD transpD)

lemma with_scsi_read_only:
  "within (sends (wrapper_of read_only_ops)) m \<Longrightarrow> within read_only_step (with_scsi m)"
  by (rule withinI) (auto simp: with_scsi_run read_only_step_def same_session_def dest: withinD)

lemma write_range_refused:
  "access s = ReadOnly \<Longrightarrow> write_range uw B offset bytes s = (Err (Protocol ''managed storage was opened read-only''), s)"
  by (simp add: write_range_def)

lemma range_read_only:
  "within read_only_step (read_range uw (traced B) offset len)"
  "within read_only_step (write_range uw (traced B) offset bytes)"
  "within read_only_step (sync (traced B))"
  "within read_only_step (range_eject (traced B))"
proof -
  show "within read_only_step (read_range uw (traced B) offset len)"
    by (intro read_range_within read_only_order with_scsi_read_only read_blocks_sends) simp
  show "within read_only_step (sync (traced B))" "within read_only_step (range_eject (traced B))"
    unfolding sync_def range_eject_def
    by (intro with_scsi_read_only flush_sends eject_sends; simp)+
  show "within read_only_step (write_range uw (traced B) offset bytes)"
  proof (rule withinI)
    fix s r t assume run: "write_range uw (traced B) offset bytes s = (r, t)"
    show "read_only_step s t"
    proof (cases "access s")
      case ReadOnly
      then show ?thesis using run reflpD [OF read_only_order(1)] by (simp add: write_range_refused)
    next
      case ReadWrite
      then show ?thesis using withinD [OF range_same(2) run] by (simp add: read_only_step_def)
    qed
  qed
qed

section \<open>Panic freedom\<close>

lemma read_blocks_length:
  assumes "read_blocks uw B lba count bs c = (Ok bytes, d)" "block_command uw 0x28 lba count bs = Inr (cdb, n)"
  shows "length bytes = n"
  using assms by (auto simp: read_blocks_def dest: command_length)

text \<open>The multiplication of \<open>write_range\<close> never overflows, so only its two transfers remain.\<close>

lemma write_range_body:
  assumes "32 \<le> uw" "range_inv s" "access s = ReadWrite" "span s offset (length bytes) = Inr (lba, count, skip)"
  shows "write_range uw B offset bytes s =
    (if skip = 0 \<and> unat count * bsize s = length bytes
     then with_scsi (write_blocks uw B lba count (block_size (geometry s)) bytes) s
     else and_then (with_scsi (read_blocks uw B lba count (block_size (geometry s)))) (\<lambda>sectors.
       and_then (unwrap (copy_at skip bytes sectors)) (\<lambda>sectors.
       with_scsi (write_blocks uw B lba count (block_size (geometry s)) sectors))) s)"
proof -
  have "unat count * bsize s < 2 ^ uw"
    using span_transfer [OF assms(2,4)] power_increasing [OF assms(1), of "2 :: nat"] by linarith
  then show ?thesis using assms(3,4) by (simp add: write_range_def checked_mul_def act_simps Let_def)
qed

context bulk_transport begin

abbreviation good :: "'io range_session \<Rightarrow> bool" where
  "good s \<equiv> range_inv s \<and> sane (io (scsi s))"

lemma with_scsi_safe: "safe (\<lambda>c. sane (io c)) m \<Longrightarrow> safe good (with_scsi m)"
  by (rule safeI) (auto simp: with_scsi_run range_inv_def dest: safeD)

lemma read_range_safe: "32 \<le> uw \<Longrightarrow> safe good (read_range uw B offset len)"
proof (rule safeI)
  fix s r t assume uw: "32 \<le> uw" and s: "good s" and run: "read_range uw B offset len s = (r, t)"
  show "r \<noteq> Panicked \<and> good t"
  proof (cases "span s offset len")
    case (Inl e)
    then show ?thesis using s run by (auto simp: read_range_def)
  next
    case (Inr x)
    obtain lba count skip where x: "x = (lba, count, skip)" by (cases x)
    note sp = Inr [unfolded x]
    let ?rd = "with_scsi (read_blocks uw B lba count (block_size (geometry s)))"
    have rd: "safe good ?rd" by (intro with_scsi_safe read_blocks_safe)
    obtain q u where q: "?rd s = (q, u)" by fastforce
    have u: "q \<noteq> Panicked" "good u" using safeD [OF rd s q] by auto
    have "\<exists>ys. slice skip (skip + len) bytes = Some ys" if "q = Ok bytes" for bytes
    proof -
      have "length bytes = unat count * bsize s"
        using q that span_block_command [OF _ sp uw] s
        by (auto simp: with_scsi_run dest: read_blocks_length)
      then show ?thesis using span_Inr [OF _ sp] s by (auto simp: span_covers_def slice_def)
    qed
    then show ?thesis using run q u sp
      by (cases q) (auto simp: read_range_def and_then_run act_simps)
  qed
qed

lemma write_range_safe: "32 \<le> uw \<Longrightarrow> safe good (write_range uw B offset bytes)"
proof (rule safeI)
  fix s r t assume uw: "32 \<le> uw" and s: "good s" and run: "write_range uw B offset bytes s = (r, t)"
  show "r \<noteq> Panicked \<and> good t"
  proof (cases "access s = ReadWrite \<and> (\<exists>x. span s offset (length bytes) = Inr x)")
    case False
    then show ?thesis using s run
      by (cases "span s offset (length bytes)") (auto simp: write_range_def split: if_splits)
  next
    case True
    then obtain lba count skip where sp: "access s = ReadWrite" "span s offset (length bytes) = Inr (lba, count, skip)" by auto
    let ?bs = "block_size (geometry s)"
    let ?rd = "with_scsi (read_blocks uw B lba count ?bs)" and ?wr = "\<lambda>data. with_scsi (write_blocks uw B lba count ?bs data)"
    have rd: "safe good ?rd" and wr: "safe good (?wr data)" for data
      by (intro with_scsi_safe read_blocks_safe write_blocks_safe)+
    have "safe good (and_then ?rd (\<lambda>sectors. and_then (unwrap (copy_at skip bytes sectors)) ?wr))"
    proof (rule safe_and_then [OF rd, where Q = "\<lambda>sectors. length sectors = unat count * bsize s"])
      show "length sectors = unat count * bsize s" if "?rd v = (Ok sectors, w)" for v sectors w
        using that span_block_command [OF _ sp(2) uw] s
        by (auto simp: with_scsi_run dest: read_blocks_length)
      show "safe good (and_then (unwrap (copy_at skip bytes sectors)) ?wr)" if "length sectors = unat count * bsize s" for sectors
        using that span_Inr [OF _ sp(2)] s wr
        by (auto simp: span_covers_def copy_at_def intro!: safe_intros)
    qed
    note slow = safeD [OF this s]
    show ?thesis using run write_range_body [OF uw _ sp] s safeD [OF wr s] slow by (simp split: if_splits)
  qed
qed

lemma range_safe:
  assumes "32 \<le> uw"
  shows "safe good (read_range uw B offset len)" "safe good (write_range uw B offset bytes)"
    "safe good (sync B)" "safe good (range_eject B)"
  unfolding sync_def range_eject_def
  by (intro read_range_safe write_range_safe assms with_scsi_safe flush_safe eject_safe)+

lemma connect_safe: "safe (\<lambda>c. sane (io c)) (connect B a)"
  unfolding connect_def by (intro safe_intros) (simp add: safe_def)

lemma range_steps_good: "range_steps uw B s t \<Longrightarrow> 32 \<le> uw \<Longrightarrow> good s \<Longrightarrow> good t"
proof (induction rule: range_steps.induct)
  case (more s t op)
  then have "good t" by simp
  from safe_kept [OF range_safe(1) this] safe_kept [OF range_safe(2) this] safe_kept [OF range_safe(3) this]
    safe_kept [OF range_safe(4) this]
  show ?case using more.prems by (cases op) (auto simp: range_apply_def)
qed simp

end

section \<open>Properties\<close>

text \<open>
  C25: \<open>RangeSession::span\<close> is exact. On a connected session it accepts exactly the ranges of 1 byte to
  4 MiB that lie inside the device and touch fewer than 2^16 blocks, and what it returns covers
  the bytes asked for with no block to spare: block address times block size plus the skip is
  the offset, the blocks hold the whole range, one block fewer would not, the last block exists,
  and the transfer fits 32 bits. The 64-bit sums it forms do not wrap.
\<close>

theorem span_exact:
  assumes "range_inv s"
  shows "((\<exists>x. span s offset len = Inr x) \<longleftrightarrow> 0 < len \<and> len \<le> max_range_bytes \<and>
      unat offset + len \<le> unat (blocks (geometry s)) * bsize s \<and>
      (unat offset + len + bsize s - 1) div bsize s - unat offset div bsize s < 2 ^ 16) \<and>
    (\<forall>lba count skip. span s offset len = Inr (lba, count, skip) \<longrightarrow>
      unat lba * bsize s + skip = unat offset \<and> skip < bsize s \<and> 1 \<le> unat count \<and>
      skip + len \<le> unat count * bsize s \<and> unat count * bsize s < skip + len + bsize s \<and>
      unat lba + unat count \<le> unat (blocks (geometry s)) \<and> unat count * bsize s < 2 ^ 32)"
proof (intro conjI)
  have fwd: "0 < len \<and> len \<le> max_range_bytes \<and> unat offset + len \<le> unat (size_bytes s) \<and>
      (unat offset + len + bsize s - 1) div bsize s - unat offset div bsize s < 2 ^ 16"
    if "span s offset len = Inr x" for x
    using span_range [OF that] span_nat [OF assms span_range [OF that]] that by (auto split: if_splits)
  show "(\<exists>x. span s offset len = Inr x) \<longleftrightarrow> 0 < len \<and> len \<le> max_range_bytes \<and>
      unat offset + len \<le> unat (blocks (geometry s)) * bsize s \<and>
      (unat offset + len + bsize s - 1) div bsize s - unat offset div bsize s < 2 ^ 16"
    unfolding unat_size_bytes [OF assms, symmetric] using fwd span_nat [OF assms] by fastforce
  show "\<forall>lba count skip. span s offset len = Inr (lba, count, skip) \<longrightarrow>
      unat lba * bsize s + skip = unat offset \<and> skip < bsize s \<and> 1 \<le> unat count \<and>
      skip + len \<le> unat count * bsize s \<and> unat count * bsize s < skip + len + bsize s \<and>
      unat lba + unat count \<le> unat (blocks (geometry s)) \<and> unat count * bsize s < 2 ^ 32"
    using span_Inr [OF assms] span_transfer [OF assms] unfolding span_covers_def by blast
qed

definition unit_session :: "access \<Rightarrow> unit range_session" where
  "unit_session a = \<lparr>scsi = \<lparr>io = (), tag = 0, lun = 0, usable = True\<rparr>,
     geometry = \<lparr>blocks = 8, block_size = 512\<rparr>, access = a\<rparr>"

lemma unit_session_inv: "range_inv (unit_session a)"
  using disk64.bs_pow2 by (simp add: unit_session_def range_inv_def geometry_ok_def)

theorem span_exact_witness:
  "\<exists>x. span (unit_session ReadOnly) 507 20 = Inr x"
  using span_exact [OF unit_session_inv, of ReadOnly 507 20]
  by (simp add: unit_session_def max_range_bytes_def)

text \<open>
  What \<open>RangeSession::connect\<close> establishes: a usable session with the access mode asked for and
  a geometry of at least one and fewer than 2^32 blocks of a power of two of at most 65536
  bytes, so that \<open>size_bytes\<close>, computed in 64 bits, is the true capacity and stays below 2^48.
\<close>

theorem connect_establishes:
  assumes "connect B a c = (Ok s, d)"
  shows "access s = a \<and> usable (scsi s) \<and> is_power_of_two (block_size (geometry s)) \<and> bsize s \<le> 65536 \<and>
    1 \<le> unat (blocks (geometry s)) \<and> unat (blocks (geometry s)) < 2 ^ 32 \<and>
    unat (size_bytes s) = unat (blocks (geometry s)) * bsize s \<and> unat (size_bytes s) < 2 ^ 48"
proof -
  have inv: "range_inv s" "access s = a" "usable (scsi s)" using connect_Ok [OF assms] by auto
  note size = unat_size_bytes [OF inv(1)]
  have g: "bsize s \<le> 65536" "unat (blocks (geometry s)) < 2 ^ 32"
    using inv(1) by (simp_all add: range_inv_def geometry_ok_def)
  have "unat (size_bytes s) < 2 ^ 32 * 65536"
    unfolding size using g range_inv_bsize [OF inv(1)] by (intro mult_less_le_imp_less) auto
  then show ?thesis using inv size by (auto simp: range_inv_def geometry_ok_def)
qed

definition test_disk :: "nat \<Rightarrow> disk scsi" where
  "test_disk n = \<lparr>io = \<lparr>disk_bytes = replicate (n * 512) 0, commands = [], reads = [], pending = None, fail_write = False\<rparr>,
     tag = 0, lun = 0, usable = True\<rparr>"

lemma test_disk_ready: "0 < n \<Longrightarrow> n \<le> 2048 \<Longrightarrow> usable (test_disk n) \<and> disk_idle (io (test_disk n))"
  by (auto simp: test_disk_def disk_idle_def disk_shape_def max_chunk_def)

theorem connect_establishes_witness:
  "\<exists>s d. connect disk_io ReadOnly (test_disk 8) = (Ok s, d) \<and> access s = ReadOnly \<and> unat (size_bytes s) = 4096"
proof -
  obtain s d where s: "connect disk_io ReadOnly (test_disk 8) = (Ok s, d)"
    "geometry s = \<lparr>blocks = of_nat (length (disk_bytes (io (test_disk 8))) div 512), block_size = 512\<rparr>"
    using disk_connect [of "test_disk 8" ReadOnly] test_disk_ready [of 8] by auto
  then show ?thesis using connect_establishes [OF s(1)] by (auto simp: test_disk_def)
qed

text \<open>On a retired session every operation is an error that changes nothing.\<close>

lemma retired_silent:
  assumes "range_inv s" "32 \<le> uw" "\<not> usable (scsi s)"
  shows "\<exists>e. read_range uw B offset len s = (Err e, s)" "\<exists>e. write_range uw B offset bytes s = (Err e, s)"
    "sync B s = (Err Retired, s)" "range_eject B s = (Err Retired, s)"
proof -
  have rd: "\<exists>e. with_scsi (read_blocks uw B lba count bs) s = (Err e, s)" for lba count bs
    using assms(3) by (auto simp: with_scsi_def read_blocks_def command_retired fail_def split: sum.split)
  show "\<exists>e. read_range uw B offset len s = (Err e, s)"
  proof (cases "span s offset len")
    case (Inr x)
    obtain e where "with_scsi (read_blocks uw B (fst x) (fst (snd x)) (block_size (geometry s))) s = (Err e, s)"
      using rd by blast
    then show ?thesis using Inr by (auto simp: read_range_def and_then_run(2) split: prod.split)
  qed (simp add: read_range_def)
  have wr: "\<exists>e. with_scsi (write_blocks uw B lba count bs bytes) s = (Err e, s)" for lba count bs
    using assms(3) by (auto simp: with_scsi_def write_blocks_def command_retired fail_def and_then_def split: sum.split)
  show "\<exists>e. write_range uw B offset bytes s = (Err e, s)"
  proof (cases "access s = ReadWrite \<and> (\<exists>x. span s offset (length bytes) = Inr x)")
    case True
    then obtain lba count skip where "access s = ReadWrite" "span s offset (length bytes) = Inr (lba, count, skip)" by auto
    note body = write_range_body [OF assms(2,1) this, of B]
    obtain e where e: "with_scsi (read_blocks uw B lba count (block_size (geometry s))) s = (Err e, s)" using rd by blast
    show ?thesis using wr unfolding body
      by (simp add: and_then_run(2) [where m = "with_scsi (read_blocks uw B lba count (block_size (geometry s)))", OF e])
  next
    case False
    then show ?thesis by (cases "span s offset (length bytes)") (auto simp: write_range_def)
  qed
  show "sync B s = (Err Retired, s)" "range_eject B s = (Err Retired, s)"
    using assms(3) by (simp_all add: sync_def range_eject_def flush_def eject_def with_scsi_def
        command_retired and_then_def)
qed

lemma range_steps_retired:
  assumes "range_steps uw B s t" "32 \<le> uw" "\<not> usable (scsi s)" "range_inv s"
  shows "t = s"
  using assms
proof (induction rule: range_steps.induct)
  case (more s t op)
  then have "t = s" by simp
  note still = retired_silent [OF more.prems(3,1,2), of B]
  have "range_apply uw B op s = s"
  proof (cases op)
    case (Read_Op offset len)
    then show ?thesis using still(1) [of offset len] by (auto simp: range_apply_def)
  next
    case (Write_Op offset bytes)
    then show ?thesis using still(2) [of offset bytes] by (auto simp: range_apply_def)
  qed (use still(3,4) in \<open>auto simp: range_apply_def\<close>)
  then show ?case using \<open>t = s\<close> by simp
qed simp

text \<open>
  C35: Refusals cost nothing. A write on a read-only session, and a read or a write whose range is
  empty, over 4 MiB or not inside the device, return an error and leave the whole session,
  transport included, exactly as it was: no command is issued and no tag is used up. The same
  holds for every operation on a retired session.
\<close>

theorem refusals_are_silent:
  assumes "range_inv s" "32 \<le> uw"
  shows "(access s = ReadOnly \<longrightarrow> (\<exists>e. write_range uw B offset bytes s = (Err e, s))) \<and>
    (len = 0 \<or> max_range_bytes < len \<or> unat (blocks (geometry s)) * bsize s < unat offset + len \<longrightarrow>
      (\<exists>e. read_range uw B offset len s = (Err e, s)) \<and>
      (length bytes = len \<longrightarrow> (\<exists>e. write_range uw B offset bytes s = (Err e, s)))) \<and>
    (\<not> is_usable s \<longrightarrow> (\<exists>e. read_range uw B offset len s = (Err e, s)) \<and>
      (\<exists>e. write_range uw B offset bytes s = (Err e, s)) \<and> sync B s = (Err Retired, s) \<and>
      range_eject B s = (Err Retired, s))"
proof (intro conjI impI)
  assume "access s = ReadOnly"
  then show "\<exists>e. write_range uw B offset bytes s = (Err e, s)" by (simp add: write_range_refused)
next
  assume bad: "len = 0 \<or> max_range_bytes < len \<or> unat (blocks (geometry s)) * bsize s < unat offset + len"
  have none: "\<exists>e. span s offset len = Inl e"
    using span_range [of s offset len] bad unat_size_bytes [OF assms(1)] by (cases "span s offset len") auto
  then show "\<exists>e. read_range uw B offset len s = (Err e, s)" by (auto simp: read_range_def)
  show "\<exists>e. write_range uw B offset bytes s = (Err e, s)" if "length bytes = len"
    using none that by (auto simp: write_range_def)
qed (use retired_silent [OF assms] in \<open>auto simp: is_usable_def\<close>)

theorem refusals_are_silent_witness:
  "\<exists>e. write_range 64 hanging_io 0 [4] (unit_session ReadOnly) = (Err e, unit_session ReadOnly) \<and>
    (\<exists>f. read_range 64 hanging_io 4096 1 (unit_session ReadOnly) = (Err f, unit_session ReadOnly))"
proof -
  note t = refusals_are_silent [OF unit_session_inv [of ReadOnly] , of 64 hanging_io 4096 "[4]" 1]
  note u = refusals_are_silent [OF unit_session_inv [of ReadOnly] , of 64 hanging_io 0 "[4]" 1]
  show ?thesis using t u by (simp add: unit_session_def)
qed

text \<open>
  C9: A session opened \<open>ReadOnly\<close> never sends a WRITE. Over any transport, whatever it answers, from
  the first command of \<open>connect\<close> through any sequence of operations, including write attempts,
  every message sent is a 31-byte command block wrapper whose opcode is TEST UNIT READY, REQUEST
  SENSE, READ CAPACITY, READ(10), SYNCHRONIZE CACHE or START STOP UNIT: no data stage goes out.
\<close>

theorem read_only_never_writes:
  assumes "connect (traced B) ReadOnly c = (Ok s, d)" "range_steps uw (traced B) s t"
  shows "\<exists>ws. wire_log (scsi t) = wire_log c @ ws \<and>
    (\<forall>m. Sent m \<in> set ws \<longrightarrow> length m = 31 \<and> m ! 15 \<in> {0, 3, 0x25, 0x28, 0x35, 0x1b})"
proof -
  let ?P = "wrapper_of {0, 3, 0x25, 0x28, 0x35, 0x1b}"
  have c: "sends ?P c d" by (rule withinD [OF connect_sends assms(1)]) simp_all
  have s: "scsi s = d" "access s = ReadOnly" using connect_Ok [OF assms(1)] by auto
  have "read_only_step s t" using assms(2) by (rule range_steps_within) (intro range_read_only read_only_order)+
  then have "sends (wrapper_of read_only_ops) (scsi s) (scsi t)" using s(2) by (simp add: read_only_step_def)
  then have "sends ?P (scsi s) (scsi t)" by (rule sends_only_mono [rotated]) (auto simp: wrapper_of_def)
  then have "sends ?P d (scsi t)" using s(1) by simp
  with c have "sends ?P c (scsi t)" by (rule transpD [OF sends_only_trans])
  then show ?thesis by (auto simp: sends_only_def wrapper_of_def)
qed

lemma max_u32_as_u64: "ucast (- 1 :: u32) = (0xffffffff :: u64)"
  by (rule iffD2 [OF word_unat_eq_iff]) (simp only: unat_ucast_u32 unat_max_u32, simp)

theorem read_only_never_writes_witness:
  "\<exists>s d. connect (traced fake_io) ReadOnly (demo [csw_bytes 1 0 0, [0, 0, 0, 7, 0, 0, 2, 0], csw_bytes 2 0 0]) = (Ok s, d) \<and>
    (\<exists>ws. wire_log (scsi (range_apply 64 (traced fake_io) (Write_Op 0 [4]) s)) = ws \<and>
      (\<forall>m. Sent m \<in> set ws \<longrightarrow> length m = 31))"
proof -
  have "is_power_of_two 512" by (rule disk64.bs_pow2)
  then have "\<exists>s d. connect (traced fake_io) ReadOnly (demo [csw_bytes 1 0 0, [0, 0, 0, 7, 0, 0, 2, 0], csw_bytes 2 0 0]) = (Ok s, d)"
    by (simp add: connect_def initialize_ready_def test_unit_ready_def get_geometry_def fake_run cbw_def slice_def
        u32_from_be_bytes_def max_u32_as_u64)
  then obtain s d where run: "connect (traced fake_io) ReadOnly (demo [csw_bytes 1 0 0, [0, 0, 0, 7, 0, 0, 2, 0], csw_bytes 2 0 0]) = (Ok s, d)"
    by blast
  have "range_steps 64 (traced fake_io) s (range_apply 64 (traced fake_io) (Write_Op 0 [4]) s)"
    by (intro range_steps.intros)
  from read_only_never_writes [OF run this] run show ?thesis by auto
qed

text \<open>
  Over every transport that keeps the contract of \<open>BulkIo\<close>, with a \<open>usize\<close> of at least 32 bits,
  no sequence of operations on a connected session panics: the slices \<open>bytes[skip..skip + length]\<close>
  and \<open>sectors[skip..skip + bytes.len()]\<close> are in range and \<open>count * block_size\<close> does not overflow.
\<close>

theorem range_never_panics:
  assumes "bulk_transport B sane" "32 \<le> uw" "range_inv s" "sane (io (scsi s))" "range_steps uw B s t"
  shows "fst (read_range uw B offset len t) \<noteq> Panicked \<and> fst (write_range uw B offset bytes t) \<noteq> Panicked \<and>
    fst (sync B t) \<noteq> Panicked \<and> fst (range_eject B t) \<noteq> Panicked"
proof -
  have "range_inv t \<and> sane (io (scsi t))"
    using assms by (intro bulk_transport.range_steps_good [OF assms(1) assms(5)]) simp_all
  then show ?thesis
    using safe_total [OF bulk_transport.range_safe(1) [OF assms(1,2)], of t] safe_total [OF bulk_transport.range_safe(2) [OF assms(1,2)], of t]
      safe_total [OF bulk_transport.range_safe(3) [OF assms(1,2)], of t] safe_total [OF bulk_transport.range_safe(4) [OF assms(1,2)], of t]
    by simp
qed

theorem range_never_panics_witness:
  "fst (read_range 32 fake_io 0 1 \<lparr>scsi = \<lparr>io = \<lparr>fake_reads = [[1, 2, 3]], fake_short = False\<rparr>, tag = 0, lun = 0, usable = True\<rparr>,
     geometry = \<lparr>blocks = 8, block_size = 512\<rparr>, access = ReadOnly\<rparr>) \<noteq> Panicked"
  using range_never_panics [OF fake.bulk_transport_axioms _ _ _ range_steps.none, of 32
    "\<lparr>scsi = \<lparr>io = \<lparr>fake_reads = [[1, 2, 3]], fake_short = False\<rparr>, tag = 0, lun = 0, usable = True\<rparr>,
     geometry = \<lparr>blocks = 8, block_size = 512\<rparr>, access = ReadOnly\<rparr>"] disk64.bs_pow2
  by (simp add: range_inv_def geometry_ok_def)

lemma command_issued_cases:
  assumes "command B cdb incoming outgoing s = (r, u)" "usable s" "\<not> bad_shape cdb incoming outgoing"
    "max incoming (length outgoing) < 2 ^ 32" "usable u"
  shows "(\<exists>d. r = Ok d) \<or> r = Err CommandFailed"
  using assms(1) unfolding command_issue [OF assms(2-4)]
  by (rule exchange_cases) (use assms(5) in auto)

lemma range_write_blocks_settles:
  assumes inv: "range_inv s" and sp: "span s offset len = Inr (lba, count, skip)" and uw: "32 \<le> uw"
    and n: "length data = unat count * bsize s" and v: "usable (scsi v)"
    and run: "with_scsi (write_blocks uw B lba count (block_size (geometry s)) data) v = (r, u)" and u: "usable (scsi u)"
  shows "r = Ok () \<or> r = Err CommandFailed"
proof -
  let ?cdb = "[0x2a, 0] @ to_be_bytes_u32 lba @ [0] @ to_be_bytes_u16 count @ [0]"
  have len: "length data < 2 ^ 32" using span_transfer [OF inv sp] n by simp
  from run have "and_then (command B ?cdb 0 data) (\<lambda>_. ret ()) (scsi v) = (r, scsi u)"
    unfolding with_scsi_run write_blocks_def span_block_command [OF inv sp uw] using n by auto
  then obtain q where q: "command B ?cdb 0 data (scsi v) = (q, scsi u)"
    "\<And>d. q = Ok d \<Longrightarrow> r = Ok ()" "\<And>e. q = Err e \<Longrightarrow> r = Err e"
    by (cases "command B ?cdb 0 data (scsi v)") (auto simp: and_then_def ret_def split: outcome.splits)
  have "\<not> bad_shape ?cdb 0 data" by (simp add: bad_shape_def)
  from command_issued_cases [OF q(1) v this _ u] len q show ?thesis by auto
qed

text \<open>
  An uncertain write retires the session without a retry or a flush. If \<open>write_range\<close> leaves the
  session usable then it changed nothing, or it succeeded, or the device refused a command in a
  well-framed status; after any other error, after a dropped future and after a panic no
  sequence of further operations changes anything, so nothing more is ever sent.
\<close>

theorem uncertain_write_retires:
  assumes "range_inv s" "32 \<le> uw" "write_range uw B offset bytes s = (r, t)"
  shows "(usable (scsi t) \<longrightarrow> t = s \<or> r = Ok () \<or> r = Err CommandFailed) \<and>
    (\<not> usable (scsi t) \<longrightarrow> range_steps uw B t v \<longrightarrow> v = t)"
proof (intro conjI impI)
  assume u: "usable (scsi t)"
  show "t = s \<or> r = Ok () \<or> r = Err CommandFailed"
  proof (cases "usable (scsi s) \<and> access s = ReadWrite \<and> (\<exists>x. span s offset (length bytes) = Inr x)")
    case False
    have "t = s" if "\<not> usable (scsi s)"
      using retired_silent(2) [OF assms(1,2) that, of B offset bytes] assms(3) by auto
    then show ?thesis using False assms(3)
      by (cases "span s offset (length bytes)") (auto simp: write_range_def split: if_splits)
  next
    case True
    then obtain lba count skip where sp: "access s = ReadWrite" "span s offset (length bytes) = Inr (lba, count, skip)"
      and live: "usable (scsi s)" by auto
    note body = trans [OF write_range_body [OF assms(2,1) sp, of B, symmetric] assms(3)]
    note settle = range_write_blocks_settles [OF assms(1) sp(2) assms(2)]
    let ?rd = "with_scsi (read_blocks uw B lba count (block_size (geometry s)))"
    show ?thesis
    proof (cases "skip = 0 \<and> unat count * bsize s = length bytes")
      case True
      then show ?thesis using body settle [OF _ live _ u] by simp
    next
      case slow: False
      obtain q w where q: "?rd s = (q, w)" by fastforce
      obtain c where c: "command B ([0x28, 0] @ to_be_bytes_u32 lba @ [0] @ to_be_bytes_u16 count @ [0])
          (unat count * bsize s) [] (scsi s) = (q, c)" "w = s\<lparr>scsi := c\<rparr>"
        using q span_block_command [OF assms(1) sp(2) assms(2)] by (auto simp: with_scsi_run read_blocks_def)
      show ?thesis
      proof (cases "\<exists>sectors. q = Ok sectors")
        case True
        then obtain sectors where ok: "q = Ok sectors" ..
        note rd = and_then_run(1) [where m = ?rd, OF q [unfolded ok]]
        have n: "length sectors = unat count * bsize s" "usable (scsi w)" using c ok by (auto dest: command_length elim: command_cases)
        obtain new where new: "copy_at skip bytes sectors = Some new" "length new = unat count * bsize s"
          using span_Inr [OF assms(1) sp(2)] n by (auto simp: span_covers_def copy_at_def)
        have "with_scsi (write_blocks uw B lba count (block_size (geometry s)) new) w = (r, t)"
          using body new unfolding if_not_P [OF slow] by (simp add: act_simps rd)
        then show ?thesis using settle [OF new(2) n(2) _ u] by simp
      next
        case False
        have t: "t = w" "\<And>e. q = Err e \<Longrightarrow> r = Err e"
          using False body slow q by (cases q; force simp: and_then_def)+
        have "\<not> bad_shape ([0x28, 0] @ to_be_bytes_u32 lba @ [0] @ to_be_bytes_u16 count @ [0]) (unat count * bsize s) []"
          by (simp add: bad_shape_def)
        from command_issued_cases [OF c(1) live this] span_transfer [OF assms(1) sp(2)] u t c False
        show ?thesis by auto
      qed
    qed
  qed
next
  assume dead: "\<not> usable (scsi t)" and "range_steps uw B t v"
  have "range_inv t" using withinD [OF range_same(2) assms(3)] assms(1) by (simp add: same_session_def range_inv_def)
  with \<open>range_steps uw B t v\<close> dead assms(2) show "v = t" by (intro range_steps_retired)
qed

lemma unit_span: "span (unit_session a) 0 (Suc 0) = Inr (0, 1, 0)"
  by (simp add: span_def unit_session_def size_bytes_def max_range_bytes_def checked_add_def div_ceil_def u16_try_from_def)

theorem uncertain_write_retires_witness:
  "\<exists>t. write_range 64 hanging_io 0 [4] (unit_session ReadWrite) = (Dropped, t) \<and> \<not> usable (scsi t) \<and>
    range_apply 64 hanging_io Sync_Op t = t"
proof -
  let ?s = "unit_session ReadWrite"
  have bs: "is_power_of_two 512" by (rule disk64.bs_pow2)
  have "\<exists>t. write_range 64 hanging_io 0 [4] ?s = (Dropped, t) \<and> t \<noteq> ?s"
    using bs by (simp add: write_range_def unit_span checked_mul_def act_simps)
      (simp add: unit_session_def with_scsi_def read_blocks_def block_command_def checked_mul_def checked_add_def
        command_def bad_shape_def u32_try_from_def exchange_def with_io_def hanging_io_def and_then_def act_simps)
  then obtain t where t: "write_range 64 hanging_io 0 [4] ?s = (Dropped, t)" "t \<noteq> ?s" by blast
  have "range_steps 64 hanging_io t (range_apply 64 hanging_io Sync_Op t)" by (intro range_steps.intros)
  then show ?thesis using uncertain_write_retires [OF unit_session_inv _ t(1)] t by auto
qed

text \<open>
  C2: Refinement to a flat array. Over any device that behaves as a Bulk-Only Transport disk on the
  wire, sending its data in chunks of any size, \<open>read_range\<close> of a range \<open>span\<close> accepts succeeds
  and returns exactly that slice of the device's bytes and changes none; \<open>write_range\<close> succeeds
  and replaces exactly that slice, aligned to blocks or not; \<open>sync\<close> succeeds and changes nothing.
  Each leaves the session usable and the device idle, so the next operation starts afresh.
\<close>

theorem flat_array_refinement:
  assumes "bot_target uw B bs disk idle sending receiving" "range_inv s" "usable (scsi s)" "idle (io (scsi s))"
    "block_size (geometry s) = bs" "length (disk (io (scsi s))) = unat (blocks (geometry s)) * unat bs"
  shows "(\<forall>x. span s offset len = Inr x \<longrightarrow>
      (\<exists>t. read_range uw B offset len s = (Ok (take len (drop (unat offset) (disk (io (scsi s))))), t) \<and>
        disk (io (scsi t)) = disk (io (scsi s)) \<and> usable (scsi t) \<and> idle (io (scsi t)))) \<and>
    (\<forall>x. access s = ReadWrite \<and> span s offset (length bytes) = Inr x \<longrightarrow>
      (\<exists>t. write_range uw B offset bytes s = (Ok (), t) \<and>
        disk (io (scsi t)) = take (unat offset) (disk (io (scsi s))) @ bytes @
          drop (unat offset + length bytes) (disk (io (scsi s))) \<and>
        usable (scsi t) \<and> idle (io (scsi t)))) \<and>
    (\<exists>t. sync B s = (Ok (), t) \<and> disk (io (scsi t)) = disk (io (scsi s)) \<and> usable (scsi t) \<and> idle (io (scsi t)))"
proof -
  note s = bot_target.attachedI [OF assms]
  note live = bot_target.attachedD [OF assms(1)]
  show ?thesis
  proof (intro conjI allI impI)
    fix x assume "span s offset len = Inr x"
    from bot_target.target_flat(1) [OF assms(1) s this] live
    show "\<exists>t. read_range uw B offset len s = (Ok (take len (drop (unat offset) (disk (io (scsi s))))), t) \<and>
        disk (io (scsi t)) = disk (io (scsi s)) \<and> usable (scsi t) \<and> idle (io (scsi t))" by blast
  next
    fix x assume "access s = ReadWrite \<and> span s offset (length bytes) = Inr x"
    then have "access s = ReadWrite" "span s offset (length bytes) = Inr x" by auto
    from bot_target.target_flat(2) [OF assms(1) s this] live
    show "\<exists>t. write_range uw B offset bytes s = (Ok (), t) \<and>
        disk (io (scsi t)) = take (unat offset) (disk (io (scsi s))) @ bytes @
          drop (unat offset + length bytes) (disk (io (scsi s))) \<and>
        usable (scsi t) \<and> idle (io (scsi t))" unfolding overwrite_def by blast
  next
    from bot_target.target_flat(3) [OF assms(1) s] live
    show "\<exists>t. sync B s = (Ok (), t) \<and> disk (io (scsi t)) = disk (io (scsi s)) \<and> usable (scsi t) \<and> idle (io (scsi t))"
      by blast
  qed
qed

text \<open>The journey of the bytes on the disk: out, synced, and back over a fresh connection.\<close>

lemma disk_round:
  assumes "usable c" "disk_idle (io c)" "32 \<le> uw"
    and "bytes \<noteq> []" "unat offset + length bytes \<le> length (disk_bytes (io c))"
  shows "\<exists>s d t u f d' v. connect disk_io ReadWrite c = (Ok s, d) \<and> write_range uw disk_io offset bytes s = (Ok (), t) \<and>
    sync disk_io t = (Ok (), u) \<and> connect disk_io ReadOnly \<lparr>io = io (scsi u), tag = 0, lun = 0, usable = True\<rparr> = (Ok f, d') \<and>
    read_range uw disk_io offset (length bytes) f = (Ok bytes, v) \<and>
    disk_bytes (io (scsi u)) = overwrite (unat offset) bytes (disk_bytes (io c)) \<and>
    disk_bytes (io (scsi v)) = disk_bytes (io (scsi u))"
proof -
  let ?D = "disk_bytes (io c)"
  note target = disk_bot_target [OF assms(3)]
  define n where "n = length ?D div 512"
  have n: "n \<le> 2048" "length ?D = n * 512"
    using assms(2) by (auto simp: disk_idle_def disk_shape_def max_chunk_def n_def)
  have spans: "\<exists>x. span r offset (length bytes) = Inr x"
    if "range_inv r" "geometry r = \<lparr>blocks = of_nat n, block_size = 512\<rparr>" for r :: "disk range_session"
  proof -
    have u: "unat (blocks (geometry r)) = n" "bsize r = 512" using that(2) n by (simp_all add: unat_of_nat)
    have size: "unat offset + length bytes \<le> unat (size_bytes r)" using unat_size_bytes [OF that(1)] u n assms(5) by simp
    have len: "0 < length bytes" "length bytes \<le> max_range_bytes" using assms(4,5) n by (simp_all add: max_range_bytes_def)
    have "(unat offset + length bytes + 512 - 1) div 512 \<le> 2048" using assms(5) n by (simp add: div_le_mono [of _ "2048 * 512 + 511" 512, simplified])
    then show ?thesis using span_nat [OF that(1) len size] u by auto
  qed
  obtain s d where s: "connect disk_io ReadWrite c = (Ok s, d)" "disk64.attached s" "access s = ReadWrite"
    "geometry s = \<lparr>blocks = of_nat n, block_size = 512\<rparr>" "disk_bytes (io (scsi s)) = ?D"
    using disk_connect [OF assms(1,2), of ReadWrite] by (auto simp: n_def)
  obtain x where x: "span s offset (length bytes) = Inr x" using spans disk64.attachedD s by blast
  obtain t where t: "write_range uw disk_io offset bytes s = (Ok (), t)" "disk64.attached t"
    "disk_bytes (io (scsi t)) = overwrite (unat offset) bytes ?D"
    using bot_target.target_flat(2) [OF target s(2,3) x] s(5) by auto
  obtain u where u: "sync disk_io t = (Ok (), u)" "disk64.attached u" "disk_bytes (io (scsi u)) = disk_bytes (io (scsi t))"
    using disk64.target_flat(3) [OF t(2)] by auto
  let ?c = "\<lparr>io = io (scsi u), tag = 0, lun = 0, usable = True\<rparr> :: disk scsi"
  have len: "length (disk_bytes (io ?c)) = length ?D" using u(3) t(3) assms(5) by (simp add: length_overwrite)
  obtain f d' where f: "connect disk_io ReadOnly ?c = (Ok f, d')" "disk64.attached f"
    "geometry f = \<lparr>blocks = of_nat n, block_size = 512\<rparr>" "disk_bytes (io (scsi f)) = disk_bytes (io ?c)"
    using disk_connect [of ?c ReadOnly] disk64.attachedD [OF u(2)] len by (auto simp: n_def)
  obtain y where y: "span f offset (length bytes) = Inr y" using spans disk64.attachedD f by blast
  obtain v where v: "read_range uw disk_io offset (length bytes) f =
      (Ok (take (length bytes) (drop (unat offset) (disk_bytes (io (scsi f))))), v)"
    "disk_bytes (io (scsi v)) = disk_bytes (io (scsi f))"
    using bot_target.target_flat(1) [OF target f(2) y] by auto
  have after: "disk_bytes (io (scsi u)) = overwrite (unat offset) bytes ?D" "disk_bytes (io (scsi v)) = disk_bytes (io (scsi u))"
    using v(2) f(4) u(3) t(3) by simp_all
  have "take (length bytes) (drop (unat offset) (disk_bytes (io (scsi f)))) = bytes"
    using after overwrite_read [OF assms(5)] unfolding v(2) by simp
  then show ?thesis using s(1) t(1) u(1) f(1) v(1) after by force
qed

text \<open>
  The whole stack, from the wire up: on the in-memory disk of the crate's tests, of any size up
  to 1 MiB and with any contents, an owner that connects read-write, writes any in-range bytes
  at any offset, syncs, gives the transport back and connects afresh read-only then reads back
  exactly those bytes, and every byte of the disk outside the range is what it was before.
\<close>

theorem disk_write_read_back:
  assumes "usable c" "disk_idle (io c)" "32 \<le> uw"
    and "bytes \<noteq> []" "unat offset + length bytes \<le> length (disk_bytes (io c))"
  shows "\<exists>s d t u c' f d' v. connect disk_io ReadWrite c = (Ok s, d) \<and> write_range uw disk_io offset bytes s = (Ok (), t) \<and>
    sync disk_io t = (Ok (), u) \<and> scsi_new disk_io (io (scsi u)) 0 = Inr c' \<and>
    connect disk_io ReadOnly c' = (Ok f, d') \<and> read_range uw disk_io offset (length bytes) f = (Ok bytes, v) \<and>
    (\<forall>k < length (disk_bytes (io c)). k < unat offset \<or> unat offset + length bytes \<le> k \<longrightarrow>
      disk_bytes (io (scsi v)) ! k = disk_bytes (io c) ! k)"
proof -
  obtain s d t u f d' v where r: "connect disk_io ReadWrite c = (Ok s, d)" "write_range uw disk_io offset bytes s = (Ok (), t)"
    "sync disk_io t = (Ok (), u)" "connect disk_io ReadOnly \<lparr>io = io (scsi u), tag = 0, lun = 0, usable = True\<rparr> = (Ok f, d')"
    "read_range uw disk_io offset (length bytes) f = (Ok bytes, v)"
    "disk_bytes (io (scsi v)) = overwrite (unat offset) bytes (disk_bytes (io c))"
    using disk_round [OF assms] by metis
  have "scsi_new disk_io (io (scsi u)) 0 = Inr \<lparr>io = io (scsi u), tag = 0, lun = 0, usable = True\<rparr>" by (simp add: scsi_new_def)
  then show ?thesis using r assms(5) by (force simp: overwrite_nth)
qed

theorem disk_write_read_back_witness:
  "\<exists>s d t u c' f d' v. connect disk_io ReadWrite (test_disk 8) = (Ok s, d) \<and>
    write_range 32 disk_io 507 (replicate 20 77) s = (Ok (), t) \<and> sync disk_io t = (Ok (), u) \<and>
    scsi_new disk_io (io (scsi u)) 0 = Inr c' \<and> connect disk_io ReadOnly c' = (Ok f, d') \<and>
    read_range 32 disk_io 507 20 f = (Ok (replicate 20 77), v)"
  using disk_write_read_back [of "test_disk 8" 32 "replicate 20 77" 507] test_disk_ready [of 8]
  by (simp add: test_disk_def) blast

theorem flat_array_refinement_witness:
  "\<exists>s t. connect disk_io ReadOnly (test_disk 8) = (Ok s, scsi s) \<and>
    read_range 64 disk_io 507 20 s = (Ok (replicate 20 0), t)"
proof -
  obtain s d where s: "connect disk_io ReadOnly (test_disk 8) = (Ok s, d)" "disk64.attached s"
    "geometry s = \<lparr>blocks = 8, block_size = 512\<rparr>" "disk_bytes (io (scsi s)) = replicate 4096 0"
    using disk_connect [of "test_disk 8" ReadOnly] test_disk_ready [of 8] by (auto simp: test_disk_def)
  have live: "range_inv s" "usable (scsi s)" "disk_idle (io (scsi s))" using disk64.attachedD [OF s(2)] by auto
  have x: "span s 507 20 = Inr (0, 2, 507)" using s(3)
    by (simp add: span_def size_bytes_def max_range_bytes_def checked_add_def div_ceil_def u16_try_from_def)
  have "scsi s = d" using connect_Ok [OF s(1)] by simp
  moreover have "\<exists>t. read_range 64 disk_io 507 20 s = (Ok (take 20 (drop 507 (replicate 4096 0))), t)"
    using flat_array_refinement [OF disk_bot_target live, where uw = 64 and offset = 507 and len = 20 and bytes = "[]"] x s(3,4) by auto
  ultimately show ?thesis using s(1) by auto
qed

end
