(* ===== verification/Managed_Web.thy ===== *)
theory Managed_Web
  imports Nusb_Properties Range_Properties
begin

text \<open>
  \<open>canoe-usb-web/src/managed.rs\<close>: the browser's managed storage session, a \<open>RangeSession\<close> that is
  taken out for the time of each operation and put back only after a certain outcome. The
  session and its transport act on one world; a stored client is a handle into it, so taking a
  client out hands it the current world.
\<close>

section \<open>Errors and races\<close>

text \<open>
  A JavaScript error value: the text of a Rust error, a text of this crate, or an error with a
  failed cleanup attached (\<open>attachCleanupError\<close>), whose cause is the primary error.
\<close>

datatype js_error = Thrown error | Text string | Attached js_error js_error

fun js_cause :: "js_error \<Rightarrow> js_error" where
  "js_cause (Attached p c) = js_cause p"
| "js_cause e = e"

definition attach_cleanup_error :: "js_error \<Rightarrow> js_error \<Rightarrow> js_error" where
  "attach_cleanup_error p c = Attached p c"

text \<open>\<open>bounded\<close>: the operation's result, or \<open>None\<close> once the timer has won and the operation is dropped.\<close>

definition bounded :: "('w, 'e, 'a) act \<Rightarrow> ('w, 'f, ('e + 'a) option) act" where
  "bounded m = deadline awaited m"

definition close_after_failure ::
  "('w, 'i, 'n) web_usb \<Rightarrow> js_error \<Rightarrow> 'i option \<Rightarrow> ('w, js_error, js_error) act" where
  "close_after_failure W first interface =
     match_result (close_web awaited W interface) (\<lambda>_. ret first)
       (\<lambda>cleanup. ret (attach_cleanup_error first (Thrown cleanup)))"

section \<open>Choosing the interface\<close>

record js_alternate =
  js_class :: nat
  js_subclass :: nat
  js_protocol :: nat
  js_setting :: nat

record js_interface =
  js_number :: nat
  js_claimed :: bool
  js_active :: js_alternate
  js_alternates :: "js_alternate list"

record js_configuration =
  js_value :: nat
  js_interfaces :: "js_interface list"

record 'w js_device =
  js_vendor :: u16
  js_product :: u16
  js_opened :: "'w \<Rightarrow> bool"
  js_open :: "('w, js_error, unit) act"
  js_configuration :: "'w \<Rightarrow> js_configuration option"
  js_configurations :: "js_configuration list"
  js_select :: "nat \<Rightarrow> ('w, js_error, unit) act"

definition managed_alternate :: "js_alternate \<Rightarrow> bool" where
  "managed_alternate a \<longleftrightarrow> js_class a = 255 \<and> js_subclass a = 6 \<and> js_protocol a = 80"

text \<open>The inline JavaScript function \<open>managedInterface\<close>.\<close>

definition select_managed :: "'w js_device \<Rightarrow> ('w, js_error, js_configuration) act" where
  "select_managed D = (\<lambda>w. case js_configuration D w of
     Some c \<Rightarrow> (Ok c, w)
   | None \<Rightarrow>
       (case filter (\<lambda>c. \<exists>i\<in>set (js_interfaces c). \<exists>a\<in>set (js_alternates i). managed_alternate a) (js_configurations D) of
          [c] \<Rightarrow> and_then (js_select D (js_value c)) (\<lambda>_ w.
            (case js_configuration D w of
               Some c \<Rightarrow> (Ok c, w)
             | None \<Rightarrow> (Err (Text ''TypeError''), w))) w
        | _ \<Rightarrow> (Err (Text ''Expected one managed USB configuration''), w)))"

definition managed_interface :: "'w js_device \<Rightarrow> ('w, js_error, nat \<times> nat) act" where
  "managed_interface D =
     and_then (require (\<not> (js_vendor D \<noteq> 0x1209 \<or> js_product D \<noteq> 0xca0f)) (Text ''Expected the managed1209:ca0f export'')) (\<lambda>_.
     and_then (\<lambda>w. if \<not> js_opened D w then js_open D w else (Ok (), w)) (\<lambda>_.
     and_then (select_managed D) (\<lambda>c.
     (case filter (\<lambda>i. managed_alternate (js_active i)) (js_interfaces c) of
        [i] \<Rightarrow> if js_claimed i then fail (Text ''Managed USB interface is already claimed'')
               else ret (js_number i, js_setting (js_active i))
      | _ \<Rightarrow> fail (Text ''Expected one active managed ff/06/50 interface'')))))"

section \<open>The session\<close>

record ('h, 'w, 'i) managed =
  client :: "('h \<times> 'w) range_session option"
  interface_owner :: "'i option"
  interface :: u8
  alternate :: u8
  max_lun :: u8
  m_access :: access
  world :: 'w

definition enter :: "'w \<Rightarrow> ('h \<times> 'w) range_session \<Rightarrow> ('h \<times> 'w) range_session" where
  "enter w c = c\<lparr>scsi := (scsi c)\<lparr>io := (fst (io (scsi c)), w)\<rparr>\<rparr>"

definition leave :: "('h \<times> 'w) range_session \<Rightarrow> 'w" where
  "leave c = snd (io (scsi c))"

definition on_session_world :: "('w, 'e, 'a) act \<Rightarrow> (('h, 'w, 'i) managed, 'e, 'a) act" where
  "on_session_world m = (\<lambda>s. case m (world s) of (r, v) \<Rightarrow> (r, s\<lparr>world := v\<rparr>))"

definition access_mode :: "string \<Rightarrow> js_error + access" where
  "access_mode value =
     (if value = ''read-only'' then Inr ReadOnly
      else if value = ''read-write'' then Inr ReadWrite
      else Inl (Text ''access must be read-only or read-write''))"

definition access_name :: "access \<Rightarrow> string" where
  "access_name a = (case a of ReadOnly \<Rightarrow> ''read-only'' | ReadWrite \<Rightarrow> ''read-write'')"

definition m_usable :: "('h, 'w, 'i) managed \<Rightarrow> bool" where
  "m_usable s = (case client s of None \<Rightarrow> False | Some c \<Rightarrow> is_usable c)"

text \<open>Blocks, block size and bytes, which JavaScript receives as doubles.\<close>

definition capacity :: "('h, 'w, 'i) managed \<Rightarrow> js_error + (u64 \<times> u32 \<times> u64)" where
  "capacity s = (case client s of
     None \<Rightarrow> Inl (Text ''managed session is closed'')
   | Some c \<Rightarrow> Inr (blocks (geometry c), block_size (geometry c), size_bytes c))"

text \<open>Both failures of \<open>finish\<close> close the device under the primary error.\<close>

definition close_failed ::
  "('w, 'i, 'n) web_usb \<Rightarrow> js_error \<Rightarrow> (('h, 'w, 'i) managed, js_error, 'a) act" where
  "close_failed W first s =
     and_then (on_session_world (close_after_failure W first (interface_owner s))) fail
       (s\<lparr>interface_owner := None\<rparr>)"

definition finish ::
  "('w, 'i, 'n) web_usb \<Rightarrow> ('h \<times> 'w) range_session \<Rightarrow> (error + 'a) option \<Rightarrow> (('h, 'w, 'i) managed, js_error, 'a) act" where
  "finish W c result s = (case result of
     Some (Inr value) \<Rightarrow> (Ok value, s\<lparr>client := Some c\<rparr>)
   | Some (Inl failure) \<Rightarrow>
       if is_usable c then (Err (Thrown failure), s\<lparr>client := Some c\<rparr>)
       else close_failed W (Thrown failure) s
   | None \<Rightarrow> close_failed W (Text ''managed USB operation timed out; reconnect'') s)"

text \<open>\<open>let mut client = self.take()?; let result = bounded(..).await; self.finish(client, result).await\<close>\<close>

definition with_client ::
  "(('h \<times> 'w) range_session \<Rightarrow> (error + 'a) option \<Rightarrow> (('h, 'w, 'i) managed, js_error, 'b) act) \<Rightarrow>
   (('h \<times> 'w) range_session, error, 'a) act \<Rightarrow> (('h, 'w, 'i) managed, js_error, 'b) act" where
  "with_client k m s = (case client s of
     None \<Rightarrow> (Err (Text ''managed session is closed or uncertain; reconnect''), s)
   | Some c \<Rightarrow>
       (case bounded m (enter (world s) c) of
          (Ok result, d) \<Rightarrow> k d result (s\<lparr>client := None, world := leave d\<rparr>)
        | (Err e, d) \<Rightarrow> (Err e, s\<lparr>client := None, world := leave d\<rparr>)
        | (Dropped, d) \<Rightarrow> (Dropped, s\<lparr>client := None, world := leave d\<rparr>)
        | (Panicked, d) \<Rightarrow> (Panicked, s\<lparr>client := None, world := leave d\<rparr>)))"

definition m_read_range ::
  "nat \<Rightarrow> ('h \<times> 'w) bulk_io \<Rightarrow> ('w, 'i, 'n) web_usb \<Rightarrow> u64 \<Rightarrow> u32 \<Rightarrow> (('h, 'w, 'i) managed, js_error, u8 list) act" where
  "m_read_range uw B W offset len = with_client (finish W) (read_range uw B offset (unat len))"

definition m_write_range ::
  "nat \<Rightarrow> ('h \<times> 'w) bulk_io \<Rightarrow> ('w, 'i, 'n) web_usb \<Rightarrow> u64 \<Rightarrow> u8 list \<Rightarrow> (('h, 'w, 'i) managed, js_error, unit) act" where
  "m_write_range uw B W offset bytes s =
     (if length bytes = 0 \<or> max_range_bytes < length bytes
      then (Err (Text ''range length must be 1 byte through 4 MiB''), s)
      else if m_access s \<noteq> ReadWrite
      then (Err (Text ''managed storage was opened read-only''), s)
      else with_client (finish W) (write_range uw B offset bytes) s)"

definition m_sync ::
  "('h \<times> 'w) bulk_io \<Rightarrow> ('w, 'i, 'n) web_usb \<Rightarrow> (('h, 'w, 'i) managed, js_error, unit) act" where
  "m_sync B W = with_client (finish W) (sync B)"

definition eject_finish ::
  "('w, 'i, 'n) web_usb \<Rightarrow> ('h \<times> 'w) range_session \<Rightarrow> (error + unit) option \<Rightarrow> (('h, 'w, 'i) managed, js_error, unit) act" where
  "eject_finish W c result s = (case result of
     Some (Inr _) \<Rightarrow> match_result (on_session_world (close_web awaited W (interface_owner s))) ret (\<lambda>e. fail (Thrown e))
         (s\<lparr>interface_owner := None\<rparr>)
   | Some (Inl failure) \<Rightarrow> close_failed W (Thrown failure) s
   | None \<Rightarrow> close_failed W (Text ''managed eject timed out; reconnect'') s)"

definition m_eject ::
  "('h \<times> 'w) bulk_io \<Rightarrow> ('w, 'i, 'n) web_usb \<Rightarrow> (('h, 'w, 'i) managed, js_error, unit) act" where
  "m_eject B W = with_client (eject_finish W) (range_eject B)"

definition m_close :: "('w, 'i, 'n) web_usb \<Rightarrow> (('h, 'w, 'i) managed, js_error, unit) act" where
  "m_close W s =
     match_result (on_session_world (close_web awaited W (interface_owner s))) ret (\<lambda>e. fail (Thrown e))
       (s\<lparr>client := None, interface_owner := None\<rparr>)"

section \<open>Opening\<close>

text \<open>The cast of a JavaScript number to \<open>u8\<close> saturates.\<close>

definition f64_as_u8 :: "nat \<Rightarrow> u8" where
  "f64_as_u8 n = of_nat (min n 255)"

text \<open>\<open>Scsi::new(io, 0)\<close> and \<open>RangeSession::connect(scsi, access)\<close> on the transport just opened.\<close>

definition start_client ::
  "nat \<Rightarrow> ('w, 'i, 'e) nusb \<Rightarrow> access \<Rightarrow> ('e, unit, 'i) nusb_io \<Rightarrow>
   ('i option \<times> 'w, js_error, (('e, unit, 'i) nusb_io \<times> 'w) range_session) act" where
  "start_client uw N a h = (\<lambda>(own, w). case scsi_new (nusb_bulk uw N) (h, w) 0 of
     Inl e \<Rightarrow> (Err (Thrown e), (own, w))
   | Inr c \<Rightarrow> (case connect (nusb_bulk uw N) a c of
       (Ok s, d) \<Rightarrow> (Ok s, (own, snd (io d)))
     | (Err e, d) \<Rightarrow> (Err (Thrown e), (own, snd (io d)))
     | (Dropped, d) \<Rightarrow> (Dropped, (own, snd (io d)))
     | (Panicked, d) \<Rightarrow> (Panicked, (own, snd (io d)))))"

text \<open>
  The raced body; \<open>interface_owner\<close>, like the world, outlives it. Inside \<open>connect_web\<close> two timers run, its
  own and the 20 seconds of this race: \<open>inner\<close> tells which of them ended an abandoned await.
\<close>

definition open_body ::
  "('w \<Rightarrow> bool) \<Rightarrow> nat \<Rightarrow> ('w, 'i, 'e) nusb \<Rightarrow> ('w, 'i, 'n) web_usb \<Rightarrow> 'w js_device \<Rightarrow> access \<Rightarrow>
   ('i option \<times> 'w, js_error, (('e, unit, 'i) nusb_io \<times> 'w) range_session \<times> u8 \<times> u8 \<times> u8) act" where
  "open_body inner uw N W D a =
     and_then (on_world (managed_interface D)) (\<lambda>(number, setting).
     let i = f64_as_u8 number; alt = f64_as_u8 setting in
     and_then (on_world (map_err Thrown (connect_web inner N W () i alt (5 * 10 ^ 9)))) (\<lambda>h.
     and_then (unwrap (retain_web_interface h)) (\<lambda>claimed.
     and_then (modify (\<lambda>(_, w). (Some claimed, w))) (\<lambda>_.
     and_then (start_client uw N a h) (\<lambda>c.
     ret (c, i, alt, io_max_lun h))))))"

definition open_managed_storage ::
  "('w \<Rightarrow> bool) \<Rightarrow> nat \<Rightarrow> ('w, 'i, 'e) nusb \<Rightarrow> ('w, 'i, 'n) web_usb \<Rightarrow> 'w js_device \<Rightarrow> string \<Rightarrow>
   ('w, js_error, (('e, unit, 'i) nusb_io, 'w, 'i) managed) act" where
  "open_managed_storage inner uw N W D mode w = (case access_mode mode of
     Inl e \<Rightarrow> (Err e, w)
   | Inr a \<Rightarrow>
       (case bounded (open_body inner uw N W D a) (None, w) of
          (Ok (Some (Inr (c, i, alt, m))), (own, v)) \<Rightarrow>
            (Ok \<lparr>client = Some c, interface_owner = own, interface = i, alternate = alt, max_lun = m,
               m_access = a, world = v\<rparr>, v)
        | (Ok failed, (own, v)) \<Rightarrow>
            let first = (case failed of Some (Inl e) \<Rightarrow> e | _ \<Rightarrow> Text ''managed USB initialization timed out; reconnect'')
            in and_then (close_after_failure W first own) fail v
        | (Err e, (_, v)) \<Rightarrow> (Err e, v)
        | (Dropped, (_, v)) \<Rightarrow> (Dropped, v)
        | (Panicked, (_, v)) \<Rightarrow> (Panicked, v)))"

text \<open>\<open>requestManagedStorage\<close>: the access mode is checked before the user is asked for a device.\<close>

definition request_managed_storage ::
  "('w \<Rightarrow> bool) \<Rightarrow> nat \<Rightarrow> ('w, 'i, 'e) nusb \<Rightarrow> ('w, 'i, 'n) web_usb \<Rightarrow> ('w, js_error, 'w js_device) act \<Rightarrow> string \<Rightarrow>
   ('w, js_error, (('e, unit, 'i) nusb_io, 'w, 'i) managed) act" where
  "request_managed_storage inner uw N W chosen mode = (case access_mode mode of
     Inl e \<Rightarrow> fail e
   | Inr _ \<Rightarrow> and_then chosen (\<lambda>D. open_managed_storage inner uw N W D mode))"

text \<open>The fields of \<open>identity\<close>, in the order they are set.\<close>

datatype js_field = Number nat | String string

definition identity :: "'w js_device \<Rightarrow> ('h, 'w, 'i) managed \<Rightarrow> (string \<times> js_field) list" where
  "identity D s =
     [(''vendorId'', Number (unat (js_vendor D))), (''productId'', Number (unat (js_product D))),
      (''interface'', Number (unat (interface s))), (''alternate'', Number (unat (alternate s))),
      (''interfaceClass'', Number 255), (''interfaceSubclass'', Number 6), (''interfaceProtocol'', Number 80),
      (''maximumLun'', Number (unat (max_lun s))), (''selectedLun'', Number 0),
      (''access'', String (access_name (m_access s))), (''transport'', String ''usb-bot-scsi''),
      (''maxRangeBytes'', Number max_range_bytes)]"

end
