(* ===== verification/Managed_Properties.thy ===== *)
theory Managed_Properties
  imports Managed_Web
begin

text \<open>
  The properties of \<open>ManagedStorageSession\<close>: a client is kept only after a certain outcome, every
  uncertain one releases and closes the device under its own error, a closed session stays
  closed, and a session that opening returns is sound.
\<close>

section \<open>Facts about the client\<close>

lemma enter_sel [simp]:
  "geometry (enter w c) = geometry c" "access (enter w c) = access c" "usable (scsi (enter w c)) = usable (scsi c)"
  "snd (io (scsi (enter w c))) = w" "fst (io (scsi (enter w c))) = fst (io (scsi c))"
  by (simp_all add: enter_def)

lemma enter_inv [simp]: "range_inv (enter w c) = range_inv c"
  by (simp add: range_inv_def)

lemma read_blocks_Ok_usable: "read_blocks uw B lba count bs c = (Ok x, d) \<Longrightarrow> usable d"
  by (auto simp: read_blocks_def act_simps split: sum.split_asm prod.split_asm elim: command_cases)

lemma write_blocks_Ok_usable: "write_blocks uw B lba count bs bytes c = (Ok x, d) \<Longrightarrow> usable d"
  by (auto simp: write_blocks_def act_simps and_then_Ok act_iffs split: sum.split_asm prod.split_asm if_split_asm elim: command_cases)

lemma read_range_Ok_usable: "read_range uw B offset len s = (Ok x, t) \<Longrightarrow> usable (scsi t)"
  by (auto simp: read_range_def and_then_Ok act_iffs with_scsi_run split: sum.split_asm)
    (erule read_blocks_Ok_usable)

lemma write_range_Ok_usable: "write_range uw B offset bytes s = (Ok x, t) \<Longrightarrow> usable (scsi t)"
  by (auto simp: write_range_def Let_def and_then_Ok act_iffs with_scsi_run split: sum.split_asm if_split_asm)
    (erule write_blocks_Ok_usable)+

lemma sync_Ok_usable: "sync B s = (Ok x, t) \<Longrightarrow> usable (scsi t)"
  by (auto simp: sync_def flush_def and_then_Ok act_iffs with_scsi_run elim: command_cases)

text \<open>What \<open>finish\<close> needs of an operation: it keeps geometry and access, and success means usable.\<close>

definition certain :: "('io range_session, error, 'a) act \<Rightarrow> bool" where
  "certain m \<longleftrightarrow> within same_session m \<and> (\<forall>s x t. m s = (Ok x, t) \<longrightarrow> usable (scsi t))"

lemma range_certain:
  "certain (read_range uw B offset len)" "certain (write_range uw B offset bytes)" "certain (sync B)"
  unfolding certain_def
  by (intro conjI range_same allI impI;
      elim read_range_Ok_usable write_range_Ok_usable sync_Ok_usable)+

section \<open>How an operation ends\<close>

lemma close_after_failure_run:
  assumes "close_after_failure W p i w = (r, v)" "r \<noteq> Panicked"
  shows "v = snd (close_web awaited W i w) \<and> (\<exists>e. r = Ok e \<and> js_cause e = js_cause p)"
proof -
  obtain q x where q: "close_web awaited W i w = (q, x)" by fastforce
  then have "q \<noteq> Panicked" using assms by (auto simp: close_after_failure_def match_result_def)
  with close_web_awaited [OF q] q assms(1) show ?thesis
    by (cases q) (auto simp: close_after_failure_def match_result_def act_simps attach_cleanup_error_def)
qed

lemma close_failed_run:
  assumes "close_failed W p s = (r, t)" "r \<noteq> Panicked"
  shows "t = s\<lparr>interface_owner := None, world := snd (close_web awaited W (interface_owner s) (world s))\<rparr> \<and>
    (\<exists>e. r = Err e \<and> js_cause e = js_cause p)"
proof -
  obtain q x where q: "close_after_failure W p (interface_owner s) (world s) = (q, x)" by fastforce
  then have "q \<noteq> Panicked" using assms by (auto simp: close_failed_def on_session_world_def and_then_def)
  from close_after_failure_run [OF q this] q assms(1) show ?thesis
    by (auto simp: close_failed_def on_session_world_def and_then_def act_simps)
qed

lemma with_client_closed: "client s = None \<Longrightarrow> with_client k m s = (Err (Text ''managed session is closed or uncertain; reconnect''), s)"
  by (simp add: with_client_def)

lemma with_client_cases:
  assumes run: "with_client (finish W) m s = (r, t)" and c: "client s = Some c" and r: "r \<noteq> Panicked"
  obtains (kept) q d where "m (enter (world s) c) = (q, d)" "t = s\<lparr>client := Some d, world := leave d\<rparr>"
      "(\<exists>x. q = Ok x \<and> r = Ok x) \<or> (\<exists>e. q = Err e \<and> r = Err (Thrown e) \<and> is_usable d)"
  | (closed) q d e where "m (enter (world s) c) = (q, d)" "q = Dropped \<or> (\<exists>f. q = Err f) \<and> \<not> is_usable d"
      "client t = None" "interface_owner t = None" "m_access t = m_access s"
      "world t = snd (close_web awaited W (interface_owner s) (leave d))" "r = Err e"
      "js_cause e = (case q of Err f \<Rightarrow> Thrown f | _ \<Rightarrow> Text ''managed USB operation timed out; reconnect'')"
proof -
  obtain q d where q: "m (enter (world s) c) = (q, d)" by fastforce
  let ?s = "s\<lparr>client := None, world := leave d\<rparr>"
  have failed: thesis if "close_failed W p ?s = (r, t)" "q = Dropped \<or> (\<exists>f. q = Err f) \<and> \<not> is_usable d"
    "js_cause p = (case q of Err f \<Rightarrow> Thrown f | _ \<Rightarrow> Text ''managed USB operation timed out; reconnect'')" for p
    using close_failed_run [OF that(1) r] closed [OF q that(2)] that(3) by auto
  show thesis
  proof (cases q)
    case (Ok x)
    then show thesis using run c q kept [OF q] by (auto simp: with_client_def bounded_def deadline_def finish_def)
  next
    case (Err f)
    show thesis
    proof (cases "is_usable d")
      case True
      then show thesis using run c q Err kept [OF q] by (auto simp: with_client_def bounded_def deadline_def finish_def)
    next
      case False
      then show thesis using run c q Err failed [of "Thrown f"] by (auto simp: with_client_def bounded_def deadline_def finish_def)
    qed
  next
    case Dropped
    then show thesis using run c q failed [of "Text ''managed USB operation timed out; reconnect''"]
      by (auto simp: with_client_def bounded_def deadline_def finish_def)
  next
    case Panicked
    then show thesis using run c q r by (auto simp: with_client_def bounded_def deadline_def)
  qed
qed

section \<open>Sequences of operations\<close>

datatype managed_op = M_Read u64 u32 | M_Write u64 "u8 list" | M_Sync | M_Eject | M_Close

definition void :: "('s, 'e, 'a) act \<Rightarrow> ('s, 'e, unit) act" where
  "void m = and_then m (\<lambda>_. ret ())"

definition managed_apply ::
  "nat \<Rightarrow> ('h \<times> 'w) bulk_io \<Rightarrow> ('w, 'i, 'n) web_usb \<Rightarrow> managed_op \<Rightarrow> (('h, 'w, 'i) managed, js_error, unit) act" where
  "managed_apply uw B W op = (case op of
     M_Read offset len \<Rightarrow> void (m_read_range uw B W offset len)
   | M_Write offset bytes \<Rightarrow> m_write_range uw B W offset bytes
   | M_Sync \<Rightarrow> m_sync B W
   | M_Eject \<Rightarrow> m_eject B W
   | M_Close \<Rightarrow> m_close W)"

inductive managed_steps ::
  "nat \<Rightarrow> ('h \<times> 'w) bulk_io \<Rightarrow> ('w, 'i, 'n) web_usb \<Rightarrow> ('h, 'w, 'i) managed \<Rightarrow> ('h, 'w, 'i) managed \<Rightarrow> bool"
  for uw :: nat and B :: "('h \<times> 'w) bulk_io" and W :: "('w, 'i, 'n) web_usb" where
  none: "managed_steps uw B W s s"
| more: "managed_steps uw B W s t \<Longrightarrow> managed_apply uw B W op t = (r, u) \<Longrightarrow> r \<noteq> Panicked \<Longrightarrow> managed_steps uw B W s u"

text \<open>A stored client is usable and as it was opened; without a client nothing is owned any more.\<close>

definition managed_inv :: "('h, 'w, 'i) managed \<Rightarrow> bool" where
  "managed_inv s \<longleftrightarrow> (case client s of
     None \<Rightarrow> interface_owner s = None
   | Some c \<Rightarrow> usable (scsi c) \<and> access c = m_access s \<and> range_inv c)"

definition managed_step :: "('h, 'w, 'i) managed \<Rightarrow> ('h, 'w, 'i) managed \<Rightarrow> bool" where
  "managed_step s t \<longleftrightarrow> m_access t = m_access s \<and> (client s = None \<longrightarrow> client t = None) \<and>
     (managed_inv s \<longrightarrow> managed_inv t)"

lemma managed_step_refl [simp]: "managed_step s s"
  by (simp add: managed_step_def)

lemma managed_step_trans: "managed_step s t \<Longrightarrow> managed_step t u \<Longrightarrow> managed_step s u"
  by (auto simp: managed_step_def)

lemma with_client_step:
  assumes "with_client (finish W) m s = (r, t)" "r \<noteq> Panicked" "certain m"
  shows "managed_step s t"
proof (cases "client s")
  case None
  then show ?thesis using assms(1) by (simp add: with_client_closed managed_step_def)
next
  case (Some c)
  from assms(1) Some assms(2) show ?thesis
  proof (cases rule: with_client_cases)
    case (kept q d)
    have "within same_session m" using assms(3) by (simp add: certain_def)
    from withinD [OF this kept(1)] have "same_session (enter (world s) c) d" .
    moreover have "usable (scsi d)" using kept(1,3) assms(3) by (auto simp: certain_def is_usable_def)
    ultimately show ?thesis using kept(2) Some
      by (auto simp: managed_step_def managed_inv_def same_session_def range_inv_def)
  next
    case (closed q d e)
    then show ?thesis using Some by (simp add: managed_step_def managed_inv_def)
  qed
qed

lemma close_now_run:
  assumes "match_result (on_session_world (close_web awaited W (interface_owner s))) ret (\<lambda>e. fail (Thrown e)) (s\<lparr>interface_owner := None\<rparr>) = (r, t)"
    "r \<noteq> Panicked"
  shows "t = s\<lparr>interface_owner := None, world := snd (close_web awaited W (interface_owner s) (world s))\<rparr> \<and>
    (r = Ok () \<longleftrightarrow> fst (close_web awaited W (interface_owner s) (world s)) = Ok ()) \<and> r \<noteq> Dropped"
proof -
  obtain q x where q: "close_web awaited W (interface_owner s) (world s) = (q, x)" by fastforce
  then have "q \<noteq> Panicked" using assms by (auto simp: on_session_world_def match_result_def)
  from close_web_awaited [OF q this] q assms show ?thesis
    by (cases q) (auto simp: on_session_world_def match_result_def act_simps)
qed

lemma m_eject_run:
  assumes "m_eject B W s = (r, t)" "r \<noteq> Panicked" "client s = Some c"
  shows "client t = None \<and> interface_owner t = None \<and> m_access t = m_access s \<and>
    world t = snd (close_web awaited W (interface_owner s) (leave (snd (range_eject B (enter (world s) c))))) \<and>
    (r = Ok () \<longleftrightarrow> fst (range_eject B (enter (world s) c)) = Ok () \<and>
      fst (close_web awaited W (interface_owner s) (leave (snd (range_eject B (enter (world s) c))))) = Ok ()) \<and>
    (\<forall>f. fst (range_eject B (enter (world s) c)) = Err f \<longrightarrow> (\<exists>e. r = Err e \<and> js_cause e = Thrown f))"
proof -
  obtain q d where q: "range_eject B (enter (world s) c) = (q, d)" by fastforce
  let ?s = "s\<lparr>client := None, world := leave d\<rparr>"
  show ?thesis
  proof (cases q)
    case (Ok x)
    with assms(1,3) q have run: "match_result (on_session_world (close_web awaited W (interface_owner ?s))) ret (\<lambda>e. fail (Thrown e))
        (?s\<lparr>interface_owner := None\<rparr>) = (r, t)"
      by (simp add: m_eject_def with_client_def bounded_def deadline_def eject_finish_def)
    from close_now_run [OF run assms(2)] q Ok show ?thesis by auto
  next
    case (Err f)
    with assms(1,3) q have run: "close_failed W (Thrown f) ?s = (r, t)"
      by (simp add: m_eject_def with_client_def bounded_def deadline_def eject_finish_def)
    from close_failed_run [OF run assms(2)] q Err show ?thesis by auto
  next
    case Dropped
    with assms(1,3) q have run: "close_failed W (Text ''managed eject timed out; reconnect'') ?s = (r, t)"
      by (simp add: m_eject_def with_client_def bounded_def deadline_def eject_finish_def)
    from close_failed_run [OF run assms(2)] q Dropped show ?thesis by auto
  next
    case Panicked
    then show ?thesis using assms q by (auto simp: m_eject_def with_client_def bounded_def deadline_def)
  qed
qed

lemma managed_apply_step:
  assumes "managed_apply uw B W op s = (r, t)" "r \<noteq> Panicked"
  shows "managed_step s t"
proof (cases op)
  case (M_Read offset len)
  then obtain q where "m_read_range uw B W offset len s = (q, t)" "q \<noteq> Panicked"
    using assms by (cases "m_read_range uw B W offset len s")
      (auto simp: managed_apply_def void_def and_then_def ret_def split: outcome.split_asm)
  then show ?thesis unfolding m_read_range_def by (rule with_client_step [OF _ _ range_certain(1)])
next
  case (M_Write offset bytes)
  then show ?thesis using assms(1)
    by (auto simp: managed_apply_def m_write_range_def split: if_split_asm
        intro: with_client_step [OF _ assms(2) range_certain(2)])
next
  case M_Sync
  then show ?thesis using assms with_client_step [OF _ assms(2) range_certain(3)]
    by (simp add: managed_apply_def m_sync_def)
next
  case M_Eject
  show ?thesis
  proof (cases "client s")
    case None
    then show ?thesis using assms M_Eject by (simp add: managed_apply_def m_eject_def with_client_closed managed_step_def)
  next
    case (Some c)
    then show ?thesis using assms M_Eject m_eject_run [of B W s r t c]
      by (simp add: managed_apply_def managed_step_def managed_inv_def)
  qed
next
  case M_Close
  then have "match_result (on_session_world (close_web awaited W (interface_owner (s\<lparr>client := None\<rparr>)))) ret (\<lambda>e. fail (Thrown e))
      ((s\<lparr>client := None\<rparr>)\<lparr>interface_owner := None\<rparr>) = (r, t)"
    using assms(1) by (simp add: managed_apply_def m_close_def)
  from close_now_run [OF this assms(2)] show ?thesis by (simp add: managed_step_def managed_inv_def)
qed

section \<open>Properties\<close>

definition stuck_io :: "(unit \<times> bool) bulk_io" where
  "stuck_io = \<lparr>bulk_max_lun = (\<lambda>_. 0), bulk_write = (\<lambda>d i. (Dropped, i)), bulk_read = (\<lambda>n i. (Dropped, i))\<rparr>"

definition sample_managed :: "access \<Rightarrow> (unit, bool, unit) managed" where
  "sample_managed a = \<lparr>client = Some \<lparr>scsi = \<lparr>io = ((), True), tag = 0, lun = 0, usable = True\<rparr>,
       geometry = \<lparr>blocks = 8, block_size = 512\<rparr>, access = a\<rparr>,
     interface_owner = Some (), interface = 7, alternate = 0, max_lun = 0, m_access = a, world = True\<rparr>"

lemma sample_managed_inv: "managed_inv (sample_managed a)"
  using disk64.bs_pow2 by (simp add: sample_managed_def managed_inv_def range_inv_def geometry_ok_def)

lemma stuck_sync:
  "m_sync stuck_io sample_web (sample_managed a) = (r, t) \<Longrightarrow> r \<noteq> Panicked"
  by (auto simp: m_sync_def with_client_def sample_managed_def enter_def leave_def bounded_def deadline_def sync_def flush_def
      with_scsi_def command_def bad_shape_def u32_try_from_def exchange_def with_io_def stuck_io_def and_then_def finish_def
      close_failed_def on_session_world_def close_after_failure_def match_result_def close_web_def release_step_def
      close_step_run sample_web_def act_simps)

text \<open>
  C16: A browser session is certain or closed. From a sound session, no sequence of reads, writes,
  syncs, ejects and closes, however each ends, reaches a state that holds a retired client, one
  with another access mode than it was opened with, or an interface without a client; so
  \<open>usable()\<close> is true exactly while a client is held, and a session once closed stays closed.
\<close>

theorem managed_sessions_stay_certain:
  assumes "managed_steps uw B W s t" "managed_inv s"
  shows "managed_inv t \<and> m_access t = m_access s \<and> (m_usable t \<longleftrightarrow> client t \<noteq> None) \<and>
    (client t = None \<longrightarrow> interface_owner t = None) \<and> (client s = None \<longrightarrow> client t = None)"
proof -
  have "managed_step s t" using assms(1)
  proof induction
    case (more s t op r u)
    then show ?case using managed_apply_step managed_step_trans by blast
  qed simp
  then show ?thesis using assms(2)
    by (auto simp: managed_step_def managed_inv_def m_usable_def is_usable_def split: option.splits)
qed

theorem managed_sessions_stay_certain_witness:
  "\<exists>t. managed_steps 32 stuck_io sample_web (sample_managed ReadWrite) t \<and> \<not> m_usable t \<and> interface_owner t = None"
proof -
  obtain r t where run: "m_sync stuck_io sample_web (sample_managed ReadWrite) = (r, t)" by fastforce
  have "managed_steps 32 stuck_io sample_web (sample_managed ReadWrite) t"
    by (rule managed_steps.more [OF managed_steps.none, where op = M_Sync and r = r])
      (use run stuck_sync [OF run] in \<open>simp_all add: managed_apply_def\<close>)
  moreover have "client t = None" using run
    by (auto simp: m_sync_def with_client_def sample_managed_def enter_def leave_def bounded_def deadline_def sync_def flush_def
        with_scsi_def command_def bad_shape_def u32_try_from_def exchange_def with_io_def stuck_io_def and_then_def finish_def
        close_failed_def on_session_world_def close_after_failure_def match_result_def close_web_def release_step_def
        close_step_run sample_web_def act_simps)
  ultimately show ?thesis using managed_sessions_stay_certain sample_managed_inv by blast
qed

text \<open>
  C15: An uncertain operation closes the device under its own error. Whatever the operation, if it
  runs out of time or leaves the client retired, then the client is dropped, the interface is
  given to \<open>close_web\<close> in the world the operation left, and the error returned has the
  operation's failure, or the timeout, as its cause even when the cleanup fails too. Otherwise
  the client is put back, and the result is the operation's own.
\<close>

theorem uncertain_operation_closes:
  assumes "with_client (finish W) m s = (r, t)" "client s = Some c" "r \<noteq> Panicked"
  shows "\<exists>q d. m (enter (world s) c) = (q, d) \<and>
    (if q = Dropped \<or> (\<exists>f. q = Err f) \<and> \<not> is_usable d
     then client t = None \<and> interface_owner t = None \<and> world t = snd (close_web awaited W (interface_owner s) (leave d)) \<and>
       (\<exists>e. r = Err e \<and> js_cause e = (case q of Err f \<Rightarrow> Thrown f | _ \<Rightarrow> Text ''managed USB operation timed out; reconnect''))
     else client t = Some d \<and> interface_owner t = interface_owner s \<and> world t = leave d \<and>
       ((\<exists>x. q = Ok x \<and> r = Ok x) \<or> (\<exists>f. q = Err f \<and> r = Err (Thrown f))))"
  using assms
proof (cases rule: with_client_cases)
  case (kept q d)
  then show ?thesis by (intro exI [of _ q] exI [of _ d]) auto
next
  case (closed q d e)
  then show ?thesis by (intro exI [of _ q] exI [of _ d]) simp
qed

theorem uncertain_operation_closes_witness:
  "\<exists>e t. m_sync stuck_io sample_web (sample_managed ReadWrite) = (Err e, t) \<and> client t = None \<and> world t = False \<and>
    js_cause e = Text ''managed USB operation timed out; reconnect''"
proof -
  obtain r t where run: "m_sync stuck_io sample_web (sample_managed ReadWrite) = (r, t)" by fastforce
  have m: "with_client (finish sample_web) (sync stuck_io) (sample_managed ReadWrite) = (r, t)"
    using run by (simp add: m_sync_def)
  have c: "client (sample_managed ReadWrite) = Some \<lparr>scsi = \<lparr>io = ((), True), tag = 0, lun = 0, usable = True\<rparr>,
      geometry = \<lparr>blocks = 8, block_size = 512\<rparr>, access = ReadWrite\<rparr>" by (simp add: sample_managed_def)
  from uncertain_operation_closes [OF m c stuck_sync [OF run]] run show ?thesis
    by (auto simp: sample_managed_def enter_def leave_def sync_def flush_def with_scsi_def command_def bad_shape_def u32_try_from_def
        exchange_def with_io_def stuck_io_def and_then_def close_web_def release_step_def deadline_def
        close_step_run sample_web_def act_simps)
qed

text \<open>
  A closed session is inert: without a client, reading, writing, syncing and ejecting return an
  error and change nothing, the USB world included. On a session opened read-only, writing
  returns an error and changes nothing, whether or not it holds a client.
\<close>

theorem closed_session_is_inert:
  "(client s = None \<longrightarrow>
      m_read_range uw B W offset len s = (Err (Text ''managed session is closed or uncertain; reconnect''), s) \<and>
      (\<exists>e. m_write_range uw B W offset bytes s = (Err e, s)) \<and>
      m_sync B W s = (Err (Text ''managed session is closed or uncertain; reconnect''), s) \<and>
      m_eject B W s = (Err (Text ''managed session is closed or uncertain; reconnect''), s)) \<and>
   (m_access s = ReadOnly \<longrightarrow> (\<exists>e. m_write_range uw B W offset bytes s = (Err e, s)))"
  by (auto simp: m_read_range_def m_write_range_def m_sync_def m_eject_def with_client_closed)

theorem closed_session_is_inert_witness:
  "\<exists>e. m_write_range 32 stuck_io sample_web 0 [1] (sample_managed ReadOnly) = (Err e, sample_managed ReadOnly)"
  using closed_session_is_inert [of "sample_managed ReadOnly" 32 stuck_io sample_web 0 0 "[1]"]
  by (simp add: sample_managed_def)

text \<open>
  Eject and close end the session. An eject drops the client and gives the interface to
  \<open>close_web\<close> in every case; its receipt is \<open>Ok\<close> only if the device completed START STOP UNIT and
  the close went through, and a refused or failed eject is the cause of the error. A close does
  the same without any command. Both leave a session that is inert.
\<close>

theorem eject_and_close_end_the_session:
  assumes "m_eject B W s = (r, t)" "r \<noteq> Panicked" "client s = Some c" "m_close W s = (q, u)" "q \<noteq> Panicked"
  shows "client t = None \<and> interface_owner t = None \<and>
    (r = Ok () \<longleftrightarrow> fst (range_eject B (enter (world s) c)) = Ok () \<and>
      fst (close_web awaited W (interface_owner s) (leave (snd (range_eject B (enter (world s) c))))) = Ok ()) \<and>
    (\<forall>f. fst (range_eject B (enter (world s) c)) = Err f \<longrightarrow> (\<exists>e. r = Err e \<and> js_cause e = Thrown f)) \<and>
    client u = None \<and> interface_owner u = None \<and> world u = snd (close_web awaited W (interface_owner s) (world s)) \<and>
    (q = Ok () \<longleftrightarrow> fst (close_web awaited W (interface_owner s) (world s)) = Ok ())"
proof -
  from assms(4) have "match_result (on_session_world (close_web awaited W (interface_owner (s\<lparr>client := None\<rparr>)))) ret (\<lambda>e. fail (Thrown e))
      ((s\<lparr>client := None\<rparr>)\<lparr>interface_owner := None\<rparr>) = (q, u)"
    by (simp add: m_close_def)
  from close_now_run [OF this assms(5)] m_eject_run [OF assms(1-3)] show ?thesis by simp
qed

theorem eject_and_close_end_the_session_witness:
  "\<exists>r t. m_eject stuck_io sample_web (sample_managed ReadOnly) = (r, t) \<and> client t = None \<and> r \<noteq> Ok ()"
proof -
  obtain r t where run: "m_eject stuck_io sample_web (sample_managed ReadOnly) = (r, t)" by fastforce
  obtain q u where run2: "m_close sample_web (sample_managed ReadOnly) = (q, u)" by fastforce
  have c: "client (sample_managed ReadOnly) = Some \<lparr>scsi = \<lparr>io = ((), True), tag = 0, lun = 0, usable = True\<rparr>,
      geometry = \<lparr>blocks = 8, block_size = 512\<rparr>, access = ReadOnly\<rparr>" by (simp add: sample_managed_def)
  have "r \<noteq> Panicked" "r \<noteq> Ok ()" "q \<noteq> Panicked" using run run2
    by (auto simp: m_eject_def m_close_def with_client_def sample_managed_def enter_def leave_def bounded_def deadline_def
        range_eject_def eject_def with_scsi_def command_def bad_shape_def u32_try_from_def exchange_def with_io_def stuck_io_def
        and_then_def eject_finish_def close_failed_def on_session_world_def close_after_failure_def match_result_def close_web_def
        release_step_def close_step_run sample_web_def act_simps)
  note facts = this
  have "client t = None" using eject_and_close_end_the_session [OF run facts(1) c run2 facts(3)] by (rule conjunct1)
  with run facts(2) show ?thesis by blast
qed

lemma open_body_Ok:
  assumes "open_body inner uw N W D a (None, w) = (Ok (c, i, alt, m), (own, v))"
  shows "own \<noteq> None \<and> usable (scsi c) \<and> access c = a \<and> range_inv c \<and> m \<le> 15"
proof -
  from assms obtain h claimed i0 alt0 x y own0 u where
    conn: "map_err Thrown (connect_web inner N W () i0 alt0 (5 * 10 ^ 9)) x = (Ok h, y)" and m: "m = io_max_lun h" and
    start: "start_client uw N a h (Some claimed, u) = (Ok c, (own, v))"
    by (auto simp: open_body_def Let_def and_then_Ok act_iffs on_world_iff split: prod.split_asm)
  have "connect_web inner N W () i0 alt0 (5 * 10 ^ 9) x = (Ok h, y)"
    using conn by (auto simp: map_err_def match_result_def act_simps split: prod.split_asm outcome.split_asm)
  then have "io_max_lun h \<le> 15" by (blast dest: connect_web_Ok)
  moreover from start obtain c0 d where "connect (nusb_bulk uw N) a c0 = (Ok c, d)" "own = Some claimed"
    by (auto simp: start_client_def split: sum.split_asm prod.split_asm outcome.split_asm)
  ultimately show ?thesis using m by (auto dest: connect_Ok)
qed

text \<open>The interface the body has retained: that of \<open>connect_web\<close>, once it has returned.\<close>

definition handed_over ::
  "('w \<Rightarrow> bool) \<Rightarrow> ('w, 'i, 'e) nusb \<Rightarrow> ('w, 'i, 'n) web_usb \<Rightarrow> 'w js_device \<Rightarrow> 'w \<Rightarrow> 'i option" where
  "handed_over inner N W D w = (case managed_interface D w of
     (Ok (number, setting), x) \<Rightarrow>
       (case (connect_web inner N W () (f64_as_u8 number) (f64_as_u8 setting) (5 * 10 ^ 9) x ::
           (error, ('e, unit, 'i) nusb_io) outcome \<times> 'w) of
          (Ok h, _) \<Rightarrow> web_interface h
        | _ \<Rightarrow> None)
   | _ \<Rightarrow> None)"

lemma start_client_keeps: "start_client uw N a h (own, w) = (q, (held, v)) \<Longrightarrow> held = own"
  by (auto simp: start_client_def split: sum.split_asm prod.split_asm outcome.split_asm)

lemma map_err_run: "map_err f m w = (case m w of
    (Ok a, v) \<Rightarrow> (Ok a, v) | (Err e, v) \<Rightarrow> (Err (f e), v) | (Dropped, v) \<Rightarrow> (Dropped, v) | (Panicked, v) \<Rightarrow> (Panicked, v))"
  by (auto simp: map_err_def match_result_def act_simps split: prod.split outcome.split)

lemma open_body_held:
  fixes N :: "('w, 'i, 'e) nusb"
  assumes run: "open_body inner uw N W D a (None, w) = (q, (held, u))" and q: "q \<noteq> Panicked"
  shows "held = handed_over inner N W D w"
proof -
  obtain p x where p: "managed_interface D w = (p, x)" by fastforce
  show ?thesis
  proof (cases p)
    case (Ok ns)
    obtain number setting where ns: "ns = (number, setting)" by (cases ns)
    obtain k :: "(error, ('e, unit, 'i) nusb_io) outcome" and y
      where k: "connect_web inner N W () (f64_as_u8 number) (f64_as_u8 setting) (5 * 10 ^ 9) x = (k, y)" by fastforce
    note body = run [unfolded open_body_def] p Ok ns k
    show ?thesis
    proof (cases k)
      case connected: (Ok h)
      obtain i where i: "web_interface h = Some i" using connect_web_Ok [OF k [unfolded connected]] by blast
      with body connected obtain s where "start_client uw N a h (Some i, y) = (s, (held, u))"
        by (cases "start_client uw N a h (Some i, y)"; cases "fst (start_client uw N a h (Some i, y))")
          (auto simp: and_then_on_world map_err_run Let_def retain_web_interface_def act_simps and_then_def [of "start_client uw N a h"])
      then show ?thesis using start_client_keeps p Ok ns k connected i by (simp add: handed_over_def)
    qed (use body q in \<open>auto simp: and_then_on_world map_err_run Let_def handed_over_def\<close>)
  qed (use run [unfolded open_body_def] p in \<open>auto simp: and_then_on_world handed_over_def\<close>)
qed

text \<open>
  C32: \<open>openManagedStorage\<close> returns a sound session or closes the device. An access mode other than
  the two names is refused before the device is touched. A session it returns holds a usable
  client in that access mode with a sound geometry, and owns the claimed interface. If any step
  fails or the 20 seconds run out, wherever that happens, \<open>close_web\<close> has run to its end, and the error
  has that failure, or the timeout, as its cause. The interface \<open>close_web\<close> was given to release is the
  one \<open>connect_web\<close> handed over, so there is one exactly if \<open>connect_web\<close> had returned: if the timer
  ends \<open>connect_web\<close> itself, also after it has claimed the interface, there is none.
\<close>

theorem open_managed_storage_sound:
  fixes N :: "('w, 'i, 'e) nusb"
  assumes "open_managed_storage inner uw N W D mode w = (r, v)" "r \<noteq> Panicked"
  shows "(\<forall>e. access_mode mode = Inl e \<longrightarrow> r = Err e \<and> v = w) \<and>
    (\<forall>s. r = Ok s \<longrightarrow> managed_inv s \<and> m_usable s \<and> interface_owner s \<noteq> None \<and> world s = v \<and>
      mode = access_name (m_access s) \<and> max_lun s \<le> 15) \<and>
    (\<forall>a e. access_mode mode = Inr a \<and> r = Err e \<longrightarrow>
      (\<exists>(q :: (js_error, (('e, unit, 'i) nusb_io \<times> 'w) range_session \<times> u8 \<times> u8 \<times> u8) outcome) own u.
        open_body inner uw N W D a (None, w) = (q, (own, u)) \<and> (q = Dropped \<or> (\<exists>f. q = Err f)) \<and>
        own = handed_over inner N W D w \<and> v = snd (close_web awaited W own u) \<and>
        js_cause e = js_cause (case q of Err f \<Rightarrow> f | _ \<Rightarrow> Text ''managed USB initialization timed out; reconnect''))) \<and>
    r \<noteq> Dropped"
proof (cases "access_mode mode")
  case (Inl e)
  then show ?thesis using assms(1) by (auto simp: open_managed_storage_def)
next
  case (Inr a)
  obtain q :: "(js_error, (('e, unit, 'i) nusb_io \<times> 'w) range_session \<times> u8 \<times> u8 \<times> u8) outcome" and own u
    where q: "open_body inner uw N W D a (None, w) = (q, (own, u))" by (metis surj_pair)
  have name: "mode = access_name a" using Inr by (auto simp: access_mode_def access_name_def split: if_split_asm)
  have failed: "v = snd (close_web awaited W own u) \<and> (\<exists>e. r = Err e \<and> js_cause e = js_cause p)"
    if run: "and_then (close_after_failure W p own) fail u = (r, v)" for p
  proof -
    obtain k x where k: "close_after_failure W p own u = (k, x)" by fastforce
    have "k \<noteq> Panicked" using run k assms(2) by (auto simp: and_then_def)
    from close_after_failure_run [OF k this] run k show ?thesis by (auto simp: and_then_run(1) act_simps)
  qed
  show ?thesis
  proof (cases q)
    case (Ok x)
    then obtain c i alt m where x: "q = Ok (c, i, alt, m)" by (cases x) auto
    from open_body_Ok q x have "own \<noteq> None \<and> usable (scsi c) \<and> access c = a \<and> range_inv c \<and> m \<le> 15" by metis
    moreover have "r = Ok \<lparr>client = Some c, interface_owner = own, interface = i, alternate = alt, max_lun = m,
        m_access = a, world = u\<rparr>" "v = u"
      using assms(1) Inr q x by (auto simp: open_managed_storage_def bounded_def deadline_def)
    ultimately show ?thesis using Inr name by (auto simp: managed_inv_def m_usable_def is_usable_def)
  next
    case (Err f)
    then have "and_then (close_after_failure W f own) fail u = (r, v)"
      using assms(1) Inr q by (simp add: open_managed_storage_def bounded_def deadline_def Let_def)
    from failed [OF this] Inr q Err open_body_held [OF q] show ?thesis by auto
  next
    case Dropped
    then have "and_then (close_after_failure W (Text ''managed USB initialization timed out; reconnect'') own) fail u = (r, v)"
      using assms(1) Inr q by (simp add: open_managed_storage_def bounded_def deadline_def Let_def)
    from failed [OF this] Inr q Dropped open_body_held [OF q] show ?thesis by auto
  next
    case Panicked
    then show ?thesis using assms Inr q by (auto simp: open_managed_storage_def bounded_def deadline_def)
  qed
qed

text \<open>A device of another vendor.\<close>

definition other_device :: "bool js_device" where
  "other_device = \<lparr>js_vendor = 0x1d6b, js_product = 0xca0f, js_opened = (\<lambda>_. False), js_open = ret (),
     js_configuration = (\<lambda>_. None), js_configurations = [], js_select = (\<lambda>_. ret ())\<rparr>"

theorem open_managed_storage_sound_witness:
  "\<exists>e v. open_managed_storage awaited 32 slow_usb sample_web other_device ''read-only'' True = (Err e, v) \<and>
    js_cause e = Text ''Expected the managed1209:ca0f export'' \<and> v = snd (close_web awaited sample_web None True)"
proof -
  let ?o = "open_managed_storage awaited 32 slow_usb sample_web other_device ''read-only'' True"
  have mode: "access_mode ''read-only'' = Inr ReadOnly" by (simp add: access_mode_def)
  have body: "open_body awaited 32 slow_usb sample_web other_device ReadOnly (None, True) =
      (Err (Text ''Expected the managed1209:ca0f export''), (None, True))"
    by (simp add: open_body_def managed_interface_def other_device_def on_world_def and_then_def act_simps)
  have "close_web awaited sample_web None True = (Ok (), False)"
    by (simp add: close_web_def release_step_def close_step_run sample_web_def and_then_def act_simps)
  then have eq: "?o = (Err (Text ''Expected the managed1209:ca0f export''), False)"
    by (simp add: open_managed_storage_def mode body bounded_def deadline_def close_after_failure_def match_result_def
        and_then_def act_simps)
  show ?thesis using open_managed_storage_sound [OF eq] eq mode body by auto
qed

text \<open>
  C33: The 20 seconds can run out while \<open>connect_web\<close> holds a claimed interface that nobody else knows of: its
  own five seconds start only when it does. Then the interface is dropped with it, which starts a
  release nobody awaits, and the device is closed at once, with no release before it. The comment of
  \<open>close_web\<close> says that closing a device in that state fails in Chromium. The error names the timeout,
  and the close's own failure is attached to it.
\<close>

theorem late_timeout_closes_unreleased:
  fixes N :: "('w, 'i, 'e) nusb"
  assumes "access_mode mode = Inr a" "managed_interface D w = (Ok (number, setting), x)"
    and body: "(open_claimed N W (f64_as_u8 number) (f64_as_u8 setting) (5 * 10 ^ 9) (None, x) ::
        (error, ('e, unit, 'i) nusb_io) outcome \<times> _) = (Dropped, (Some i, y))"
    and "\<not> inner y" "device_close W (drop_interface W i y) = (c, z)" "c \<noteq> Panicked"
  shows "open_managed_storage inner uw N W D mode w =
    (Err (case close_failure W (drop_interface W i y) of
       None \<Rightarrow> Text ''managed USB initialization timed out; reconnect''
     | Some e \<Rightarrow> Attached (Text ''managed USB initialization timed out; reconnect'') (Thrown e)), z)"
proof -
  have "(connect_web inner N W () (f64_as_u8 number) (f64_as_u8 setting) (5 * 10 ^ 9) x ::
      (error, ('e, unit, 'i) nusb_io) outcome \<times> 'w) = (Dropped, drop_interface W i y)"
    using body assms(4) by (simp add: connect_web_def validate_timeout_def act_simps deadline_def)
  then have run: "open_body inner uw N W D a (None, w) = (Dropped, (None, drop_interface W i y))"
    using assms(2) by (simp add: open_body_def and_then_on_world map_err_run Let_def)
  obtain r v where r: "close_web awaited W None (drop_interface W i y) = (r, v)" by fastforce
  have "r \<noteq> Panicked"
    using r assms(5,6) by (auto simp: close_web_def release_step_def act_simps close_step_run and_then_def split: outcome.split_asm)
  from close_web_result [OF r this] assms(5)
  have "v = z" "r = (case close_failure W (drop_interface W i y) of Some e \<Rightarrow> Err e | None \<Rightarrow> Ok ())"
    by (auto simp: release_failure_def split: option.split)
  then show ?thesis using assms(1) run r
    by (cases "close_failure W (drop_interface W i y)")
      (simp_all add: open_managed_storage_def bounded_def deadline_def Let_def close_after_failure_def match_result_def
        attach_cleanup_error_def and_then_def act_simps)
qed

text \<open>A browser in which closing fails while a release is under way, and the device of the export.\<close>

definition racing_web :: "(bool, unit, unit) web_usb" where
  "racing_web = sample_web\<lparr>release_interface := (\<lambda>_. ret ()), drop_interface := (\<lambda>_ _. False),
     device_close := (\<lambda>w. (if w then Ok () else Err ''interface state change in progress'', w))\<rparr>"

definition export_device :: "bool js_device" where
  "export_device = \<lparr>js_vendor = 0x1209, js_product = 0xca0f, js_opened = (\<lambda>_. True), js_open = ret (),
     js_configuration = (\<lambda>_. Some \<lparr>js_value = 1, js_interfaces = [\<lparr>js_number = 7, js_claimed = False,
       js_active = \<lparr>js_class = 255, js_subclass = 6, js_protocol = 80, js_setting = 0\<rparr>, js_alternates = []\<rparr>]\<rparr>),
     js_configurations = [], js_select = (\<lambda>_. ret ())\<rparr>"

theorem late_timeout_closes_unreleased_witness:
  "open_managed_storage (\<lambda>_. False) 32 slow_usb racing_web export_device ''read-only'' True =
    (Err (Attached (Text ''managed USB initialization timed out; reconnect'') (Thrown (Close ''interface state change in progress''))), False) \<and>
   close_web awaited racing_web (Some ()) True = (Ok (), True)"
proof -
  have mode: "access_mode ''read-only'' = Inr ReadOnly" by (simp add: access_mode_def)
  have chosen: "managed_interface export_device True = (Ok (7, 0), True)"
    by (simp add: managed_interface_def export_device_def select_managed_def managed_alternate_def and_then_def act_simps)
  have body: "(open_claimed slow_usb racing_web (f64_as_u8 7) (f64_as_u8 0) (5 * 10 ^ 9) (None, True)
      :: (error, (unit, unit, unit) nusb_io) outcome \<times> _) = (Dropped, (Some (), True))"
    by (simp add: f64_as_u8_def open_claimed_def racing_web_def sample_web_def slow_usb_def sample_alt_def initialize_def
        validate_timeout_def from_interface_def act_simps is_bulk_in_def is_bulk_out_def match_result_def and_then_def on_world_def)
  have "device_close racing_web (drop_interface racing_web () True) = (Err ''interface state change in progress'', False)"
    by (simp add: racing_web_def)
  note late = late_timeout_closes_unreleased [OF mode chosen body _ this, of "\<lambda>_. False" 32]
  have "close_web awaited racing_web (Some ()) True = (Ok (), True)"
    by (simp add: close_web_def release_step_def close_step_run deadline_def and_then_def racing_web_def act_simps)
  then show ?thesis using late by (simp add: close_failure_def racing_web_def)
qed

text \<open>
  The capacity the browser is told is exact. On a sound session the block count, the block size
  and their product, which \<open>size_bytes\<close> computes in 64 bits, all stay below 2^53, so each is
  exactly a JavaScript number.
\<close>

theorem capacity_is_exact:
  assumes "managed_inv s" "capacity s = Inr (b, n, bytes)"
  shows "unat bytes = unat b * unat n \<and> unat bytes < 2 ^ 53 \<and> unat b < 2 ^ 53 \<and> 0 < unat bytes"
proof -
  obtain c where c: "client s = Some c" "b = blocks (geometry c)" "n = block_size (geometry c)" "bytes = size_bytes c"
    using assms(2) by (auto simp: capacity_def split: option.split_asm)
  have inv: "range_inv c" using assms(1) c(1) by (simp add: managed_inv_def)
  note size = unat_size_bytes [OF inv]
  have g: "bsize c \<le> 65536" "0 < bsize c" "1 \<le> unat (blocks (geometry c))" "unat (blocks (geometry c)) < 2 ^ 32"
    using inv range_inv_bsize [OF inv] by (simp_all add: range_inv_def geometry_ok_def)
  have "unat (size_bytes c) < 2 ^ 32 * 65536"
    unfolding size using g by (intro mult_less_le_imp_less) auto
  moreover have "0 < unat (blocks (geometry c)) * bsize c" using g by simp
  ultimately show ?thesis using c size g by simp
qed

theorem capacity_is_exact_witness:
  "unat (4096 :: u64) = unat (8 :: u64) * unat (512 :: u32) \<and> capacity (sample_managed ReadOnly) = Inr (8, 512, 4096)"
proof -
  have "capacity (sample_managed ReadOnly) = Inr (8, 512, 4096)"
    by (simp add: capacity_def sample_managed_def size_bytes_def)
  then show ?thesis using capacity_is_exact [OF sample_managed_inv] by blast
qed

end
