(* ===== verification/Fastboot_Web.thy ===== *)
theory Fastboot_Web
  imports Managed_Properties
begin

text \<open>
  \<open>canoe-usb-web/src/lib.rs\<close>: the browser's fastboot session. The fastboot engine and the base64
  decoder are other crates, so they are parameters: \<open>fastboot_engine\<close> is a record of the calls
  the session makes, acting on the engine's client and the USB world.
\<close>

section \<open>The engine\<close>

record ('c, 'w, 'i, 'f) fastboot_engine =
  fb_from_interface :: "'i \<Rightarrow> ('w, string, 'c) act"
  fb_get_var :: "string \<Rightarrow> ('c \<times> 'w, 'f, string) act"
  fb_command :: "string \<Rightarrow> ('c \<times> 'w, 'f, string) act"
  fb_fetch :: "string \<Rightarrow> u64 \<Rightarrow> u32 \<Rightarrow> ('c \<times> 'w, 'f, u8 list) act"
  fb_download :: "u32 \<Rightarrow> ('c \<times> 'w, 'f, unit) act"
  fb_extend :: "u8 list \<Rightarrow> ('c \<times> 'w, 'f, unit) act"
  fb_finish_download :: "('c \<times> 'w, 'f, unit) act"
  fb_flash :: "string \<Rightarrow> ('c \<times> 'w, 'f, unit) act"
  fastboot_failed :: "'f \<Rightarrow> bool"
  fb_display :: "'f \<Rightarrow> string"

text \<open>The inline JavaScript function \<open>fastbootInterface\<close>.\<close>

definition fastboot_alternate :: "js_alternate \<Rightarrow> bool" where
  "fastboot_alternate a \<longleftrightarrow> js_class a = 255 \<and> js_subclass a = 66 \<and> js_protocol a = 3"

definition fastboot_interface :: "'w js_device \<Rightarrow> ('w, js_error, nat) act" where
  "fastboot_interface D =
     and_then (\<lambda>w. case js_configuration D w of
         Some c \<Rightarrow> (Ok c, w)
       | None \<Rightarrow> (case find (\<lambda>c. \<exists>i\<in>set (js_interfaces c). \<exists>a\<in>set (js_alternates i). fastboot_alternate a) (js_configurations D) of
           None \<Rightarrow> (Err (Text ''Fastboot configuration is missing''), w)
         | Some c \<Rightarrow> and_then (js_select D (js_value c)) (\<lambda>_ w.
             (case js_configuration D w of Some c \<Rightarrow> (Ok c, w) | None \<Rightarrow> (Err (Text ''TypeError''), w))) w)) (\<lambda>c.
     (case find (\<lambda>i. fastboot_alternate (js_active i)) (js_interfaces c) of
        None \<Rightarrow> fail (Text ''Fastboot interface is missing'')
      | Some i \<Rightarrow> ret (js_number i)))"

section \<open>The session\<close>

record ('c, 'w, 'i) fastboot =
  fb_client :: "'c option"
  fb_interface :: "'i option"
  fb_world :: 'w

definition on_fb_world :: "('w, 'e, 'a) act \<Rightarrow> (('c, 'w, 'i) fastboot, 'e, 'a) act" where
  "on_fb_world m = (\<lambda>s. case m (fb_world s) of (r, v) \<Rightarrow> (r, s\<lparr>fb_world := v\<rparr>))"

definition fb_usable :: "('c, 'w, 'i) fastboot \<Rightarrow> bool" where
  "fb_usable s \<longleftrightarrow> fb_client s \<noteq> None"

definition fb_close :: "('w, 'i, 'n) web_usb \<Rightarrow> (('c, 'w, 'i) fastboot, js_error, unit) act" where
  "fb_close W s = match_result (on_fb_world (close_web awaited W (fb_interface s))) ret (\<lambda>e. fail (Thrown e))
     (s\<lparr>fb_client := None, fb_interface := None\<rparr>)"

definition fb_close_failed :: "('w, 'i, 'n) web_usb \<Rightarrow> js_error \<Rightarrow> (('c, 'w, 'i) fastboot, js_error, 'a) act" where
  "fb_close_failed W first s =
     and_then (on_fb_world (close_after_failure W first (fb_interface s))) fail (s\<lparr>fb_interface := None\<rparr>)"

text \<open>A complete FAIL ends the command and preserves framing; every other failure closes.\<close>

definition fb_finish ::
  "('c, 'w, 'i, 'f) fastboot_engine \<Rightarrow> ('w, 'i, 'n) web_usb \<Rightarrow> 'c \<Rightarrow> ('f + 'a) option \<Rightarrow> (('c, 'w, 'i) fastboot, js_error, 'a) act" where
  "fb_finish F W c result s = (case result of
     Some (Inr value) \<Rightarrow> (Ok value, s\<lparr>fb_client := Some c\<rparr>)
   | Some (Inl e) \<Rightarrow>
       if fastboot_failed F e then (Err (Text (fb_display F e)), s\<lparr>fb_client := Some c\<rparr>)
       else fb_close_failed W (Text (fb_display F e)) s
   | None \<Rightarrow> fb_close_failed W (Text ''USB operation timed out; reconnect'') s)"

text \<open>The end of \<open>flash\<close>: here a FAIL closes too.\<close>

definition flash_finish ::
  "('c, 'w, 'i, 'f) fastboot_engine \<Rightarrow> ('w, 'i, 'n) web_usb \<Rightarrow> 'c \<Rightarrow> ('f + unit) option \<Rightarrow> (('c, 'w, 'i) fastboot, js_error, unit) act" where
  "flash_finish F W c result s = (case result of
     Some (Inr _) \<Rightarrow> (Ok (), s\<lparr>fb_client := Some c\<rparr>)
   | Some (Inl e) \<Rightarrow> fb_close_failed W (Text (fb_display F e)) s
   | None \<Rightarrow> fb_close_failed W (Text ''USB operation timed out; reconnect'') s)"

definition with_fastboot ::
  "('c \<Rightarrow> ('f + 'a) option \<Rightarrow> (('c, 'w, 'i) fastboot, js_error, 'b) act) \<Rightarrow> ('c \<times> 'w, 'f, 'a) act \<Rightarrow>
   (('c, 'w, 'i) fastboot, js_error, 'b) act" where
  "with_fastboot k m s = (case fb_client s of
     None \<Rightarrow> (Err (Text ''session is closed or uncertain; reconnect''), s)
   | Some c \<Rightarrow>
       (case bounded m (c, fb_world s) of
          (Ok result, (d, w)) \<Rightarrow> k d result (s\<lparr>fb_client := None, fb_world := w\<rparr>)
        | (Err e, (d, w)) \<Rightarrow> (Err e, s\<lparr>fb_client := None, fb_world := w\<rparr>)
        | (Dropped, (d, w)) \<Rightarrow> (Dropped, s\<lparr>fb_client := None, fb_world := w\<rparr>)
        | (Panicked, (d, w)) \<Rightarrow> (Panicked, s\<lparr>fb_client := None, fb_world := w\<rparr>)))"

definition get_var ::
  "('c, 'w, 'i, 'f) fastboot_engine \<Rightarrow> ('w, 'i, 'n) web_usb \<Rightarrow> string \<Rightarrow> (('c, 'w, 'i) fastboot, js_error, string) act" where
  "get_var F W name = with_fastboot (fb_finish F W) (fb_get_var F name)"

definition fastboot_command ::
  "('c, 'w, 'i, 'f) fastboot_engine \<Rightarrow> ('w, 'i, 'n) web_usb \<Rightarrow> string \<Rightarrow> (('c, 'w, 'i) fastboot, js_error, string) act" where
  "fastboot_command F W text = with_fastboot (fb_finish F W) (fb_command F text)"

definition fetch ::
  "('c, 'w, 'i, 'f) fastboot_engine \<Rightarrow> ('w, 'i, 'n) web_usb \<Rightarrow> string \<Rightarrow> u64 \<Rightarrow> u32 \<Rightarrow> (('c, 'w, 'i) fastboot, js_error, u8 list) act" where
  "fetch F W part offset len = with_fastboot (fb_finish F W) (fb_fetch F part offset len)"

definition flash_body :: "('c, 'w, 'i, 'f) fastboot_engine \<Rightarrow> string \<Rightarrow> u32 \<Rightarrow> u8 list \<Rightarrow> ('c \<times> 'w, 'f, unit) act" where
  "flash_body F part bytes_len img =
     and_then (fb_download F bytes_len) (\<lambda>_.
     and_then (fb_extend F img) (\<lambda>_.
     and_then (fb_finish_download F) (\<lambda>_.
     fb_flash F part)))"

definition flash ::
  "('c, 'w, 'i, 'f) fastboot_engine \<Rightarrow> ('w, 'i, 'n) web_usb \<Rightarrow> string \<Rightarrow> u8 list \<Rightarrow> (('c, 'w, 'i) fastboot, js_error, unit) act" where
  "flash F W part img = (case u32_try_from (length img) of
     None \<Rightarrow> fail (Text ''out of range integral type conversion attempted'')
   | Some bytes_len \<Rightarrow>
       if bytes_len = 0 then fail (Text ''empty image'')
       else with_fastboot (flash_finish F W) (flash_body F part bytes_len img))"

text \<open>Rust's \<open>{:x}\<close>: lower-case hexadecimal without leading zeros.\<close>

definition hex_digit :: "nat \<Rightarrow> char" where
  "hex_digit d = ''0123456789abcdef'' ! d"

fun hex :: "nat \<Rightarrow> string" where
  "hex n = (if n < 16 then [hex_digit n] else hex (n div 16) @ [hex_digit (n mod 16)])"

declare hex.simps [simp del]

definition hash_command :: "string \<Rightarrow> u64 \<Rightarrow> u64 \<Rightarrow> string" where
  "hash_command part offset len = ''hash:'' @ part @ '':'' @ hex (unat offset) @ '':'' @ hex (unat len)"

definition hash_range ::
  "('c, 'w, 'i, 'f) fastboot_engine \<Rightarrow> ('w, 'i, 'n) web_usb \<Rightarrow> (string \<Rightarrow> string + u8 list) \<Rightarrow>
   string \<Rightarrow> u64 \<Rightarrow> u64 \<Rightarrow> (('c, 'w, 'i) fastboot, js_error, u8 list) act" where
  "hash_range F W decode part offset len =
     and_then (get_var F W ''canoe-hash'') (\<lambda>capability.
     and_then (require (capability = ''sha256-range-v1'') (Text ''partition hash is not supported'')) (\<lambda>_.
     and_then (require (\<not> (CHR '':'' \<in> set part \<or> len = 0 \<or> checked_add offset len = None))
       (Text ''invalid hash range'')) (\<lambda>_.
     and_then (fastboot_command F W (hash_command part offset len)) (\<lambda>reply.
     (case decode reply of
        Inl e \<Rightarrow> fail (Text e)
      | Inr hash \<Rightarrow>
          and_then (require (length hash = 32) (Text ''invalid SHA-256 reply length'')) (\<lambda>_. ret hash))))))"

section \<open>Opening\<close>

text \<open>Nothing is raced here; \<open>claimed\<close> outlives the body.\<close>

definition open_fastboot ::
  "('c, 'w, 'i, 'f) fastboot_engine \<Rightarrow> ('w, 'i, 'n) web_usb \<Rightarrow> 'w js_device \<Rightarrow> ('w, js_error, ('c, 'w, 'i) fastboot) act" where
  "open_fastboot F W D =
     match_result (from_js W) (\<lambda>native w.
       (case and_then (on_world (fastboot_interface D)) (\<lambda>number.
             and_then (on_world (map_err Thrown (claim_interface W native (of_nat number)))) (\<lambda>i.
             and_then (modify (\<lambda>(_, v). (Some i, v))) (\<lambda>_.
             on_world (map_err Text (fb_from_interface F i))))) (None, w) of
          (Ok c, (claimed, v)) \<Rightarrow> (Ok \<lparr>fb_client = Some c, fb_interface = claimed, fb_world = v\<rparr>, v)
        | (Err e, (claimed, v)) \<Rightarrow> and_then (close_after_failure W e claimed) fail v
        | (Dropped, (_, v)) \<Rightarrow> (Dropped, v)
        | (Panicked, (_, v)) \<Rightarrow> (Panicked, v)))
     (\<lambda>e. and_then (close_after_failure W (Thrown e) None) fail)"

definition request_fastboot ::
  "('c, 'w, 'i, 'f) fastboot_engine \<Rightarrow> ('w, 'i, 'n) web_usb \<Rightarrow> ('w, js_error, 'w js_device) act \<Rightarrow> ('w, js_error, ('c, 'w, 'i) fastboot) act" where
  "request_fastboot F W chosen = and_then chosen (open_fastboot F W)"

end
