(* ===== verification/Fastboot_Properties.thy ===== *)
theory Fastboot_Properties
  imports Fastboot_Web
begin

text \<open>
  The properties of \<open>FastbootSession\<close>: a client is kept only after a success or a complete FAIL, a
  flash sends the whole image or closes, and \<open>hashRange\<close> sends one unambiguous command and returns
  only 32 bytes.
\<close>

lemma fb_close_failed_run:
  assumes "fb_close_failed W p s = (r, t)" "r \<noteq> Panicked"
  shows "t = s\<lparr>fb_interface := None, fb_world := snd (close_web awaited W (fb_interface s) (fb_world s))\<rparr> \<and>
    (\<exists>e. r = Err e \<and> js_cause e = js_cause p)"
proof -
  obtain q x where q: "close_after_failure W p (fb_interface s) (fb_world s) = (q, x)" by fastforce
  then have "q \<noteq> Panicked" using assms by (auto simp: fb_close_failed_def on_fb_world_def and_then_def)
  from close_after_failure_run [OF q this] q assms(1) show ?thesis
    by (auto simp: fb_close_failed_def on_fb_world_def and_then_def act_simps)
qed

lemma with_fastboot_closed:
  "fb_client s = None \<Longrightarrow> with_fastboot k m s = (Err (Text ''session is closed or uncertain; reconnect''), s)"
  by (simp add: with_fastboot_def)

text \<open>Both ways of finishing, with what counts as certain as a parameter.\<close>

definition fb_ends ::
  "('f \<Rightarrow> bool) \<Rightarrow> ('f \<Rightarrow> string) \<Rightarrow> ('w, 'i, 'n) web_usb \<Rightarrow> ('c \<times> 'w, 'f, 'a) act \<Rightarrow> 'c \<Rightarrow>
   ('c, 'w, 'i) fastboot \<Rightarrow> (js_error, 'a) outcome \<Rightarrow> ('c, 'w, 'i) fastboot \<Rightarrow> bool" where
  "fb_ends keep display W m c s r t \<longleftrightarrow> (\<exists>q d w. m (c, fb_world s) = (q, (d, w)) \<and>
     (if q = Dropped \<or> (\<exists>f. q = Err f \<and> \<not> keep f)
      then fb_client t = None \<and> fb_interface t = None \<and> fb_world t = snd (close_web awaited W (fb_interface s) w) \<and>
        (\<exists>e. r = Err e \<and> js_cause e = (case q of Err f \<Rightarrow> Text (display f) | _ \<Rightarrow> Text ''USB operation timed out; reconnect''))
      else fb_client t = Some d \<and> fb_interface t = fb_interface s \<and> fb_world t = w \<and>
        ((\<exists>x. q = Ok x \<and> r = Ok x) \<or> (\<exists>f. q = Err f \<and> r = Err (Text (display f))))))"

lemma fb_close_failed_ends:
  assumes "fb_close_failed W (Text p) (s\<lparr>fb_client := None, fb_world := w\<rparr>) = (r, t)" "r \<noteq> Panicked"
    "m (c, fb_world s) = (q, (d, w))" "q = Dropped \<or> (\<exists>f. q = Err f \<and> \<not> keep f)"
    "Text p = (case q of Err f \<Rightarrow> Text (display f) | _ \<Rightarrow> Text ''USB operation timed out; reconnect'')"
  shows "fb_ends keep display W m c s r t"
proof -
  from fb_close_failed_run [OF assms(1,2)]
  have "fb_client t = None \<and> fb_interface t = None \<and> fb_world t = snd (close_web awaited W (fb_interface s) w) \<and>
    (\<exists>e. r = Err e \<and> js_cause e = Text p)" by simp
  then show ?thesis unfolding fb_ends_def using assms(3,4)
    by (intro exI [of _ q] exI [of _ d] exI [of _ w]) (simp add: assms(5) [symmetric])
qed

lemma with_fastboot_ends:
  assumes "with_fastboot (fb_finish F W) m s = (r, t)" "fb_client s = Some c" "r \<noteq> Panicked"
  shows "fb_ends (fastboot_failed F) (fb_display F) W m c s r t"
proof -
  obtain q d w where q: "m (c, fb_world s) = (q, (d, w))" by (metis surj_pair)
  note closed = fb_close_failed_ends [where keep = "fastboot_failed F" and display = "fb_display F" and m = m, OF _ assms(3) q]
  show ?thesis
  proof (cases q)
    case (Err f)
    show ?thesis
    proof (cases "fastboot_failed F f")
      case True
      then show ?thesis using assms(1,2) q Err
        by (auto simp: with_fastboot_def bounded_def deadline_def fb_finish_def fb_ends_def)
    next
      case False
      then show ?thesis using assms(1,2) q Err
        by (intro closed [where p = "fb_display F f"]) (auto simp: with_fastboot_def bounded_def deadline_def fb_finish_def)
    qed
  next
    case Dropped
    then show ?thesis using assms(1,2) q
      by (intro closed [where p = "''USB operation timed out; reconnect''"])
        (auto simp: with_fastboot_def bounded_def deadline_def fb_finish_def)
  qed (use assms q in \<open>auto simp: with_fastboot_def bounded_def deadline_def fb_finish_def fb_ends_def\<close>)
qed

lemma with_flash_ends:
  assumes "with_fastboot (flash_finish F W) m s = (r, t)" "fb_client s = Some c" "r \<noteq> Panicked"
  shows "fb_ends (\<lambda>_. False) (fb_display F) W m c s r t"
proof -
  obtain q d w where q: "m (c, fb_world s) = (q, (d, w))" by (metis surj_pair)
  note closed = fb_close_failed_ends [where keep = "\<lambda>_. False" and display = "fb_display F" and m = m, OF _ assms(3) q]
  show ?thesis
  proof (cases q)
    case (Err f)
    then show ?thesis using assms(1,2) q
      by (intro closed [where p = "fb_display F f"]) (auto simp: with_fastboot_def bounded_def deadline_def flash_finish_def)
  next
    case Dropped
    then show ?thesis using assms(1,2) q
      by (intro closed [where p = "''USB operation timed out; reconnect''"])
        (auto simp: with_fastboot_def bounded_def deadline_def flash_finish_def)
  qed (use assms q in \<open>auto simp: with_fastboot_def bounded_def deadline_def flash_finish_def fb_ends_def\<close>)
qed

text \<open>An engine for the examples: it counts its calls, and fails with 1 (FAIL) or 2 (transport).\<close>

definition sample_engine :: "(nat, bool, unit, nat) fastboot_engine" where
  "sample_engine = \<lparr>fb_from_interface = (\<lambda>_. ret 0), fb_get_var = (\<lambda>name (c, w). if name = ''missing'' then (Err 1, (Suc c, w)) else (Ok ''sha256-range-v1'', (Suc c, w))),
     fb_command = (\<lambda>_ (c, w). (Ok ''hash'', (Suc c, w))), fb_fetch = (\<lambda>_ _ _. fail 2),
     fb_download = (\<lambda>_ (c, w). (Ok (), (Suc c, w))), fb_extend = (\<lambda>_ (c, w). (Ok (), (Suc c, w))),
     fb_finish_download = (\<lambda>(c, w). (Ok (), (Suc c, w))), fb_flash = (\<lambda>part (c, w). if part = ''gone'' then (Err 1, (Suc c, w)) else (Ok (), (Suc c, w))),
     fastboot_failed = (\<lambda>f. f = 1), fb_display = (\<lambda>f. if f = 1 then ''FAIL'' else ''disconnected'')\<rparr>"

definition sample_fastboot :: "(nat, bool, unit) fastboot" where
  "sample_fastboot = \<lparr>fb_client = Some 0, fb_interface = Some (), fb_world = True\<rparr>"

lemma sample_close [simp]: "close_web awaited sample_web (Some ()) True = (Err (Open ''release''), False)"
  by (simp add: close_web_def release_step_def close_step_run deadline_def and_then_def sample_web_def act_simps)

text \<open>
  C30: A fastboot client survives only a certain outcome. After \<open>getVar\<close>, \<open>command\<close> or \<open>fetch\<close> it is put
  back exactly when the engine succeeded or reported a complete FAIL. After any other engine
  error, and when the time runs out, it is dropped, \<open>close_web\<close> runs with the session's interface
  in the world the call left, and the error returned has the engine's error or the timeout as its
  cause. A session without a client refuses and changes nothing.
\<close>

theorem fastboot_keeps_only_certain_clients:
  assumes "with_fastboot (fb_finish F W) m s = (r, t)" "r \<noteq> Panicked"
  shows "(fb_client s = None \<longrightarrow> t = s \<and> (\<exists>e. r = Err e)) \<and>
    (\<forall>c q d w. fb_client s = Some c \<and> m (c, fb_world s) = (q, (d, w)) \<longrightarrow>
      (if q = Dropped \<or> (\<exists>f. q = Err f \<and> \<not> fastboot_failed F f)
       then fb_client t = None \<and> fb_interface t = None \<and> fb_world t = snd (close_web awaited W (fb_interface s) w) \<and>
         (\<exists>e. r = Err e \<and> js_cause e = (case q of Err f \<Rightarrow> Text (fb_display F f) | _ \<Rightarrow> Text ''USB operation timed out; reconnect''))
       else fb_client t = Some d \<and> fb_interface t = fb_interface s \<and> fb_world t = w \<and>
         ((\<exists>x. q = Ok x \<and> r = Ok x) \<or> (\<exists>f. q = Err f \<and> r = Err (Text (fb_display F f))))))"
proof (cases "fb_client s")
  case None
  then show ?thesis using assms(1) by (auto simp: with_fastboot_closed)
next
  case (Some c)
  from with_fastboot_ends [OF assms(1) Some assms(2)] obtain q d w where q: "m (c, fb_world s) = (q, (d, w))" and
    ends: "if q = Dropped \<or> (\<exists>f. q = Err f \<and> \<not> fastboot_failed F f)
       then fb_client t = None \<and> fb_interface t = None \<and> fb_world t = snd (close_web awaited W (fb_interface s) w) \<and>
         (\<exists>e. r = Err e \<and> js_cause e = (case q of Err f \<Rightarrow> Text (fb_display F f) | _ \<Rightarrow> Text ''USB operation timed out; reconnect''))
       else fb_client t = Some d \<and> fb_interface t = fb_interface s \<and> fb_world t = w \<and>
         ((\<exists>x. q = Ok x \<and> r = Ok x) \<or> (\<exists>f. q = Err f \<and> r = Err (Text (fb_display F f))))"
    unfolding fb_ends_def by blast
  show ?thesis using Some q ends by simp
qed

theorem fastboot_keeps_only_certain_clients_witness:
  "(\<exists>e t. fetch sample_engine sample_web ''boot'' 0 4 sample_fastboot = (Err e, t) \<and> fb_client t = None \<and> js_cause e = Text ''disconnected'') \<and>
   (\<exists>t. get_var sample_engine sample_web ''missing'' sample_fastboot = (Err (Text ''FAIL''), t) \<and> fb_client t = Some 1)"
proof
  obtain r t where run: "fetch sample_engine sample_web ''boot'' 0 4 sample_fastboot = (r, t)" by fastforce
  have "r \<noteq> Panicked" using run
    by (auto simp: fetch_def with_fastboot_def sample_fastboot_def sample_engine_def bounded_def deadline_def fb_finish_def
        fb_close_failed_def on_fb_world_def close_after_failure_def match_result_def and_then_def act_simps)
  from fastboot_keeps_only_certain_clients [OF run [unfolded fetch_def] this] run
  show "\<exists>e t. fetch sample_engine sample_web ''boot'' 0 4 sample_fastboot = (Err e, t) \<and> fb_client t = None \<and> js_cause e = Text ''disconnected''"
    by (auto simp: sample_fastboot_def sample_engine_def act_simps)
next
  obtain r t where run: "get_var sample_engine sample_web ''missing'' sample_fastboot = (r, t)" by fastforce
  have "r \<noteq> Panicked" using run
    by (auto simp: get_var_def with_fastboot_def sample_fastboot_def sample_engine_def bounded_def deadline_def fb_finish_def)
  from fastboot_keeps_only_certain_clients [OF run [unfolded get_var_def] this] run
  show "\<exists>t. get_var sample_engine sample_web ''missing'' sample_fastboot = (Err (Text ''FAIL''), t) \<and> fb_client t = Some 1"
    by (auto simp: sample_fastboot_def sample_engine_def)
qed

text \<open>
  C29: A flash is all or closed. An empty image and one of 2^32 bytes or more are refused before
  anything is taken or sent. Otherwise \<open>Ok\<close> means that the download was opened for exactly the
  image's length, the whole image went into it, it was finished and then the partition was
  flashed, in that order and once each, and the client is back; any failure, a FAIL included,
  and the timeout drop the client and close the interface.
\<close>

theorem flash_is_all_or_closed:
  assumes "flash F W part img s = (r, t)" "fb_client s = Some c" "r \<noteq> Panicked"
  shows "(img = [] \<or> 2 ^ 32 \<le> length img \<longrightarrow> t = s \<and> (\<exists>e. r = Err e)) \<and>
    (r = Ok () \<longrightarrow> (\<exists>x y z c'. fb_download F (of_nat (length img)) (c, fb_world s) = (Ok (), x) \<and>
      fb_extend F img x = (Ok (), y) \<and> fb_finish_download F y = (Ok (), z) \<and>
      fb_flash F part z = (Ok (), (c', fb_world t)) \<and> fb_client t = Some c' \<and> fb_interface t = fb_interface s)) \<and>
    (img \<noteq> [] \<and> length img < 2 ^ 32 \<and> r \<noteq> Ok () \<longrightarrow> fb_client t = None \<and> fb_interface t = None \<and>
      (\<exists>w. fb_world t = snd (close_web awaited W (fb_interface s) w)))"
proof (cases "img = [] \<or> 2 ^ 32 \<le> length img")
  case True
  then show ?thesis using assms(1) by (auto simp: flash_def u32_try_from_def act_simps)
next
  case False
  then have n: "0 < length img" "length img < 2 ^ 32" by auto
  then have "unat (of_nat (length img) :: u32) = length img" by (simp add: unat_of_nat)
  with n have "(of_nat (length img) :: u32) \<noteq> 0" by (metis neq0_conv unat_0)
  with n have run: "with_fastboot (flash_finish F W) (flash_body F part (of_nat (length img)) img) s = (r, t)"
    using assms(1) by (simp add: flash_def u32_try_from_def)
  from with_flash_ends [OF run assms(2,3)] obtain q d w where
    q: "flash_body F part (of_nat (length img)) img (c, fb_world s) = (q, (d, w))" and
    ends: "if q = Dropped \<or> (\<exists>f. q = Err f)
       then fb_client t = None \<and> fb_interface t = None \<and> fb_world t = snd (close_web awaited W (fb_interface s) w) \<and> (\<exists>e. r = Err e)
       else fb_client t = Some d \<and> fb_interface t = fb_interface s \<and> fb_world t = w \<and> (\<exists>x. q = Ok x \<and> r = Ok x)"
    unfolding fb_ends_def by (auto split: if_split_asm)
  show ?thesis
  proof (cases "r = Ok ()")
    case True
    then have "q = Ok ()" "fb_client t = Some d" "fb_interface t = fb_interface s" "fb_world t = w"
      using ends by (auto split: if_split_asm)
    with q True False show ?thesis by (fastforce simp: flash_body_def and_then_Ok)
  next
    case bad: False
    then show ?thesis using ends False by (auto split: if_split_asm)
  qed
qed

theorem flash_is_all_or_closed_witness:
  "(\<exists>t. flash sample_engine sample_web ''boot'' [1, 2] sample_fastboot = (Ok (), t) \<and> fb_client t = Some 4) \<and>
   (\<exists>e t. flash sample_engine sample_web ''gone'' [1, 2] sample_fastboot = (Err e, t) \<and> fb_client t = None)"
proof
  have c: "fb_client sample_fastboot = Some 0" by (simp add: sample_fastboot_def)
  note eval = flash_def u32_try_from_def with_fastboot_def sample_fastboot_def sample_engine_def bounded_def deadline_def
    flash_body_def flash_finish_def fb_close_failed_def on_fb_world_def close_after_failure_def match_result_def and_then_def act_simps
  obtain r t where run: "flash sample_engine sample_web ''boot'' [1, 2] sample_fastboot = (r, t)" by fastforce
  have "r = Ok ()" using run by (auto simp: eval)
  then show "\<exists>t. flash sample_engine sample_web ''boot'' [1, 2] sample_fastboot = (Ok (), t) \<and> fb_client t = Some 4"
    using flash_is_all_or_closed [OF run c] run by (auto simp: sample_engine_def sample_fastboot_def)
  obtain q u where run2: "flash sample_engine sample_web ''gone'' [1, 2] sample_fastboot = (q, u)" by fastforce
  have "\<exists>e. q = Err e" using run2 by (auto simp: eval)
  then show "\<exists>e t. flash sample_engine sample_web ''gone'' [1, 2] sample_fastboot = (Err e, t) \<and> fb_client t = None"
    using flash_is_all_or_closed [OF run2 c] run2 by auto
qed

section \<open>Hash ranges\<close>

fun hex_value :: "nat \<Rightarrow> string \<Rightarrow> nat" where
  "hex_value a [] = a"
| "hex_value a (c # cs) = hex_value (16 * a + length (takeWhile (\<lambda>d. d \<noteq> c) ''0123456789abcdef'')) cs"

lemma hex_value_append: "hex_value a (xs @ ys) = hex_value (hex_value a xs) ys"
  by (induction xs arbitrary: a) simp_all

lemma hex_digit_value:
  assumes "d < 16"
  shows "length (takeWhile (\<lambda>x. x \<noteq> hex_digit d) ''0123456789abcdef'') = d" "hex_digit d \<noteq> CHR '':''"
proof -
  have "\<forall>d\<in>set [0..<16]. length (takeWhile (\<lambda>x. x \<noteq> hex_digit d) ''0123456789abcdef'') = d \<and> hex_digit d \<noteq> CHR '':''"
    by (simp add: upt_rec hex_digit_def)
  then show "length (takeWhile (\<lambda>x. x \<noteq> hex_digit d) ''0123456789abcdef'') = d" "hex_digit d \<noteq> CHR '':''"
    using assms by auto
qed

lemma hex_facts: "hex_value 0 (hex n) = n \<and> CHR '':'' \<notin> set (hex n)"
proof (induction n rule: hex.induct)
  case (1 n)
  show ?case
  proof (cases "n < 16")
    case True
    then show ?thesis using hex_digit_value [of n] by (simp add: hex.simps [of n])
  next
    case False
    then show ?thesis using 1 hex_digit_value [of "n mod 16"]
      by (simp add: hex.simps [of n] hex_value_append)
  qed
qed

lemma split_at_colon:
  "xs @ CHR '':'' # us = ys @ CHR '':'' # vs \<Longrightarrow> CHR '':'' \<notin> set xs \<Longrightarrow> CHR '':'' \<notin> set ys \<Longrightarrow> xs = ys \<and> us = vs"
proof (induction xs arbitrary: ys)
  case Nil
  then show ?case by (cases ys) auto
next
  case (Cons x xs)
  then show ?case by (cases ys) auto
qed

lemma hex_inject: "hex m = hex n \<longleftrightarrow> m = n"
  by (metis hex_facts)

text \<open>
  C39: The hash command is unambiguous: two requests whose partition names hold no colon give the same
  command text only if partition, offset and length are the same, so the device cannot read one
  request as another.
\<close>

theorem hash_command_unambiguous:
  assumes "CHR '':'' \<notin> set part" "CHR '':'' \<notin> set part'"
  shows "hash_command part offset len = hash_command part' offset' len' \<longleftrightarrow>
    part = part' \<and> offset = offset' \<and> len = len'"
proof
  assume eq: "hash_command part offset len = hash_command part' offset' len'"
  then have "part @ CHR '':'' # (hex (unat offset) @ CHR '':'' # hex (unat len)) =
      part' @ CHR '':'' # (hex (unat offset') @ CHR '':'' # hex (unat len'))" by (simp add: hash_command_def)
  from split_at_colon [OF this assms] have "part = part'"
    "hex (unat offset) @ CHR '':'' # hex (unat len) = hex (unat offset') @ CHR '':'' # hex (unat len')" by auto
  with split_at_colon [OF this(2)] show "part = part' \<and> offset = offset' \<and> len = len'"
    by (simp add: hex_facts hex_inject word_unat_eq_iff)
qed simp

theorem hash_command_unambiguous_witness:
  "hash_command ''boot'' 0x1000 16 \<noteq> hash_command ''boot'' 0x100 16"
  by (subst hash_command_unambiguous) simp_all

text \<open>
  \<open>hashRange\<close> returns only what the device answered to this request: with \<open>Ok(hash)\<close> the device
  offers the capability, the partition name has no colon, the range is not empty and does not
  wrap, exactly one hash command for it was sent, its reply decodes to the hash and the hash has 32
  bytes. An invalid range is refused with no command after the capability was read.
\<close>

theorem hash_range_sound:
  assumes "hash_range F W decode part offset len s = (r, t)"
  shows "(\<forall>h. r = Ok h \<longrightarrow> length h = 32 \<and> CHR '':'' \<notin> set part \<and> len \<noteq> 0 \<and> unat offset + unat len < 2 ^ 64 \<and>
      (\<exists>u reply. get_var F W ''canoe-hash'' s = (Ok ''sha256-range-v1'', u) \<and>
        fastboot_command F W (hash_command part offset len) u = (Ok reply, t) \<and> decode reply = Inr h)) \<and>
    (CHR '':'' \<in> set part \<or> len = 0 \<or> 2 ^ 64 \<le> unat offset + unat len \<longrightarrow> t = snd (get_var F W ''canoe-hash'' s))"
proof (intro conjI allI impI)
  fix h assume "r = Ok h"
  with assms obtain u v reply where got: "get_var F W ''canoe-hash'' s = (Ok ''sha256-range-v1'', u)"
    "CHR '':'' \<notin> set part" "len \<noteq> 0" "checked_add offset len \<noteq> None"
    "fastboot_command F W (hash_command part offset len) u = (Ok reply, v)"
    "(case decode reply of Inl e \<Rightarrow> fail (Text e)
      | Inr hash \<Rightarrow> and_then (require (length hash = 32) (Text ''invalid SHA-256 reply length'')) (\<lambda>_. ret hash)) v = (Ok h, t)"
    by (auto simp: hash_range_def and_then_Ok require_iffs)
  then have "decode reply = Inr h" "length h = 32" "v = t"
    by (cases "decode reply"; auto simp: act_simps and_then_Ok require_iffs act_iffs)+
  with got show "length h = 32" "CHR '':'' \<notin> set part" "len \<noteq> 0" "unat offset + unat len < 2 ^ 64"
    "\<exists>u reply. get_var F W ''canoe-hash'' s = (Ok ''sha256-range-v1'', u) \<and>
        fastboot_command F W (hash_command part offset len) u = (Ok reply, t) \<and> decode reply = Inr h"
    by (auto simp: checked_add_def split: if_split_asm)
next
  assume bad: "CHR '':'' \<in> set part \<or> len = 0 \<or> 2 ^ 64 \<le> unat offset + unat len"
  then have invalid: "(CHR '':'' \<in> set part \<or> len = 0 \<or> checked_add offset len = None) = True" by (auto simp: checked_add_def)
  obtain q u where q: "get_var F W ''canoe-hash'' s = (q, u)" by fastforce
  show "t = snd (get_var F W ''canoe-hash'' s)"
    using assms q unfolding hash_range_def invalid by (cases q) (auto simp: and_then_def act_simps require_def split: if_split_asm)
qed

theorem hash_range_sound_witness:
  "\<exists>h t. hash_range sample_engine sample_web (\<lambda>_. Inr (replicate 32 7)) ''boot'' 0 16 sample_fastboot = (Ok h, t) \<and> length h = 32"
proof -
  have "\<exists>t. hash_range sample_engine sample_web (\<lambda>_. Inr (replicate 32 7)) ''boot'' 0 16 sample_fastboot = (Ok (replicate 32 7), t)"
    by (simp add: hash_range_def get_var_def fastboot_command_def with_fastboot_def sample_fastboot_def sample_engine_def
        bounded_def deadline_def fb_finish_def and_then_def act_simps checked_add_def)
  then obtain t where run: "hash_range sample_engine sample_web (\<lambda>_. Inr (replicate 32 7)) ''boot'' 0 16 sample_fastboot = (Ok (replicate 32 7), t)" ..
  show ?thesis using hash_range_sound [OF run] run by blast
qed

end
