(* ===== verification/Fs_Path.thy ===== *)
theory Fs_Path
  imports Prelude
begin

text \<open>
  Path validation of \<open>canoe-fs/src/lib.rs\<close>: \<open>path\<close>, and the two ways the code takes a path apart,
  \<open>rsplit_once('/')\<close> and \<open>&value[1..]\<close>. A Rust \<open>&str\<close> is a list of Unicode code points; its length
  is the number of its UTF-8 bytes.
\<close>

type_synonym ustr = "nat list"

section \<open>Strings\<close>

text \<open>\<open>char::len_utf8\<close> and \<open>str::len\<close>.\<close>

definition utf8_width :: "nat \<Rightarrow> nat" where
  "utf8_width c = (if c < 0x80 then 1 else if c < 0x800 then 2 else if c < 0x10000 then 3 else 4)"

definition str_len :: "ustr \<Rightarrow> nat" where
  "str_len s = sum_list (map utf8_width s)"

text \<open>\<open>char::is_control\<close>: the Unicode category \<open>Cc\<close>.\<close>

definition is_control :: "nat \<Rightarrow> bool" where
  "is_control c \<longleftrightarrow> c < 32 \<or> 127 \<le> c \<and> c < 160"

definition slash :: nat where
  "slash = 47"

text \<open>\<open>str::split\<close> at a character: always at least one piece.\<close>

fun split_at :: "nat \<Rightarrow> ustr \<Rightarrow> ustr list" where
  "split_at d [] = [[]]"
| "split_at d (c # cs) =
     (if c = d then [] # split_at d cs
      else case split_at d cs of [] \<Rightarrow> [[c]] | p # ps \<Rightarrow> (c # p) # ps)"

text \<open>\<open>str::rsplit_once\<close>: the text before and after the last separator.\<close>

fun rsplit_once :: "nat \<Rightarrow> ustr \<Rightarrow> (ustr \<times> ustr) option" where
  "rsplit_once d [] = None"
| "rsplit_once d (c # cs) =
     (case rsplit_once d cs of
        Some (a, b) \<Rightarrow> Some (c # a, b)
      | None \<Rightarrow> if c = d then Some ([], cs) else None)"

text \<open>
  \<open>&value[1..]\<close>: it panics, \<open>None\<close>, on the empty string and inside a character of several bytes.
\<close>

fun after_first :: "ustr \<Rightarrow> ustr option" where
  "after_first [] = None"
| "after_first (c # cs) = (if utf8_width c = 1 then Some cs else None)"

section \<open>\<open>path\<close>\<close>

text \<open>The characters \<open>\ : * ? " < > |\<close>.\<close>

definition reserved :: "nat list" where
  "reserved = [92, 58, 42, 63, 34, 60, 62, 124]"

definition bad_component :: "ustr \<Rightarrow> bool" where
  "bad_component c \<longleftrightarrow> c = [] \<or> c = [46] \<or> c = [46, 46] \<or> 255 < str_len c \<or> last c = 46 \<or> last c = 32 \<or>
     list_ex (\<lambda>x. is_control x \<or> x \<in> set reserved) c"

definition path :: "ustr \<Rightarrow> string + ustr" where
  "path v =
     (if v = [slash] then Inr v
      else if v = [] \<or> hd v \<noteq> slash \<or> 4096 < str_len v \<or> last v = slash then Inl ''invalid filesystem path''
      else if list_ex bad_component (split_at slash (tl v)) then Inl ''invalid filesystem path component''
      else Inr v)"

section \<open>The accepted paths\<close>

lemma split_at_nonempty [simp]: "split_at d s \<noteq> []"
  by (induction s) (auto split: list.split)

lemma split_at_Cons: "c \<noteq> d \<Longrightarrow> split_at d (c # cs) = (c # hd (split_at d cs)) # tl (split_at d cs)"
  by (cases "split_at d cs") auto

lemma split_at_part: "d \<notin> set p \<Longrightarrow> split_at d (p @ d # s) = p # split_at d s"
  by (induction p) auto

lemma split_at_whole: "d \<notin> set p \<Longrightarrow> split_at d p = [p]"
  by (induction p) auto

text \<open>Joining the pieces again: \<open>split_at\<close> loses nothing, and no piece holds the separator.\<close>

definition join_with :: "nat \<Rightarrow> ustr list \<Rightarrow> ustr" where
  "join_with d ps = concat (map ((#) d) ps)"

lemma join_split: "join_with d (split_at d s) = d # s"
proof (induction s)
  case (Cons c cs)
  then show ?case by (cases "split_at d cs") (auto simp: join_with_def)
qed (simp add: join_with_def)

lemma split_join: "ps \<noteq> [] \<Longrightarrow> \<forall>p\<in>set ps. d \<notin> set p \<Longrightarrow> split_at d (tl (join_with d ps)) = ps"
proof (induction ps)
  case (Cons p ps)
  show ?case
  proof (cases ps)
    case Nil
    then show ?thesis using Cons.prems by (simp add: join_with_def split_at_whole)
  next
    case (Cons q qs)
    then have "tl (join_with d (p # ps)) = p @ d # tl (join_with d ps)" by (simp add: join_with_def)
    then show ?thesis using Cons Cons.IH Cons.prems by (simp add: split_at_part)
  qed
qed simp

lemma split_pieces: "p \<in> set (split_at d s) \<Longrightarrow> d \<notin> set p"
proof (induction s arbitrary: p)
  case (Cons c cs)
  obtain q qs where q: "split_at d cs = q # qs" by (cases "split_at d cs") auto
  then have "d \<notin> set q" "\<forall>r\<in>set qs. d \<notin> set r" using Cons.IH by auto
  then show ?case using Cons.prems q by (cases "c = d") auto
qed simp

definition component :: "ustr \<Rightarrow> bool" where
  "component c \<longleftrightarrow> c \<noteq> [] \<and> str_len c \<le> 255 \<and> last c \<noteq> 46 \<and> last c \<noteq> 32 \<and>
     (\<forall>x\<in>set c. \<not> is_control x \<and> x \<notin> set reserved \<and> x \<noteq> slash)"

lemma component_slash: "component c \<Longrightarrow> slash \<notin> set c"
  by (auto simp: component_def)

lemma split_components: "cs \<noteq> [] \<Longrightarrow> \<forall>c\<in>set cs. component c \<Longrightarrow> split_at slash (tl (join_with slash cs)) = cs"
  by (rule split_join) (auto dest: component_slash)

lemma component_iff: "slash \<notin> set c \<Longrightarrow> component c \<longleftrightarrow> \<not> bad_component c"
  by (auto simp: component_def bad_component_def list_ex_iff)

lemma path_Inr: "path v = Inr u \<longleftrightarrow> u = v \<and> (v = [slash] \<or>
    (\<exists>cs. cs \<noteq> [] \<and> (\<forall>c\<in>set cs. component c) \<and> v = join_with slash cs \<and> str_len v \<le> 4096))"
proof (cases "v = [slash]")
  case True
  then show ?thesis by (auto simp: path_def)
next
  case False
  have "\<exists>cs. cs \<noteq> [] \<and> (\<forall>c\<in>set cs. component c) \<and> v = join_with slash cs"
    if v: "v \<noteq> []" "hd v = slash" and ok: "\<not> list_ex bad_component (split_at slash (tl v))"
  proof (intro exI conjI)
    show "split_at slash (tl v) \<noteq> []" by simp
    show "\<forall>c\<in>set (split_at slash (tl v)). component c"
      using ok component_iff split_pieces by (fastforce simp: list_ex_iff)
    show "v = join_with slash (split_at slash (tl v))" using v by (cases v) (simp_all add: join_split)
  qed
  moreover have "v \<noteq> [] \<and> hd v = slash \<and> last v \<noteq> slash \<and> \<not> list_ex bad_component (split_at slash (tl v))"
    if cs: "cs \<noteq> []" "\<forall>c\<in>set cs. component c" "v = join_with slash cs" for cs
  proof -
    have parts: "split_at slash (tl v) = cs" using cs by (simp add: split_components)
    obtain c rest where snoc: "cs = rest @ [c]" using cs(1) by (cases cs rule: rev_cases) auto
    have "component c" using cs(2) snoc by simp
    then have "last v \<noteq> slash" using cs(3) snoc by (auto simp: join_with_def component_def)
    moreover have "v \<noteq> [] \<and> hd v = slash" using cs(1,3) by (cases cs) (auto simp: join_with_def)
    moreover have "\<not> list_ex bad_component cs"
      using cs(2) component_iff by (auto simp: list_ex_iff component_def)
    ultimately show ?thesis using parts by simp
  qed
  ultimately show ?thesis using False by (auto simp: path_def)
qed

text \<open>
  C13: The accepted paths, exactly: the root, and the absolute paths of at most 4096 bytes that are
  slash-separated lists of components. A component is not empty, is at most 255 bytes long, does
  not end in a dot or a space (so neither \<open>.\<close> nor \<open>..\<close> is one) and has no control character, no
  separator of either kind and none of the characters FAT reserves. Two accepted paths are equal
  exactly if their components are: no path has a second spelling.
\<close>

theorem path_exact:
  "(path v = Inr u \<longleftrightarrow> u = v \<and> (v = [slash] \<or>
      (\<exists>cs. cs \<noteq> [] \<and> list_all component cs \<and> v = join_with slash cs \<and> str_len v \<le> 4096))) \<and>
   \<not> component [] \<and> \<not> component [46] \<and> \<not> component [46, 46] \<and>
   (list_all component cs \<and> list_all component ds \<longrightarrow> (join_with slash cs = join_with slash ds \<longleftrightarrow> cs = ds))"
proof (intro conjI impI)
  show "path v = Inr u \<longleftrightarrow> u = v \<and> (v = [slash] \<or>
      (\<exists>cs. cs \<noteq> [] \<and> list_all component cs \<and> v = join_with slash cs \<and> str_len v \<le> 4096))"
    unfolding path_Inr list_all_iff ..
  assume cs: "list_all component cs \<and> list_all component ds"
  then have ok: "\<forall>c\<in>set cs. component c" "\<forall>c\<in>set ds. component c" by (auto simp: list_all_iff)
  show "join_with slash cs = join_with slash ds \<longleftrightarrow> cs = ds"
  proof (cases "cs = [] \<or> ds = []")
    case True
    then show ?thesis by (cases cs; cases ds) (simp_all add: join_with_def)
  next
    case False
    then show ?thesis using split_components ok by metis
  qed
qed (simp_all add: component_def)

text \<open>\<open>/a/b.img\<close> is accepted, and \<open>/a/../b\<close>, \<open>/a//b\<close> and \<open>a\<close> are not.\<close>

theorem path_exact_witness:
  "path [47, 97, 47, 98, 46, 105, 109, 103] = Inr [47, 97, 47, 98, 46, 105, 109, 103] \<and>
   path [47, 97, 47, 46, 46, 47, 98] = Inl ''invalid filesystem path component'' \<and>
   path [47, 97, 47, 47, 98] = Inl ''invalid filesystem path component'' \<and>
   path [97] = Inl ''invalid filesystem path''"
proof -
  let ?cs = "[[97], [98, 46, 105, 109, 103]] :: ustr list"
  have "list_all component ?cs"
    by (simp add: component_def str_len_def utf8_width_def is_control_def reserved_def slash_def)
  moreover have "[47, 97, 47, 98, 46, 105, 109, 103] = join_with slash ?cs" by (simp add: join_with_def slash_def)
  moreover have "str_len [47, 97, 47, 98, 46, 105, 109, 103] \<le> 4096" by (simp add: str_len_def utf8_width_def)
  ultimately have "path [47, 97, 47, 98, 46, 105, 109, 103] = Inr [47, 97, 47, 98, 46, 105, 109, 103]"
    using path_exact [of "[47, 97, 47, 98, 46, 105, 109, 103]" "[47, 97, 47, 98, 46, 105, 109, 103]" "[]" "[]"] by blast
  then show ?thesis
    by (simp add: path_def slash_def str_len_def utf8_width_def bad_component_def)
qed

section \<open>Taking an accepted path apart\<close>

lemma rsplit_once_Some: "rsplit_once d s = Some (a, b) \<longleftrightarrow> s = a @ d # b \<and> d \<notin> set b"
proof (induction s arbitrary: a b)
  case (Cons c cs)
  show ?case
  proof (cases "rsplit_once d cs")
    case None
    then have "d \<notin> set cs" using Cons.IH by (metis option.distinct(1) split_list_last)
    then show ?thesis using None by (auto simp: Cons_eq_append_conv)
  next
    case (Some ab)
    then obtain x y where xy: "rsplit_once d cs = Some (x, y)" by (cases ab) auto
    then have "cs = x @ d # y" "d \<notin> set y" using Cons.IH by auto
    then show ?thesis using xy Cons.IH by (auto simp: Cons_eq_append_conv)
  qed
qed simp

lemma path_shape:
  assumes "path v = Inr u"
  shows "u = v" "\<exists>cs. v = slash # cs" "after_first v = Some (tl v)"
proof -
  have v: "v \<noteq> []" "hd v = slash" "u = v" using assms by (auto simp: path_def split: if_split_asm)
  then show "u = v" "\<exists>cs. v = slash # cs" by (cases v; simp)+
  then show "after_first v = Some (tl v)" by (auto simp: utf8_width_def slash_def)
qed

text \<open>The parent of an accepted path is the root or accepted, and is what precedes the last name.\<close>

lemma path_parent:
  assumes "path (join_with slash (cs @ [c])) = Inr v" "list_all component (cs @ [c])"
  shows "rsplit_once slash v = Some (join_with slash cs, c)"
  using assms path_shape(1) [OF assms(1)]
  by (auto simp: rsplit_once_Some join_with_def component_def)

end
