(* ===== verification/Guarded_Device.thy ===== *)
theory Guarded_Device
  imports Prelude
begin

text \<open>
  The block device under a mounted filesystem: \<open>Guarded\<close> and \<open>Io\<close> of \<open>canoe-fs/src/lib.rs\<close>. The
  filesystem engines are other crates that call back into the device, so an engine operation is
  a \<open>prog\<close>: any finite tree of calls, each continued with what the device answered. Whatever holds
  of every \<open>prog\<close> holds of the engines.
\<close>

section \<open>Code that calls back\<close>

text \<open>A fallible synchronous call on a state.\<close>

type_synonym ('s, 'e, 'a) call = "'s \<Rightarrow> ('e + 'a) \<times> 's"

datatype ('q, 'r, 'a) prog = Done 'a | Call 'q "'r \<Rightarrow> ('q, 'r, 'a) prog"

primrec run :: "('q \<Rightarrow> 's \<Rightarrow> 'r \<times> 's) \<Rightarrow> ('q, 'r, 'a) prog \<Rightarrow> 's \<Rightarrow> 'a \<times> 's" where
  "run h (Done a) = (\<lambda>s. (a, s))"
| "run h (Call q k) = (\<lambda>s. case h q s of (r, t) \<Rightarrow> run h (k r) t)"

text \<open>What every single call keeps, every program keeps.\<close>

lemma run_keeps:
  assumes R: "reflp R" "transp R" and h: "\<And>q s. R s (snd (h q s))"
  shows "R s (snd (run h p s))"
proof (induction p arbitrary: s)
  case (Done a)
  show ?case using R(1) by (simp add: reflpD)
next
  case (Call q k)
  obtain r t where c: "h q s = (r, t)" by fastforce
  have "R s t" using h [of s q] c by simp
  moreover have "R t (snd (run h (k r) t))" by (rule Call.IH [OF rangeI])
  ultimately show ?case using c transpD [OF R(2)] by simp
qed

lemma run_invariant:
  assumes h: "\<And>q s. P s \<Longrightarrow> P (snd (h q s))" and "P s"
  shows "P (snd (run h p s))"
  using assms(2)
proof (induction p arbitrary: s)
  case (Call q k)
  obtain r t where c: "h q s = (r, t)" by fastforce
  with h [OF Call.prems, of q] have "P t" by simp
  then show ?case using c Call.IH [OF rangeI] by simp
qed simp

section \<open>The trait \<open>BlockDevice\<close>\<close>

text \<open>
  \<open>fs_ext4::Error\<close> belongs to the ext4 crate; the code names some of its variants and carries the
  others through unseen.
\<close>

datatype ext_error = Io_Error string | OutOfBounds | ReadOnlyError | Corrupt string | Unsupported string | OtherExt nat

datatype block_call = Read_At u64 nat | Write_At u64 "u8 list" | Flush_Device | Size_Bytes | Is_Writable
datatype block_reply = Bytes "u8 list" | Nothing | Count u64 | Flag bool

record 'd block_device =
  size_of :: "'d \<Rightarrow> u64"
  is_writable :: "'d \<Rightarrow> bool"
  read_at :: "u64 \<Rightarrow> nat \<Rightarrow> ('d, ext_error, u8 list) call"
  write_at :: "u64 \<Rightarrow> u8 list \<Rightarrow> ('d, ext_error, unit) call"
  flush_device :: "('d, ext_error, unit) call"

definition serve :: "'d block_device \<Rightarrow> block_call \<Rightarrow> 'd \<Rightarrow> (ext_error + block_reply) \<times> 'd" where
  "serve D q d = (case q of
     Read_At offset len \<Rightarrow> (case read_at D offset len d of (Inr b, e) \<Rightarrow> (Inr (Bytes b), e) | (Inl x, e) \<Rightarrow> (Inl x, e))
   | Write_At offset data \<Rightarrow> (case write_at D offset data d of (Inr _, e) \<Rightarrow> (Inr Nothing, e) | (Inl x, e) \<Rightarrow> (Inl x, e))
   | Flush_Device \<Rightarrow> (case flush_device D d of (Inr _, e) \<Rightarrow> (Inr Nothing, e) | (Inl x, e) \<Rightarrow> (Inl x, e))
   | Size_Bytes \<Rightarrow> (Inr (Count (size_of D d)), d)
   | Is_Writable \<Rightarrow> (Inr (Flag (is_writable D d)), d))"

section \<open>\<open>Guarded\<close>\<close>

record 'd guarded =
  inner :: 'd
  writable :: bool
  retired :: bool

text \<open>
  \<open>offset.checked_add(length as u64)\<close> with the sum written out: it is \<open>None\<close> from 2^64 on.
\<close>

definition guarded_check :: "'d block_device \<Rightarrow> u64 \<Rightarrow> nat \<Rightarrow> 'd guarded \<Rightarrow> ext_error option" where
  "guarded_check D offset len g =
     (if retired g then Some (Io_Error ''filesystem device retired'')
      else if 2 ^ 64 \<le> unat offset + len \<or> unat (size_of D (inner g)) < unat offset + len
      then Some OutOfBounds
      else None)"

definition complete :: "(ext_error + 'a) \<times> 'd \<Rightarrow> 'd guarded \<Rightarrow> (ext_error + 'a) \<times> 'd guarded" where
  "complete rd g = (case rd of
     (Inl e, d) \<Rightarrow> (Inl e, g\<lparr>inner := d, retired := True\<rparr>)
   | (Inr a, d) \<Rightarrow> (Inr a, g\<lparr>inner := d\<rparr>))"

definition guarded_read :: "'d block_device \<Rightarrow> u64 \<Rightarrow> nat \<Rightarrow> ('d guarded, ext_error, u8 list) call" where
  "guarded_read D offset len g = (case guarded_check D offset len g of
     Some e \<Rightarrow> (Inl e, g)
   | None \<Rightarrow> complete (read_at D offset len (inner g)) g)"

definition guarded_write :: "'d block_device \<Rightarrow> u64 \<Rightarrow> u8 list \<Rightarrow> ('d guarded, ext_error, unit) call" where
  "guarded_write D offset data g = (case guarded_check D offset (length data) g of
     Some e \<Rightarrow> (Inl e, g)
   | None \<Rightarrow> if \<not> writable g then (Inl ReadOnlyError, g) else complete (write_at D offset data (inner g)) g)"

definition guarded_flush :: "'d block_device \<Rightarrow> ('d guarded, ext_error, unit) call" where
  "guarded_flush D g = (case guarded_check D 0 0 g of
     Some e \<Rightarrow> (Inl e, g)
   | None \<Rightarrow> complete (flush_device D (inner g)) g)"

definition guarded_device :: "'d block_device \<Rightarrow> 'd guarded block_device" where
  "guarded_device D = \<lparr>size_of = (\<lambda>g. size_of D (inner g)), is_writable = writable, read_at = guarded_read D,
     write_at = guarded_write D, flush_device = guarded_flush D\<rparr>"

section \<open>\<open>Io\<close>: the cursor the FAT engine reads, writes and seeks with\<close>

datatype seek_from = Start u64 | Current int | End int

text \<open>\<open>i128\<close> holds the sum of a \<open>u64\<close> and an \<open>i64\<close>, so it is an integer here.\<close>

definition io_seek :: "'d block_device \<Rightarrow> seek_from \<Rightarrow> ('d guarded \<times> u64, string, u64) call" where
  "io_seek D from = (\<lambda>(g, position).
     let p = (case from of
         Start n \<Rightarrow> int (unat n)
       | Current n \<Rightarrow> int (unat position) + n
       | End n \<Rightarrow> int (unat (size_of D (inner g))) + n)
     in if p < 0 \<or> int (unat (size_of D (inner g))) < p
        then (Inl ''seek outside filesystem device'', (g, position))
        else (Inr (of_int p), (g, of_int p)))"

text \<open>
  \<open>saturating_sub(position) as usize\<close>: the cast keeps the low \<open>uw\<close> bits. \<open>text\<close> is the \<open>Display\<close> of
  the ext4 crate's errors.
\<close>

definition saturating_sub :: "u64 \<Rightarrow> u64 \<Rightarrow> u64" where
  "saturating_sub a b = (if a < b then 0 else a - b)"

definition io_read ::
  "nat \<Rightarrow> (ext_error \<Rightarrow> string) \<Rightarrow> 'd block_device \<Rightarrow> nat \<Rightarrow> ('d guarded \<times> u64, string, u8 list) call" where
  "io_read uw text D out = (\<lambda>(g, position).
     let len = min out (unat (saturating_sub (size_of D (inner g)) position) mod 2 ^ uw)
     in (case guarded_read D position len g of
           (Inl e, h) \<Rightarrow> (Inl (text e), (h, position))
         | (Inr bytes, h) \<Rightarrow> (Inr bytes, (h, position + of_nat len))))"

definition io_write ::
  "(ext_error \<Rightarrow> string) \<Rightarrow> 'd block_device \<Rightarrow> u8 list \<Rightarrow> ('d guarded \<times> u64, string, nat) call" where
  "io_write text D bytes = (\<lambda>(g, position).
     (case guarded_write D position bytes g of
        (Inl e, h) \<Rightarrow> (Inl (text e), (h, position))
      | (Inr _, h) \<Rightarrow> (Inr (length bytes), (h, position + of_nat (length bytes)))))"

definition io_flush :: "(ext_error \<Rightarrow> string) \<Rightarrow> 'd block_device \<Rightarrow> ('d guarded \<times> u64, string, unit) call" where
  "io_flush text D = (\<lambda>(g, position).
     (case guarded_flush D g of
        (Inl e, h) \<Rightarrow> (Inl (text e), (h, position))
      | (Inr _, h) \<Rightarrow> (Inr (), (h, position))))"

datatype io_call = Io_Read nat | Io_Write "u8 list" | Io_Flush | Io_Seek seek_from
datatype io_reply = Io_Bytes "u8 list" | Io_Count nat | Io_Nothing | Io_Position u64

definition io_serve ::
  "nat \<Rightarrow> (ext_error \<Rightarrow> string) \<Rightarrow> 'd block_device \<Rightarrow> io_call \<Rightarrow> 'd guarded \<times> u64 \<Rightarrow> (string + io_reply) \<times> ('d guarded \<times> u64)" where
  "io_serve uw text D q x = (case q of
     Io_Read n \<Rightarrow> (case io_read uw text D n x of (Inr b, y) \<Rightarrow> (Inr (Io_Bytes b), y) | (Inl e, y) \<Rightarrow> (Inl e, y))
   | Io_Write b \<Rightarrow> (case io_write text D b x of (Inr n, y) \<Rightarrow> (Inr (Io_Count n), y) | (Inl e, y) \<Rightarrow> (Inl e, y))
   | Io_Flush \<Rightarrow> (case io_flush text D x of (Inr _, y) \<Rightarrow> (Inr Io_Nothing, y) | (Inl e, y) \<Rightarrow> (Inl e, y))
   | Io_Seek f \<Rightarrow> (case io_seek D f x of (Inr p, y) \<Rightarrow> (Inr (Io_Position p), y) | (Inl e, y) \<Rightarrow> (Inl e, y)))"

end
