(* ===== verification/Guarded_Properties.thy ===== *)
theory Guarded_Properties
  imports Guarded_Device
begin

text \<open>
  What \<open>Guarded\<close> and \<open>Io\<close> promise against every engine: the device is never written when the session
  is read-only, is touched only in bounds and never again after its first failure; the cursor
  stays inside the device. Also where the cursor fails: on a 32-bit \<open>usize\<close> it reports the end of
  the device too early.
\<close>

section \<open>What reaches the device\<close>

datatype event = Did_Read u64 nat bool | Did_Write u64 "u8 list" bool | Did_Flush bool

fun succeeded :: "event \<Rightarrow> bool" where
  "succeeded (Did_Read o1 n ok) = ok"
| "succeeded (Did_Write o1 b ok) = ok"
| "succeeded (Did_Flush ok) = ok"

fun writes :: "event \<Rightarrow> bool" where
  "writes (Did_Write o1 b ok) = True"
| "writes _ = False"

fun within_device :: "u64 \<Rightarrow> event \<Rightarrow> bool" where
  "within_device n (Did_Read o1 k ok) = (unat o1 + k \<le> unat n)"
| "within_device n (Did_Write o1 b ok) = (unat o1 + length b \<le> unat n)"
| "within_device n (Did_Flush ok) = True"

text \<open>The device with a log of the calls that reached it.\<close>

definition logged :: "'d block_device \<Rightarrow> ('d \<times> event list) block_device" where
  "logged D = \<lparr>size_of = (\<lambda>(d, l). size_of D d), is_writable = (\<lambda>(d, l). is_writable D d),
     read_at = (\<lambda>offset len (d, l). case read_at D offset len d of (r, e) \<Rightarrow> (r, (e, l @ [Did_Read offset len (\<not> isl r)]))),
     write_at = (\<lambda>offset data (d, l). case write_at D offset data d of (r, e) \<Rightarrow> (r, (e, l @ [Did_Write offset data (\<not> isl r)]))),
     flush_device = (\<lambda>(d, l). case flush_device D d of (r, e) \<Rightarrow> (r, (e, l @ [Did_Flush (\<not> isl r)])))\<rparr>"

abbreviation device_log :: "('d \<times> event list) guarded \<Rightarrow> event list" where
  "device_log g \<equiv> snd (inner g)"

text \<open>
  One step of the guarded device, and any sequence of steps: new events are in bounds, are
  writes only in a writable session, and only the last one may have failed, which is the same as
  the device having been retired by them. A retired device does not change.
\<close>

definition confined :: "u64 \<Rightarrow> ('d \<times> event list) guarded \<Rightarrow> ('d \<times> event list) guarded \<Rightarrow> bool" where
  "confined n s t \<longleftrightarrow> writable t = writable s \<and> (retired s \<longrightarrow> t = s) \<and>
     (\<exists>es. device_log t = device_log s @ es \<and> list_all (within_device n) es \<and>
       (\<not> writable s \<longrightarrow> list_all (\<lambda>e. \<not> writes e) es) \<and>
       (if retired t \<and> \<not> retired s then es \<noteq> [] \<and> list_all succeeded (butlast es) \<and> \<not> succeeded (last es)
        else list_all succeeded es))"

lemma confined_refl: "reflp (confined n)"
  by (auto intro!: reflpI simp: confined_def)

lemma confined_trans: "transp (confined n)"
proof (rule transpI)
  fix s t u :: "('a \<times> event list) guarded"
  assume st: "confined n s t" and tu: "confined n t u"
  show "confined n s u"
  proof (cases "retired t")
    case True
    then show ?thesis using st tu by (simp add: confined_def)
  next
    case False
    obtain xs where xs: "device_log t = device_log s @ xs" "list_all (within_device n) xs"
      "\<not> writable s \<longrightarrow> list_all (\<lambda>e. \<not> writes e) xs" "list_all succeeded xs"
      using st False unfolding confined_def by auto
    obtain ys where ys: "device_log u = device_log t @ ys" "list_all (within_device n) ys"
      "\<not> writable t \<longrightarrow> list_all (\<lambda>e. \<not> writes e) ys"
      "if retired u \<and> \<not> retired t then ys \<noteq> [] \<and> list_all succeeded (butlast ys) \<and> \<not> succeeded (last ys) else list_all succeeded ys"
      using tu unfolding confined_def by blast
    have s: "\<not> retired s" "writable t = writable s" "writable u = writable t" using st tu False by (auto simp: confined_def)
    show ?thesis unfolding confined_def
    proof (intro conjI exI [of _ "xs @ ys"])
      show "if retired u \<and> \<not> retired s then xs @ ys \<noteq> [] \<and> list_all succeeded (butlast (xs @ ys)) \<and> \<not> succeeded (last (xs @ ys))
          else list_all succeeded (xs @ ys)"
        using xs(4) ys(4) False s(1) by (auto simp: butlast_append)
    qed (use xs ys s in auto)
  qed
qed

lemma complete_confined:
  assumes "\<not> retired g" "x = (r, (d, device_log g @ [e]))" "within_device n e" "writes e \<longrightarrow> writable g" "succeeded e = (\<not> isl r)"
  shows "confined n g (snd (complete x g))"
  using assms by (cases r) (auto simp: complete_def confined_def intro!: exI [of _ "[e]"])

lemma guarded_confined:
  assumes "\<And>d. size_of D d = n"
  shows "confined n g (snd (guarded_read (logged D) offset len g))"
    "confined n g (snd (guarded_write (logged D) offset data g))"
    "confined n g (snd (guarded_flush (logged D) g))"
proof -
  have same: "confined n g g" using confined_refl by (rule reflpD)
  obtain d l where i: "inner g = (d, l)" by (cases "inner g")
  have size: "size_of (logged D) (inner g) = n" using assms by (simp add: logged_def i)
  show "confined n g (snd (guarded_read (logged D) offset len g))"
  proof (cases "guarded_check (logged D) offset len g")
    case None
    then have ok: "\<not> retired g" "unat offset + len \<le> unat n" by (auto simp: guarded_check_def size split: if_split_asm)
    obtain r d' where r: "read_at D offset len d = (r, d')" by fastforce
    then have "read_at (logged D) offset len (inner g) = (r, (d', device_log g @ [Did_Read offset len (\<not> isl r)]))"
      by (simp add: logged_def i)
    from complete_confined [OF ok(1) this] ok(2) None show ?thesis by (simp add: guarded_read_def)
  qed (simp add: guarded_read_def same)
  show "confined n g (snd (guarded_write (logged D) offset data g))"
  proof (cases "guarded_check (logged D) offset (length data) g")
    case None
    then have ok: "\<not> retired g" "unat offset + length data \<le> unat n" by (auto simp: guarded_check_def size split: if_split_asm)
    obtain r d' where r: "write_at D offset data d = (r, d')" by fastforce
    then have "write_at (logged D) offset data (inner g) = (r, (d', device_log g @ [Did_Write offset data (\<not> isl r)]))"
      by (simp add: logged_def i)
    from complete_confined [OF ok(1) this] ok(2) None same show ?thesis by (simp add: guarded_write_def)
  qed (simp add: guarded_write_def same)
  show "confined n g (snd (guarded_flush (logged D) g))"
  proof (cases "guarded_check (logged D) 0 0 g")
    case None
    then have ok: "\<not> retired g" by (auto simp: guarded_check_def split: if_split_asm)
    obtain r d' where r: "flush_device D d = (r, d')" by fastforce
    then have "flush_device (logged D) (inner g) = (r, (d', device_log g @ [Did_Flush (\<not> isl r)]))"
      by (simp add: logged_def i)
    from complete_confined [OF ok this] None show ?thesis by (simp add: guarded_flush_def)
  qed (simp add: guarded_flush_def same)
qed

text \<open>One call of an engine, over the device or over the cursor.\<close>

lemma serve_confined:
  assumes "\<And>d. size_of D d = n"
  shows "confined n g (snd (serve (guarded_device (logged D)) q g))"
proof (cases q)
  case (Read_At offset len)
  then show ?thesis using guarded_confined(1) [OF assms, of g offset len]
    by (auto simp: serve_def guarded_device_def split: prod.split sum.split)
next
  case (Write_At offset data)
  then show ?thesis using guarded_confined(2) [OF assms, of g offset data]
    by (auto simp: serve_def guarded_device_def split: prod.split sum.split)
next
  case Flush_Device
  then show ?thesis using guarded_confined(3) [OF assms, of g]
    by (auto simp: serve_def guarded_device_def split: prod.split sum.split)
qed (use reflpD [OF confined_refl] in \<open>auto simp: serve_def guarded_device_def\<close>)

lemma io_serve_confined:
  assumes "\<And>d. size_of D d = n"
  shows "confined n (fst x) (fst (snd (io_serve uw text (logged D) q x)))"
proof -
  obtain g position where x: "x = (g, position)" by (cases x)
  show ?thesis
  proof (cases q)
    case (Io_Read out)
    then show ?thesis using guarded_confined(1) [OF assms, of g position] x
      by (simp add: io_serve_def io_read_def Let_def split: prod.split sum.split) (metis snd_conv)
  next
    case (Io_Write b)
    then show ?thesis using guarded_confined(2) [OF assms, of g position b] x
      by (auto simp: io_serve_def io_write_def split: prod.split sum.split)
  next
    case Io_Flush
    then show ?thesis using guarded_confined(3) [OF assms, of g] x
      by (auto simp: io_serve_def io_flush_def split: prod.split sum.split)
  next
    case (Io_Seek f)
    then show ?thesis using reflpD [OF confined_refl] x
      by (auto simp: io_serve_def io_seek_def Let_def split: prod.split sum.split)
  qed
qed

section \<open>Properties\<close>

lemma last_failure:
  assumes "list_all succeeded (butlast es)" "i < length es" "\<not> succeeded (es ! i)"
  shows "Suc i = length es"
proof (rule ccontr)
  assume "Suc i \<noteq> length es"
  then have "i < length (butlast es)" using assms(2) by simp
  then show False using assms(1,3) by (metis list_all_length nth_butlast)
qed

lemma confined_unfold:
  assumes "confined n s t"
  shows "writable t = writable s \<and> (retired s \<longrightarrow> t = s) \<and>
    (\<exists>es. device_log t = device_log s @ es \<and> (\<forall>e\<in>set es. within_device n e) \<and>
      (\<not> writable s \<longrightarrow> (\<forall>e\<in>set es. \<not> writes e)) \<and>
      (\<forall>i<length es. \<not> succeeded (es ! i) \<longrightarrow> Suc i = length es \<and> retired t))"
proof -
  obtain es where es: "device_log t = device_log s @ es" "list_all (within_device n) es"
    "\<not> writable s \<longrightarrow> list_all (\<lambda>e. \<not> writes e) es"
    "if retired t \<and> \<not> retired s then es \<noteq> [] \<and> list_all succeeded (butlast es) \<and> \<not> succeeded (last es) else list_all succeeded es"
    using assms unfolding confined_def by blast
  have "Suc i = length es \<and> retired t" if "i < length es" "\<not> succeeded (es ! i)" for i
    using that es(4) last_failure [of es i] by (auto simp: list_all_length split: if_split_asm)
  then show ?thesis using assms es by (auto simp: confined_def list_all_iff)
qed

text \<open>
  C7: The guard confines every filesystem engine. Whatever calls an engine makes through \<open>Guarded\<close>,
  in whatever order and however it reacts to the answers, every access that reaches the device
  lies inside it, a session that is not writable never writes, a retired device is not touched
  and does not change, and the first call that fails on the device is the last one to reach it.
\<close>

theorem guarded_confines_engines:
  assumes "\<And>d. size_of D d = n" "run (serve (guarded_device (logged D))) p g = (a, h)"
  shows "writable h = writable g \<and> (retired g \<longrightarrow> h = g) \<and>
    (\<exists>es. device_log h = device_log g @ es \<and> (\<forall>e\<in>set es. within_device n e) \<and>
      (\<not> writable g \<longrightarrow> (\<forall>e\<in>set es. \<not> writes e)) \<and>
      (\<forall>i<length es. \<not> succeeded (es ! i) \<longrightarrow> Suc i = length es \<and> retired h))"
proof -
  have "confined n g (snd (run (serve (guarded_device (logged D))) p g))"
    by (rule run_keeps [OF confined_refl confined_trans serve_confined]) (rule assms(1))
  then show ?thesis using assms(2) confined_unfold by fastforce
qed

text \<open>A device of \<open>n\<close> zero bytes whose writes fail.\<close>

definition zero_device :: "u64 \<Rightarrow> unit block_device" where
  "zero_device n = \<lparr>size_of = (\<lambda>_. n), is_writable = (\<lambda>_. True), read_at = (\<lambda>_ len d. (Inr (replicate len 0), d)),
     write_at = (\<lambda>_ _ d. (Inl (Io_Error ''broker''), d)), flush_device = (\<lambda>d. (Inr (), d))\<rparr>"

definition stubborn_engine :: "(block_call, ext_error + block_reply, unit) prog" where
  "stubborn_engine = Call (Write_At 0 [1]) (\<lambda>_. Call (Write_At 4 [2]) (\<lambda>_. Call Flush_Device (\<lambda>_. Done ())))"

theorem guarded_confines_engines_witness:
  "\<exists>h. snd (run (serve (guarded_device (logged (zero_device 8)))) stubborn_engine
      \<lparr>inner = ((), []), writable = True, retired = False\<rparr>) = h \<and>
    device_log h = [Did_Write 0 [1] False] \<and> (\<forall>e\<in>set (device_log h). within_device 8 e) \<and> retired h"
proof -
  let ?g = "\<lparr>inner = ((), []), writable = True, retired = False\<rparr>"
  have run: "run (serve (guarded_device (logged (zero_device 8)))) stubborn_engine ?g =
      ((), \<lparr>inner = ((), [Did_Write 0 [1] False]), writable = True, retired = True\<rparr>)"
    by (simp add: stubborn_engine_def serve_def guarded_device_def guarded_write_def guarded_flush_def guarded_check_def
        logged_def zero_device_def complete_def)
  show ?thesis using guarded_confines_engines [of "zero_device 8" 8, OF _ run] run by (simp add: zero_device_def)
qed

lemma position_step:
  assumes "\<And>d. size_of D d = n" "unat (snd x) \<le> unat n"
  shows "unat (snd (snd (io_serve uw text D q x))) \<le> unat n"
proof -
  obtain g position where x: "x = (g, position)" by (cases x)
  have p: "unat position \<le> unat n" using assms(2) x by simp
  have move: "unat (position + of_nat k) \<le> unat n" if "unat position + k \<le> unat n" for k
  proof -
    have "k < 2 ^ 64" using that unat_bound [of n] by simp
    then have "unat (position + of_nat k) = unat position + k"
      using that unat_bound [of n] by (simp add: unat_word_ariths unat_of_nat)
    then show ?thesis using that by simp
  qed
  show ?thesis
  proof (cases q)
    case (Io_Read out)
    let ?len = "min out (unat (saturating_sub n position) mod 2 ^ uw)"
    have "unat (saturating_sub n position) = unat n - unat position"
      using p by (simp add: saturating_sub_def word_less_nat_alt unat_sub word_le_nat_alt)
    then have "?len \<le> unat n - unat position" by (simp add: min.coboundedI2 order.trans [OF mod_less_eq_dividend])
    then have "unat position + ?len \<le> unat n" using p by linarith
    from move [OF this] p show ?thesis using Io_Read x assms(1)
      by (auto simp: io_serve_def io_read_def Let_def split: prod.split sum.split)
  next
    case (Io_Write b)
    have "unat position + length b \<le> unat n" if "guarded_write D position b g = (Inr u, h)" for u h
      using that assms(1) by (auto simp: guarded_write_def guarded_check_def split: if_split_asm)
    then show ?thesis using Io_Write x p move by (auto simp: io_serve_def io_write_def split: prod.split sum.split)
  next
    case Io_Flush
    then show ?thesis using x p by (auto simp: io_serve_def io_flush_def split: prod.split sum.split)
  next
    case (Io_Seek f)
    have "unat (of_int z :: u64) \<le> unat n" if "0 \<le> z" "z \<le> int (unat n)" for z
    proof -
      have k: "nat z \<le> unat n" using that by linarith
      then have "nat z < 2 ^ 64" using unat_bound [of n] by simp
      then have "unat (of_nat (nat z) :: u64) = nat z" by (simp add: unat_of_nat)
      then show ?thesis using k that(1) by simp
    qed
    then show ?thesis using Io_Seek x p assms(1) by (auto simp: io_serve_def io_seek_def Let_def not_less split: prod.split sum.split)
  qed
qed

text \<open>
  C28: The same holds of the FAT engine, which reaches the device only through the cursor \<open>Io\<close>: reads,
  writes, flushes and seeks in any order stay inside the device, write only in a writable session
  and stop reaching the device at its first failure. The cursor never leaves the device: a seek
  outside is refused, and no read or write moves it past the end.
\<close>

theorem io_confines_engines:
  assumes "\<And>d. size_of D d = n" "run (io_serve uw text (logged D)) p (g, position) = (a, (h, position'))"
    "unat position \<le> unat n"
  shows "writable h = writable g \<and> (retired g \<longrightarrow> h = g) \<and> unat position' \<le> unat n \<and>
    (\<exists>es. device_log h = device_log g @ es \<and> (\<forall>e\<in>set es. within_device n e) \<and>
      (\<not> writable g \<longrightarrow> (\<forall>e\<in>set es. \<not> writes e)) \<and>
      (\<forall>i<length es. \<not> succeeded (es ! i) \<longrightarrow> Suc i = length es \<and> retired h))"
proof -
  have sizes: "size_of (logged D) d = n" for d using assms(1) by (cases d) (simp add: logged_def)
  have "confined n (fst (g, position)) (fst (snd (run (io_serve uw text (logged D)) p (g, position))))"
  proof (rule run_keeps [where R = "\<lambda>x y. confined n (fst x) (fst y)"])
    show "reflp (\<lambda>x y. confined n (fst x) (fst y))" using confined_refl by (auto intro!: reflpI dest: reflpD)
    show "transp (\<lambda>x y. confined n (fst x) (fst y))" using transpD [OF confined_trans] by (intro transpI) blast
  qed (rule io_serve_confined [OF assms(1)])
  then have "confined n g (fst (snd (run (io_serve uw text (logged D)) p (g, position))))" by simp
  moreover have "unat (snd (snd (run (io_serve uw text (logged D)) p (g, position)))) \<le> unat n"
    by (rule run_invariant [where P = "\<lambda>x. unat (snd x) \<le> unat n"]) (use position_step [OF sizes] assms(3) in auto)
  ultimately show ?thesis using assms(2) confined_unfold by fastforce
qed

theorem io_confines_engines_witness:
  "\<exists>h position. run (io_serve 64 (\<lambda>_. ''error'') (logged (zero_device 8)))
      (Call (Io_Seek (End (- 4))) (\<lambda>_. Call (Io_Read 512) (\<lambda>_. Call (Io_Write [1]) (\<lambda>_. Done ()))))
      (\<lparr>inner = ((), []), writable = False, retired = False\<rparr>, 0) = ((), (h, position)) \<and>
    unat position \<le> 8 \<and> (\<forall>e\<in>set (device_log h). \<not> writes e)"
proof -
  let ?g = "\<lparr>inner = ((), []), writable = False, retired = False\<rparr>"
  let ?p = "Call (Io_Seek (End (- 4))) (\<lambda>_. Call (Io_Read 512) (\<lambda>_. Call (Io_Write [1]) (\<lambda>_. Done ())))"
  obtain h position where run: "run (io_serve 64 (\<lambda>_. ''error'') (logged (zero_device 8))) ?p (?g, 0) = ((), (h, position))"
    by (cases "run (io_serve 64 (\<lambda>_. ''error'') (logged (zero_device 8))) ?p (?g, 0)") auto
  have sizes: "\<And>d. size_of (zero_device 8) d = 8" by (simp add: zero_device_def)
  have "unat position \<le> 8 \<and> (\<forall>e\<in>set (device_log h). \<not> writes e)"
    using io_confines_engines [OF sizes run] by auto
  then show ?thesis using run by blast
qed

text \<open>
  C38: The end the cursor reports. Where the size of the device fits \<open>usize\<close>, a read asks the device
  for the smaller of the buffer and the bytes that remain and moves the cursor by as much, so it
  reads nothing only at the end. On a 32-bit \<open>usize\<close>, the WASM build, the count that remains is
  cut to its low 32 bits first: wherever a multiple of 4 GiB remains, a read of any length is a
  read of length zero, which the engine takes for the end of the device.
\<close>

theorem io_read_end:
  assumes "unat position \<le> unat (size_of D (inner g))"
  shows "(unat (size_of D (inner g)) < 2 ^ uw \<longrightarrow>
      io_read uw text D out (g, position) =
        (case guarded_read D position (min out (unat (size_of D (inner g)) - unat position)) g of
           (Inl e, h) \<Rightarrow> (Inl (text e), (h, position))
         | (Inr bytes, h) \<Rightarrow> (Inr bytes, (h, position + of_nat (min out (unat (size_of D (inner g)) - unat position)))))) \<and>
    (2 ^ 32 dvd unat (size_of D (inner g)) - unat position \<longrightarrow>
      io_read 32 text D out (g, position) = io_read 32 text D 0 (g, position) \<and>
      snd (snd (io_read 32 text D out (g, position))) = position)"
proof -
  have rem: "unat (saturating_sub (size_of D (inner g)) position) = unat (size_of D (inner g)) - unat position"
    using assms by (simp add: saturating_sub_def word_less_nat_alt unat_sub word_le_nat_alt)
  show ?thesis
    by (auto simp: io_read_def Let_def rem split: prod.split sum.split)
qed

theorem io_read_end_witness:
  "fst (io_read 32 (\<lambda>_. ''error'') (zero_device 0x100000000) 512 (\<lparr>inner = (), writable = False, retired = False\<rparr>, 0)) = Inr [] \<and>
   fst (io_read 64 (\<lambda>_. ''error'') (zero_device 0x100000000) 512 (\<lparr>inner = (), writable = False, retired = False\<rparr>, 0)) = Inr (replicate 512 0)"
proof -
  let ?g = "\<lparr>inner = (), writable = False, retired = False\<rparr> :: unit guarded"
  note end32 = io_read_end [of 0 "zero_device 0x100000000" ?g 32 "\<lambda>_. ''error''" 512]
  note end64 = io_read_end [of 0 "zero_device 0x100000000" ?g 64 "\<lambda>_. ''error''" 512]
  have "fst (io_read 32 (\<lambda>_. ''error'') (zero_device 0x100000000) 0 (?g, 0)) = Inr []"
    by (simp add: io_read_def guarded_read_def guarded_check_def zero_device_def complete_def)
  then show ?thesis using end32 end64
    by (simp add: zero_device_def guarded_read_def guarded_check_def complete_def)
qed

end
