(* ===== verification/Ext4_Adapter.thy ===== *)
theory Ext4_Adapter
  imports Guarded_Properties
begin

text \<open>
  \<open>nusb-ext4/src/lib.rs\<close>: inspection through a read-only device, and the mount that refuses a
  filesystem whose journal it cannot replay safely before the ext4 crate gets write access. The
  ext4 crate is a parameter, a record of the programs the adapter calls.
\<close>

section \<open>What the adapter uses of the ext4 crate\<close>

record journal =
  journal_start :: u32
  journal_errno :: u32
  journal_sequence :: u32
  journal_compat :: u32
  journal_incompat :: u32
  journal_ro_compat :: u32

record superblock =
  sb_incompat :: u32
  sb_state :: u16
  sb_last_orphan :: u32
  sb_block_size :: u32
  sb_blocks_count :: u64
  sb_free_blocks :: u64
  sb_reserved_blocks :: u64
  sb_free_inodes :: u32
  sb_uuid :: "u8 list"
  sb_compat :: u32
  sb_ro_compat :: u32

type_synonym ('g, 'a) ext_op = "'g \<Rightarrow> (block_call, ext_error + block_reply, (ext_error + 'a) \<times> 'g) prog"

text \<open>
  \<open>incompat_recover\<close> is \<open>features::Incompat::RECOVER.bits()\<close>; the default methods of the crate's
  trait \<open>BlockDevice\<close>, which \<open>ReadOnly\<close> does not override, are \<open>is_writable\<close>, \<open>write_at\<close> and
  \<open>flush\<close>: a default method is given no device but the wrapper's own reads.
\<close>

record 'g ext4_mounting =
  x_mount :: "(block_call, ext_error + block_reply, ext_error + 'g) prog"
  x_mount_recovering :: "(block_call, ext_error + block_reply, ext_error + 'g) prog"
  x_journal :: "('g, journal option) ext_op"
  x_super :: "'g \<Rightarrow> superblock"
  x_plain_recovery :: "journal \<Rightarrow> u32 \<Rightarrow> u64 \<Rightarrow> bool"
  x_finish :: "'g \<Rightarrow> (block_call, ext_error + block_reply, ext_error + unit) prog"
  x_drop :: "'g \<Rightarrow> (block_call, ext_error + block_reply, unit) prog"
  incompat_recover :: u32
  default_is_writable :: bool
  default_write :: "ext_error + unit"
  default_flush :: "ext_error + unit"

section \<open>The adapter\<close>

text \<open>\<open>struct ReadOnly\<close>: it forwards reads and the size, and nothing else.\<close>

definition read_only :: "'g ext4_mounting \<Rightarrow> 'd block_device \<Rightarrow> 'd block_device" where
  "read_only X D = \<lparr>size_of = size_of D, is_writable = (\<lambda>_. default_is_writable X), read_at = read_at D,
     write_at = (\<lambda>_ _ d. (default_write X, d)), flush_device = (\<lambda>d. (default_flush X, d))\<rparr>"

record inspection =
  needs_recovery :: bool
  orphan_head :: u32
  inspected_start :: "u32 option"
  inspected_error :: "u32 option"
  write_blocker :: "string option"

definition outstanding_error :: string where
  "outstanding_error = ''filesystem or journal records an outstanding error''"

definition unsupported_journal :: string where
  "unsupported_journal = ''checked writes require a supported plain internal JBD2 journal''"

definition find_blocker :: "'g ext4_mounting \<Rightarrow> superblock \<Rightarrow> journal option \<Rightarrow> string option" where
  "find_blocker X sb j =
     (if sb_state sb AND 2 \<noteq> 0 \<or> (case j of None \<Rightarrow> False | Some j \<Rightarrow> journal_errno j \<noteq> 0)
      then Some outstanding_error
      else if (case j of None \<Rightarrow> True | Some j \<Rightarrow> \<not> x_plain_recovery X j (sb_block_size sb) (sb_blocks_count sb))
      then Some unsupported_journal
      else None)"

definition as_outcome :: "('e + 'a) \<times> 's \<Rightarrow> ('e, 'a) outcome \<times> 's" where
  "as_outcome x = (case x of (Inl e, s) \<Rightarrow> (Err e, s) | (Inr a, s) \<Rightarrow> (Ok a, s))"

text \<open>\<open>inspect\<close>; the mounted filesystem is dropped at the end, on the error path too.\<close>

definition inspect :: "'g ext4_mounting \<Rightarrow> 'd block_device \<Rightarrow> ('d, ext_error, inspection) act" where
  "inspect X D =
     and_then (\<lambda>d. as_outcome (run (serve (read_only X D)) (x_mount X) d)) (\<lambda>fs d.
       case run (serve (read_only X D)) (x_journal X fs) d of ((journal, fs'), e) \<Rightarrow>
         (case journal of
            Inl x \<Rightarrow> Err x
          | Inr j \<Rightarrow> Ok \<lparr>needs_recovery = sb_incompat (x_super X fs') AND incompat_recover X \<noteq> 0,
              orphan_head = sb_last_orphan (x_super X fs'),
              inspected_start = map_option journal_start j, inspected_error = map_option journal_errno j,
              write_blocker = find_blocker X (x_super X fs') j\<rparr>,
          snd (run (serve (read_only X D)) (x_drop X fs') e)))"

definition mount :: "'g ext4_mounting \<Rightarrow> 'd block_device \<Rightarrow> ('d, ext_error, 'g) act" where
  "mount X D d =
     (if is_writable D d
      then and_then (inspect X D) (\<lambda>i. case write_blocker i of
          Some reason \<Rightarrow> fail (Corrupt reason)
        | None \<Rightarrow> (\<lambda>e. if is_writable D e
            then as_outcome (run (serve D) (x_mount_recovering X) e)
            else as_outcome (run (serve D) (x_mount X) e))) d
      else as_outcome (run (serve D) (x_mount X) d))"

definition ext4_finish :: "'g ext4_mounting \<Rightarrow> 'd block_device \<Rightarrow> 'g \<Rightarrow> ('d, ext_error, unit) act" where
  "ext4_finish X D fs d = as_outcome (run (serve D) (x_finish X fs) d)"

section \<open>Properties\<close>

text \<open>Only reads reach the device below \<open>ReadOnly\<close>.\<close>

fun reads_device :: "event \<Rightarrow> bool" where
  "reads_device (Did_Read o1 n ok) = True"
| "reads_device _ = False"

definition only_reads :: "'d \<times> event list \<Rightarrow> 'd \<times> event list \<Rightarrow> bool" where
  "only_reads s t \<longleftrightarrow> (\<exists>es. snd t = snd s @ es \<and> (\<forall>e\<in>set es. reads_device e))"

lemma only_reads_order [simp, intro]: "reflp only_reads" "transp only_reads"
  by (auto intro!: reflpI transpI simp: only_reads_def)

lemma read_only_reads: "only_reads s (snd (run (serve (read_only X (logged D))) p s))"
proof (rule run_keeps [OF only_reads_order])
  fix q and s :: "'a \<times> event list"
  show "only_reads s (snd (serve (read_only X (logged D)) q s))"
    by (cases q) (auto simp: serve_def read_only_def logged_def only_reads_def split: prod.split sum.split)
qed

lemma as_outcome_snd [simp]: "snd (as_outcome x) = snd x"
  by (cases x; cases "fst x") (auto simp: as_outcome_def)

lemma inspect_reads: "within only_reads (inspect X (logged D))"
  unfolding inspect_def
proof (intro within_and_then only_reads_order)
  show "within only_reads (\<lambda>d. as_outcome (run (serve (read_only X (logged D))) (x_mount X) d))"
    unfolding within_def by (simp add: read_only_reads del: split_paired_All)
next
  fix fs
  show "within only_reads (\<lambda>d. case run (serve (read_only X (logged D))) (x_journal X fs) d of ((journal, fs'), e) \<Rightarrow>
      (case journal of
         Inl x \<Rightarrow> Err x
       | Inr j \<Rightarrow> Ok \<lparr>needs_recovery = sb_incompat (x_super X fs') AND incompat_recover X \<noteq> 0,
           orphan_head = sb_last_orphan (x_super X fs'),
           inspected_start = map_option journal_start j, inspected_error = map_option journal_errno j,
           write_blocker = find_blocker X (x_super X fs') j\<rparr>,
       snd (run (serve (read_only X (logged D))) (x_drop X fs') e)))"
    unfolding within_def by (simp add: case_prod_beta del: split_paired_All)
      (metis only_reads_order(2) read_only_reads transpD)
qed

text \<open>What blocks a writable mount, in the order it is reported.\<close>

lemma error_bit: "(w :: u16) AND 2 \<noteq> 0 \<longleftrightarrow> bit w 1"
proof -
  have "(2 :: u16) = push_bit 1 1" by simp
  then show ?thesis by (metis and_exp_eq_0_iff_not_bit power_one_right)
qed

lemma find_blocker_cases:
  "find_blocker X sb j =
     (if bit (sb_state sb) 1 \<or> (\<exists>k. j = Some k \<and> journal_errno k \<noteq> 0) then Some outstanding_error
      else if \<exists>k. j = Some k \<and> x_plain_recovery X k (sb_block_size sb) (sb_blocks_count sb) then None
      else Some unsupported_journal)"
  by (auto simp: find_blocker_def error_bit split: option.split)

lemma inspect_Ok:
  assumes "run (serve (read_only X D)) (x_mount X) d = (Inr fs, d1)"
    and "run (serve (read_only X D)) (x_journal X fs) d1 = ((Inr j, fs'), d2)"
  shows "\<exists>i. inspect X D d = (Ok i, snd (inspect X D d)) \<and> write_blocker i = find_blocker X (x_super X fs') j"
  using assms by (simp add: inspect_def and_then_def as_outcome_def)

text \<open>
  C26: Inspection never writes, even to a device the owner can write: for every ext4 engine, only
  reads reach the device. A writable mount inspects first and is refused with \<open>Corrupt\<close>, before
  anything but reads has reached the device, if the superblock or the journal found there records an
  error, or else if there is no journal or the engine does not find it a plain one it can replay;
  only otherwise does the engine's mount, the one that may replay the journal, get the device, as
  the inspection left it. A failed inspection fails the mount.
\<close>

theorem mount_inspects_before_writing:
  assumes "is_writable (logged D) d" "\<And>e. is_writable D e = is_writable D (fst d)"
  shows "(\<exists>es. snd (snd (inspect X (logged D) d)) = snd d @ es \<and> (\<forall>e\<in>set es. reads_device e)) \<and>
    (\<forall>i e reason. inspect X (logged D) d = (Ok i, e) \<and> write_blocker i = Some reason \<longrightarrow>
      mount X (logged D) d = (Err (Corrupt reason), e)) \<and>
    (\<forall>i e. inspect X (logged D) d = (Ok i, e) \<and> write_blocker i = None \<longrightarrow>
      mount X (logged D) d = as_outcome (run (serve (logged D)) (x_mount_recovering X) e)) \<and>
    (\<forall>x e. inspect X (logged D) d = (Err x, e) \<longrightarrow> mount X (logged D) d = (Err x, e)) \<and>
    (\<forall>fs d1 j fs' d2. run (serve (read_only X (logged D))) (x_mount X) d = (Inr fs, d1) \<and>
        run (serve (read_only X (logged D))) (x_journal X fs) d1 = ((Inr j, fs'), d2) \<longrightarrow>
      (let sb = x_super X fs'; e = snd (inspect X (logged D) d)
       in mount X (logged D) d =
         (if bit (sb_state sb) 1 \<or> (\<exists>k. j = Some k \<and> journal_errno k \<noteq> 0) then (Err (Corrupt outstanding_error), e)
          else if \<exists>k. j = Some k \<and> x_plain_recovery X k (sb_block_size sb) (sb_blocks_count sb)
          then as_outcome (run (serve (logged D)) (x_mount_recovering X) e)
          else (Err (Corrupt unsupported_journal), e))))"
proof (intro conjI allI impI)
  show "\<exists>es. snd (snd (inspect X (logged D) d)) = snd d @ es \<and> (\<forall>e\<in>set es. reads_device e)"
    using inspect_reads [of X D, unfolded within_def only_reads_def] by (rule spec)
  have w: "is_writable (logged D) e" for e
    using assms by (cases e; cases d) (simp add: logged_def)
  have blocked: "mount X (logged D) d = (Err (Corrupt reason), e)"
    if "inspect X (logged D) d = (Ok i, e)" "write_blocker i = Some reason" for i e reason
    using w that by (simp add: mount_def and_then_def act_simps)
  have clear: "mount X (logged D) d = as_outcome (run (serve (logged D)) (x_mount_recovering X) e)"
    if "inspect X (logged D) d = (Ok i, e)" "write_blocker i = None" for i e
    using w that by (simp add: mount_def and_then_def)
  show "mount X (logged D) d = (Err (Corrupt reason), e)"
    if "inspect X (logged D) d = (Ok i, e) \<and> write_blocker i = Some reason" for i e reason using that blocked by blast
  show "mount X (logged D) d = as_outcome (run (serve (logged D)) (x_mount_recovering X) e)"
    if "inspect X (logged D) d = (Ok i, e) \<and> write_blocker i = None" for i e using that clear by blast
  show "mount X (logged D) d = (Err x, e)" if "inspect X (logged D) d = (Err x, e)" for x e
    using w that by (simp add: mount_def and_then_def)
  fix fs d1 j fs' d2
  assume runs: "run (serve (read_only X (logged D))) (x_mount X) d = (Inr fs, d1) \<and>
    run (serve (read_only X (logged D))) (x_journal X fs) d1 = ((Inr j, fs'), d2)"
  obtain i where i: "inspect X (logged D) d = (Ok i, snd (inspect X (logged D) d))"
    "write_blocker i = find_blocker X (x_super X fs') j" 
    using inspect_Ok [OF conjunct1 [OF runs] conjunct2 [OF runs]] by blast
  have decided: "mount X (logged D) d = (case write_blocker i of
        Some reason \<Rightarrow> (Err (Corrupt reason), snd (inspect X (logged D) d))
      | None \<Rightarrow> as_outcome (run (serve (logged D)) (x_mount_recovering X) (snd (inspect X (logged D) d))))"
    using blocked [OF i(1)] clear [OF i(1)] by (cases "write_blocker i") simp_all
  show "let sb = x_super X fs'; e = snd (inspect X (logged D) d)
     in mount X (logged D) d =
       (if bit (sb_state sb) 1 \<or> (\<exists>k. j = Some k \<and> journal_errno k \<noteq> 0) then (Err (Corrupt outstanding_error), e)
        else if \<exists>k. j = Some k \<and> x_plain_recovery X k (sb_block_size sb) (sb_blocks_count sb)
        then as_outcome (run (serve (logged D)) (x_mount_recovering X) e)
        else (Err (Corrupt unsupported_journal), e))"
    unfolding decided i(2) find_blocker_cases Let_def by (simp only: option.case split: if_split) blast
qed

text \<open>An engine that reads one block to mount, and whose recovery and destructor write at once.\<close>

definition plain_journal :: journal where
  "plain_journal = \<lparr>journal_start = 1, journal_errno = 0, journal_sequence = 1, journal_compat = 0,
     journal_incompat = 0, journal_ro_compat = 0\<rparr>"

definition clean_super :: superblock where
  "clean_super = \<lparr>sb_incompat = 4, sb_state = 1, sb_last_orphan = 0, sb_block_size = 4096, sb_blocks_count = 8,
     sb_free_blocks = 4, sb_reserved_blocks = 0, sb_free_inodes = 8, sb_uuid = replicate 16 0, sb_compat = 4, sb_ro_compat = 0\<rparr>"

definition eager_ext4 :: "bool \<Rightarrow> unit ext4_mounting" where
  "eager_ext4 plain = \<lparr>x_mount = Call (Read_At 1024 1024) (\<lambda>_. Done (Inr ())),
     x_mount_recovering = Call (Write_At 0 [1]) (\<lambda>_. Done (Inr ())),
     x_journal = (\<lambda>_. Done (Inr (Some plain_journal), ())),
     x_super = (\<lambda>_. clean_super),
     x_plain_recovery = (\<lambda>_ _ _. plain), x_finish = (\<lambda>_. Done (Inr ())),
     x_drop = (\<lambda>_. Call (Write_At 0 [2]) (\<lambda>_. Done ())), incompat_recover = 4,
     default_is_writable = False, default_write = Inl ReadOnlyError, default_flush = Inr ()\<rparr>"

theorem mount_inspects_before_writing_witness:
  "mount (eager_ext4 False) (logged (zero_device 32768)) ((), []) =
    (Err (Corrupt unsupported_journal), ((), [Did_Read 1024 1024 True]))"
proof -
  let ?D = "logged (zero_device 32768)"
  have w: "is_writable ?D ((), [])" "\<And>e. is_writable (zero_device 32768) e = is_writable (zero_device 32768) (fst ((), []))"
    by (simp_all add: logged_def zero_device_def)
  have blocker: "find_blocker (eager_ext4 False) (x_super (eager_ext4 False) ()) (Some plain_journal) =
      Some unsupported_journal" by (simp add: find_blocker_def eager_ext4_def plain_journal_def clean_super_def)
  have "\<exists>i. inspect (eager_ext4 False) ?D ((), []) = (Ok i, ((), [Did_Read 1024 1024 True])) \<and>
      write_blocker i = Some unsupported_journal"
    using blocker by (simp add: inspect_def eager_ext4_def as_outcome_def serve_def read_only_def logged_def zero_device_def
        and_then_def act_simps)
  then show ?thesis using mount_inspects_before_writing [OF w, of "eager_ext4 False"] by blast
qed

text \<open>
  When a writable mount is blocked. The blocker is none exactly if the superblock records no
  error, a journal is there without an error of its own, and the engine finds it a plain journal
  it can replay; a pending replay, which is ordinary after an unclean unmount, does not block.
  A recorded error is reported before the journal's format.
\<close>

theorem write_blocker_exact:
  "(find_blocker X sb j = None \<longleftrightarrow> \<not> bit (sb_state sb) 1 \<and>
      (\<exists>k. j = Some k \<and> journal_errno k = 0 \<and> x_plain_recovery X k (sb_block_size sb) (sb_blocks_count sb))) \<and>
   (find_blocker X sb j = Some outstanding_error \<longleftrightarrow>
      bit (sb_state sb) 1 \<or> (\<exists>k. j = Some k \<and> journal_errno k \<noteq> 0)) \<and>
   find_blocker X (sb\<lparr>sb_incompat := c\<rparr>) (map_option (\<lambda>k. k\<lparr>journal_start := s\<rparr>) j) =
     find_blocker (X\<lparr>x_plain_recovery := \<lambda>k. x_plain_recovery X (k\<lparr>journal_start := s\<rparr>)\<rparr>) sb j"
proof -
  have "outstanding_error \<noteq> unsupported_journal" by (simp add: outstanding_error_def unsupported_journal_def)
  then show ?thesis by (auto simp: find_blocker_cases)
qed

end
