(* ===== verification/Fs_Engines.thy ===== *)
theory Fs_Engines
  imports Fs_Path Ext4_Adapter
begin

text \<open>
  What \<open>canoe-fs/src/lib.rs\<close> uses of the two filesystem engines, the state of a session, and how a
  call of an engine runs on that state. The engines are other crates: \<open>fat_engine\<close> and \<open>ext4_engine\<close>
  are records of the programs the session calls, over the cursor \<open>Io\<close> and the guarded device.
\<close>

section \<open>The FAT engine\<close>

text \<open>
  The state \<open>'f\<close> of a mounted FAT filesystem includes its open files, directories and iterators;
  a handle \<open>'h\<close> names one. \<open>fat_drop\<close> is a handle's destructor and \<open>fat_drop_fs\<close> that of the
  filesystem: both may write.
\<close>

type_synonym 'a io_prog = "(io_call, string + io_reply, 'a) prog"
type_synonym ('f, 'a) fat_op = "'f \<Rightarrow> ((string + 'a) \<times> 'f) io_prog"

record fat_item =
  item_name :: ustr
  item_short_name :: ustr
  item_is_dir :: bool
  item_len :: u64

record fat_usage =
  cluster_size :: u32
  total_clusters :: u32
  free_clusters :: u32

record ('f, 'h) fat_engine =
  fat_new :: "(string + 'f) io_prog"
  fat_root :: "'f \<Rightarrow> 'h"
  fat_open_dir :: "ustr \<Rightarrow> ('f, 'h) fat_op"
  fat_iter :: "'h \<Rightarrow> 'f \<Rightarrow> 'h \<times> 'f"
  fat_next :: "'h \<Rightarrow> 'f \<Rightarrow> ((string + fat_item) option \<times> 'f) io_prog"
  fat_open_file :: "ustr \<Rightarrow> ('f, 'h) fat_op"
  fat_create_file :: "ustr \<Rightarrow> ('f, 'h) fat_op"
  fat_create_dir :: "ustr \<Rightarrow> ('f, 'h) fat_op"
  fat_remove :: "ustr \<Rightarrow> ('f, unit) fat_op"
  fat_rename :: "ustr \<Rightarrow> ustr \<Rightarrow> ('f, unit) fat_op"
  fat_seek :: "'h \<Rightarrow> u64 \<Rightarrow> ('f, u64) fat_op"
  fat_read :: "'h \<Rightarrow> nat \<Rightarrow> ('f, nat \<times> u8 list) fat_op"
  fat_write_all :: "'h \<Rightarrow> u8 list \<Rightarrow> ('f, unit) fat_op"
  fat_flush_file :: "'h \<Rightarrow> ('f, unit) fat_op"
  fat_truncate :: "'h \<Rightarrow> ('f, unit) fat_op"
  fat_drop :: "'h \<Rightarrow> 'f \<Rightarrow> (unit \<times> 'f) io_prog"
  fat_flush :: "('f, unit) fat_op"
  fat_stats :: "('f, fat_usage) fat_op"
  fat_dirty :: "('f, bool) fat_op"
  fat_unmount :: "'f \<Rightarrow> (string + unit) io_prog"
  fat_drop_fs :: "'f \<Rightarrow> unit io_prog"

section \<open>The ext4 engine\<close>

record inode =
  is_symlink :: bool
  is_dir :: bool
  is_file :: bool
  has_inline_data :: bool
  inode_size :: u64
  inode_generation :: u32
  links_count :: u16

record dir_entry =
  dirent_name :: "u8 list"
  dirent_inode :: u32

record 'g ext4_engine =
  x_lookup :: "ustr \<Rightarrow> ('g, u32) ext_op"
  x_read_inode :: "u32 \<Rightarrow> ('g, inode \<times> u8 list) ext_op"
  x_read_super :: "('g, superblock) ext_op"
  x_map_logical :: "inode \<Rightarrow> u64 \<Rightarrow> ('g, u64 option) ext_op"
  x_read_block :: "u64 \<Rightarrow> ('g, u8 list) ext_op"
  x_parse_block :: "'g \<Rightarrow> u8 list \<Rightarrow> bool \<Rightarrow> u32 \<Rightarrow> u32 \<Rightarrow> ext_error + dir_entry list"
  x_read_file :: "u32 \<Rightarrow> inode \<Rightarrow> u8 list \<Rightarrow> u64 \<Rightarrow> u64 \<Rightarrow> ('g, u64 \<times> u8 list) ext_op"
  x_get_xattr :: "inode \<Rightarrow> u8 list \<Rightarrow> string \<Rightarrow> ('g, u8 list option) ext_op"
  x_set_xattr :: "ustr \<Rightarrow> string \<Rightarrow> u8 list \<Rightarrow> ('g, unit) ext_op"
  x_create :: "ustr \<Rightarrow> u16 \<Rightarrow> ('g, u32) ext_op"
  x_pwrite :: "ustr \<Rightarrow> u64 \<Rightarrow> u8 list \<Rightarrow> ('g, u64) ext_op"
  x_truncate :: "u32 \<Rightarrow> u64 \<Rightarrow> ('g, unit) ext_op"
  x_mkdir :: "ustr \<Rightarrow> u16 \<Rightarrow> ('g, u32) ext_op"
  x_rmdir :: "ustr \<Rightarrow> ('g, unit) ext_op"
  x_unlink :: "ustr \<Rightarrow> ('g, unit) ext_op"
  x_rename :: "ustr \<Rightarrow> ustr \<Rightarrow> bool \<Rightarrow> ('g, unit) ext_op"
  x_flush :: "('g, unit) ext_op"
  x_fresh_read :: "('g, unit) ext_op"

text \<open>
  All a session is run with: the width of \<open>usize\<close>, the texts of the ext4 errors, the Unicode table
  behind \<open>str::to_uppercase\<close>, the text of a \<open>FromUtf8Error\<close>, the device and the engines.
\<close>

record ('d, 'f, 'h, 'g) engines =
  usize_bits :: nat
  ext_text :: "ext_error \<Rightarrow> string"
  to_uppercase :: "ustr \<Rightarrow> ustr"
  utf8_text :: "u8 list \<Rightarrow> string"
  broker :: "'d block_device"
  fat :: "('f, 'h) fat_engine"
  ext4 :: "'g ext4_engine"
  mounting :: "'g ext4_mounting"

section \<open>The session and calls of the engines\<close>

datatype ('f, 'g) mounted = Fat 'f u64 | Ext4 'g

record ('d, 'f, 'g) session =
  mounted :: "('f, 'g) mounted option"
  guard :: "'d guarded"

type_synonym ('d, 'f, 'g, 'a) fs_act = "(('d, 'f, 'g) session, string, 'a) act"
type_synonym ('d, 'f, 'g, 'a) ext_act = "(('d, 'f, 'g) session, ext_error, 'a) act"

definition from_sum :: "'e + 'a \<Rightarrow> ('s, 'e, 'a) act" where
  "from_sum r = (case r of Inl e \<Rightarrow> fail e | Inr a \<Rightarrow> ret a)"

text \<open>
  A program of the FAT engine runs over the cursor, one of the ext4 engine over the guarded
  device. They are reached only inside the matching arm of \<open>match self.mounted()?\<close>; elsewhere the
  model panics, which \<open>session_never_panics\<close> shows not to happen.
\<close>

definition fat_run ::
  "('d, 'f, 'h, 'g) engines \<Rightarrow> ('f \<Rightarrow> ('a \<times> 'f) io_prog) \<Rightarrow> ('d, 'f, 'g, 'a) fs_act" where
  "fat_run E p s = (case mounted s of
     Some (Fat f position) \<Rightarrow>
       (case run (io_serve (usize_bits E) (ext_text E) (broker E)) (p f) (guard s, position) of
          ((a, f'), (g, position')) \<Rightarrow> (Ok a, \<lparr>mounted = Some (Fat f' position'), guard = g\<rparr>))
   | _ \<Rightarrow> (Panicked, s))"

definition fat_call :: "('d, 'f, 'h, 'g) engines \<Rightarrow> ('f, 'a) fat_op \<Rightarrow> ('d, 'f, 'g, 'a) fs_act" where
  "fat_call E p = and_then (fat_run E p) from_sum"

definition ext_call :: "('d, 'f, 'h, 'g) engines \<Rightarrow> ('g, 'a) ext_op \<Rightarrow> ('d, 'f, 'g, 'a) ext_act" where
  "ext_call E p s = (case mounted s of
     Some (Ext4 x) \<Rightarrow>
       (case run (serve (guarded_device (broker E))) (p x) (guard s) of
          ((r, x'), g) \<Rightarrow> from_sum r \<lparr>mounted = Some (Ext4 x'), guard = g\<rparr>)
   | _ \<Rightarrow> (Panicked, s))"

text \<open>The state of the ext4 engine that its plain fields are read from.\<close>

definition ext_state :: "('d, 'f, 'g, 'g) ext_act" where
  "ext_state s = (case mounted s of Some (Ext4 x) \<Rightarrow> (Ok x, s) | _ \<Rightarrow> (Panicked, s))"

text \<open>\<open>.map_err(error)\<close> on an ext4 result.\<close>

definition as_text :: "('d, 'f, 'h, 'g) engines \<Rightarrow> ('d, 'f, 'g, 'a) ext_act \<Rightarrow> ('d, 'f, 'g, 'a) fs_act" where
  "as_text E m = map_err (ext_text E) m"

text \<open>A handle is dropped at the end of its scope, however the scope ends.\<close>

definition drop_handle :: "('d, 'f, 'h, 'g) engines \<Rightarrow> 'h \<Rightarrow> ('d, 'f, 'g) session \<Rightarrow> ('d, 'f, 'g) session" where
  "drop_handle E h s = snd (fat_run E (fat_drop (fat E) h) s)"

definition scoped :: "('d, 'f, 'h, 'g) engines \<Rightarrow> 'h \<Rightarrow> ('d, 'f, 'g, 'a) fs_act \<Rightarrow> ('d, 'f, 'g, 'a) fs_act" where
  "scoped E h m s = (case m s of (r, t) \<Rightarrow> (r, drop_handle E h t))"

text \<open>\<open>match fs { Mounted::Fat(fs) => .., Mounted::Ext4(fs) => .. }\<close>\<close>

definition by_engine :: "('d, 'f, 'g, 'a) fs_act \<Rightarrow> ('d, 'f, 'g, 'a) fs_act \<Rightarrow> ('d, 'f, 'g, 'a) fs_act" where
  "by_engine m n s = (case mounted s of
     Some (Fat f position) \<Rightarrow> m s
   | Some (Ext4 x) \<Rightarrow> n s
   | None \<Rightarrow> (Panicked, s))"

end
