(* ===== verification/Fs_Session.thy ===== *)
theory Fs_Session
  imports Fs_Engines
begin

text \<open>
  The filesystem session of \<open>canoe-fs/src/lib.rs\<close>, operation by operation. Every operation acts on
  the session: the mounted engine and the guarded device it shares with it.
\<close>

section \<open>Bounds and entries\<close>

definition max_file_chunk :: nat where
  "max_file_chunk = 4 * 1024 * 1024"

definition max_directory_bytes :: nat where
  "max_directory_bytes = 16 * 1024 * 1024"

definition max_entries :: nat where
  "max_entries = 4096"

record entry =
  entry_name :: ustr
  entry_kind :: string
  entry_size :: u64
  entry_inode :: "u32 option"
  entry_generation :: "u32 option"

section \<open>State\<close>

definition fs_usable :: "('d, 'f, 'g) session \<Rightarrow> bool" where
  "fs_usable s \<longleftrightarrow> mounted s \<noteq> None \<and> \<not> retired (guard s)"

definition closed_text :: string where
  "closed_text = ''filesystem session is closed or retired''"

text \<open>\<open>self.mounted()?\<close> and \<open>self.writable()?\<close>\<close>

definition check_mounted :: "('d, 'f, 'g, unit) fs_act" where
  "check_mounted s = require (fs_usable s) closed_text s"

definition check_writable :: "('d, 'f, 'g, unit) fs_act" where
  "check_writable = and_then check_mounted (\<lambda>_ s. require (writable (guard s)) ''filesystem was opened read-only'' s)"

definition match_mounted :: "('d, 'f, 'g, 'a) fs_act \<Rightarrow> ('d, 'f, 'g, 'a) fs_act \<Rightarrow> ('d, 'f, 'g, 'a) fs_act" where
  "match_mounted m n = and_then check_mounted (\<lambda>_. by_engine m n)"

text \<open>\<open>self.device.retired.store(true)\<close> and \<open>self.mutation(result)\<close>\<close>

definition retire :: "('d, 'f, 'g) session \<Rightarrow> ('d, 'f, 'g) session" where
  "retire s = s\<lparr>guard := (guard s)\<lparr>retired := True\<rparr>\<rparr>"

definition mutation :: "('d, 'f, 'g, 'a) fs_act \<Rightarrow> ('d, 'f, 'g, 'a) fs_act" where
  "mutation m s = (case m s of (Err e, t) \<Rightarrow> (Err e, retire t) | x \<Rightarrow> x)"

definition check_path :: "ustr \<Rightarrow> ('d, 'f, 'g, unit) fs_act" where
  "check_path v = and_then (from_sum (path v)) (\<lambda>_. ret ())"

text \<open>\<open>&value[1..]\<close>\<close>

definition relative :: "ustr \<Rightarrow> ('d, 'f, 'g, ustr) fs_act" where
  "relative v = unwrap (after_first v)"

text \<open>\<open>self.device.flush()\<close>\<close>

definition device_flush :: "('d, 'f, 'h, 'g) engines \<Rightarrow> ('d, 'f, 'g, unit) fs_act" where
  "device_flush E s = (case guarded_flush (broker E) (guard s) of
     (Inl e, g) \<Rightarrow> (Err (ext_text E e), s\<lparr>guard := g\<rparr>)
   | (Inr _, g) \<Rightarrow> (Ok (), s\<lparr>guard := g\<rparr>))"

section \<open>ext4 helpers\<close>

definition ext_inode :: "('d, 'f, 'h, 'g) engines \<Rightarrow> ustr \<Rightarrow> ('d, 'f, 'g, u32 \<times> inode \<times> u8 list) ext_act" where
  "ext_inode E v =
     and_then (ext_call E (x_lookup (ext4 E) v)) (\<lambda>ino.
     and_then (ext_call E (x_read_inode (ext4 E) ino)) (\<lambda>(node, raw).
     if is_symlink node then fail (Unsupported ''symbolic links are not followed'') else ret (ino, node, raw)))"

definition selinux_label :: string where
  "selinux_label = ''security.selinux''"

definition label_parent :: "ustr \<Rightarrow> ustr" where
  "label_parent v = (case rsplit_once slash v of
     None \<Rightarrow> [slash]
   | Some (parent, _) \<Rightarrow> if parent = [] then [slash] else parent)"

definition inherit_label :: "('d, 'f, 'h, 'g) engines \<Rightarrow> ustr \<Rightarrow> ('d, 'f, 'g, unit) ext_act" where
  "inherit_label E v =
     and_then (ext_inode E (label_parent v)) (\<lambda>(_, node, raw).
     and_then (ext_call E (x_get_xattr (ext4 E) node raw selinux_label)) (\<lambda>found.
     case found of
       Some label \<Rightarrow> ext_call E (x_set_xattr (ext4 E) v selinux_label label)
     | None \<Rightarrow> ret ()))"

section \<open>Opening\<close>

text \<open>\<open>nusb-fatfs/src/lib.rs\<close>, \<open>mount\<close>: the crate's constructor on the cursor, with its default options.\<close>

definition fat_mount :: "('f, 'h) fat_engine \<Rightarrow> (string + 'f) io_prog" where
  [simp]: "fat_mount F = fat_new F"

text \<open>The session keeps the device, so both parts of the result hold its state.\<close>

definition fs_open :: "('d, 'f, 'h, 'g) engines \<Rightarrow> string \<Rightarrow> bool \<Rightarrow> ('d, string, ('d, 'f, 'g) session) act" where
  "fs_open E kind rw d =
     (if rw \<and> \<not> is_writable (broker E) d then (Err ''underlying storage is read-only'', d)
      else
        let g = \<lparr>inner = d, writable = rw, retired = False\<rparr>
        in if kind = ''fat'' then
             (case run (io_serve (usize_bits E) (ext_text E) (broker E)) (fat_mount (fat E)) (g, 0) of
                (Inl e, (h, _)) \<Rightarrow> (Err e, inner h)
              | (Inr f, (h, position)) \<Rightarrow> (Ok \<lparr>mounted = Some (Fat f position), guard = h\<rparr>, inner h))
           else if kind = ''ext4'' then
             (case mount (mounting E) (guarded_device (broker E)) g of
                (Ok x, h) \<Rightarrow> (Ok \<lparr>mounted = Some (Ext4 x), guard = h\<rparr>, inner h)
              | (Err e, h) \<Rightarrow> (Err (ext_text E e), inner h)
              | (Dropped, h) \<Rightarrow> (Dropped, inner h)
              | (Panicked, h) \<Rightarrow> (Panicked, inner h))
           else (Err ''filesystem must be fat or ext4'', d))"

section \<open>\<open>stat\<close>\<close>

definition matches :: "('d, 'f, 'h, 'g) engines \<Rightarrow> ustr \<Rightarrow> fat_item \<Rightarrow> bool" where
  "matches E name item \<longleftrightarrow> to_uppercase E (item_name item) = to_uppercase E name \<or>
     to_uppercase E (item_short_name item) = to_uppercase E name"

definition fat_entry :: "fat_item \<Rightarrow> entry" where
  "fat_entry item = \<lparr>entry_name = item_name item, entry_kind = (if item_is_dir item then ''directory'' else ''file''),
     entry_size = item_len item, entry_inode = None, entry_generation = None\<rparr>"

text \<open>
  The loop over \<open>dir.iter().enumerate()\<close>, with what is left of the limit as its argument.
\<close>

primrec stat_scan :: "('d, 'f, 'h, 'g) engines \<Rightarrow> ustr \<Rightarrow> 'h \<Rightarrow> nat \<Rightarrow> ('d, 'f, 'g, entry) fs_act" where
  "stat_scan E name it 0 =
     and_then (fat_run E (fat_next (fat E) it)) (\<lambda>x. case x of
       None \<Rightarrow> fail ''not found''
     | Some _ \<Rightarrow> fail ''directory entry limit exceeded'')"
| "stat_scan E name it (Suc n) =
     and_then (fat_run E (fat_next (fat E) it)) (\<lambda>x. case x of
       None \<Rightarrow> fail ''not found''
     | Some r \<Rightarrow> and_then (from_sum r) (\<lambda>item.
         if matches E name item then ret (fat_entry item) else stat_scan E name it n))"

definition fat_root_dir :: "('d, 'f, 'h, 'g) engines \<Rightarrow> ('d, 'f, 'g, 'h) fs_act" where
  "fat_root_dir E = fat_run E (\<lambda>f. Done (fat_root (fat E) f, f))"

definition fat_dir_iter :: "('d, 'f, 'h, 'g) engines \<Rightarrow> 'h \<Rightarrow> ('d, 'f, 'g, 'h) fs_act" where
  "fat_dir_iter E dir = fat_run E (\<lambda>f. Done (fat_iter (fat E) dir f))"

definition fat_stat :: "('d, 'f, 'h, 'g) engines \<Rightarrow> ustr \<Rightarrow> ('d, 'f, 'g, entry) fs_act" where
  "fat_stat E v =
     (if v = [slash] then ret \<lparr>entry_name = [slash], entry_kind = ''directory'', entry_size = 0,
        entry_inode = None, entry_generation = None\<rparr>
      else and_then (unwrap (rsplit_once slash v)) (\<lambda>(parent, name).
        and_then (if parent = [] then fat_root_dir E
          else and_then (relative parent) (\<lambda>p. fat_call E (fat_open_dir (fat E) p))) (\<lambda>dir.
        scoped E dir (and_then (fat_dir_iter E dir) (\<lambda>it. scoped E it (stat_scan E name it max_entries))))))"

definition inode_kind :: "inode \<Rightarrow> string" where
  "inode_kind node = (if is_dir node then ''directory'' else if is_file node then ''file'' else ''other'')"

definition ext_stat :: "('d, 'f, 'h, 'g) engines \<Rightarrow> ustr \<Rightarrow> ('d, 'f, 'g, entry) fs_act" where
  "ext_stat E v = and_then (as_text E (ext_inode E v)) (\<lambda>(ino, node, raw).
     ret \<lparr>entry_name = last (split_at slash v), entry_kind = inode_kind node, entry_size = inode_size node,
       entry_inode = Some ino, entry_generation = Some (inode_generation node)\<rparr>)"

definition fs_stat :: "('d, 'f, 'h, 'g) engines \<Rightarrow> ustr \<Rightarrow> ('d, 'f, 'g, entry) fs_act" where
  "fs_stat E v = and_then (check_path v) (\<lambda>_. match_mounted (fat_stat E v) (ext_stat E v))"

text \<open>\<open>match self.stat(value)\<close> where the name must not be there.\<close>

definition expect_absent :: "('d, 'f, 'h, 'g) engines \<Rightarrow> ustr \<Rightarrow> ('d, 'f, 'g, unit) fs_act" where
  "expect_absent E v = match_result (fs_stat E v) (\<lambda>_. fail ''already exists'')
     (\<lambda>e. if e = ''not found'' then ret () else fail e)"

section \<open>\<open>read\<close>\<close>

text \<open>What a read of \<open>data\<close> leaves in a buffer from position \<open>i\<close> on.\<close>

definition overlay :: "nat \<Rightarrow> u8 list \<Rightarrow> u8 list \<Rightarrow> u8 list" where
  "overlay i data buf = take i buf @ take (length buf - i) data @ drop (i + length data) buf"

lemma length_overlay [simp]: "i \<le> length buf \<Longrightarrow> length (overlay i data buf) = length buf"
  by (simp add: overlay_def)

function read_loop :: "('d, 'f, 'h, 'g) engines \<Rightarrow> 'h \<Rightarrow> u8 list \<Rightarrow> nat \<Rightarrow> ('d, 'f, 'g, u8 list \<times> nat) fs_act" where
  "read_loop E file buf count s =
     (if count < length buf
      then (case fat_call E (fat_read (fat E) file (length buf - count)) s of
          (Ok (n, data), t) \<Rightarrow>
            if n = 0 then (Ok (overlay count data buf, count), t)
            else read_loop E file (overlay count data buf) (count + n) t
        | (Err e, t) \<Rightarrow> (Err e, t)
        | (Dropped, t) \<Rightarrow> (Dropped, t)
        | (Panicked, t) \<Rightarrow> (Panicked, t))
      else (Ok (buf, count), s))"
  by pat_completeness auto
termination
  by (relation "measure (\<lambda>(E, file, buf, count, s). length buf - count)") auto

declare read_loop.simps [simp del]

definition fat_read_file :: "('d, 'f, 'h, 'g) engines \<Rightarrow> ustr \<Rightarrow> u64 \<Rightarrow> nat \<Rightarrow> ('d, 'f, 'g, u8 list) fs_act" where
  "fat_read_file E v offset len =
     and_then (relative v) (\<lambda>p.
     and_then (fat_call E (fat_open_file (fat E) p)) (\<lambda>file. scoped E file
       (and_then (fat_call E (fat_seek (fat E) file offset)) (\<lambda>_.
        and_then (read_loop E file (replicate len 0) 0) (\<lambda>(buf, count).
        ret (take count buf))))))"

definition ext_read_file :: "('d, 'f, 'h, 'g) engines \<Rightarrow> ustr \<Rightarrow> u64 \<Rightarrow> nat \<Rightarrow> ('d, 'f, 'g, u8 list) fs_act" where
  "ext_read_file E v offset len =
     and_then (as_text E (ext_inode E v)) (\<lambda>(ino, node, raw).
     and_then (require (is_file node) ''not a regular file'') (\<lambda>_.
     and_then (as_text E (ext_call E (x_read_file (ext4 E) ino node raw offset (of_nat len)))) (\<lambda>(count, data).
     ret (take (unat count mod 2 ^ usize_bits E) (overlay 0 data (replicate len 0))))))"

definition fs_read :: "('d, 'f, 'h, 'g) engines \<Rightarrow> ustr \<Rightarrow> u64 \<Rightarrow> nat \<Rightarrow> ('d, 'f, 'g, u8 list) fs_act" where
  "fs_read E v offset len =
     and_then (check_path v) (\<lambda>_.
     and_then (require (len \<le> max_file_chunk) ''file read exceeds4MiB'') (\<lambda>_.
     match_mounted (fat_read_file E v offset len) (ext_read_file E v offset len)))"

end
