(* ===== verification/Fs_Listing.thy ===== *)
theory Fs_Listing
  imports Fs_Session
begin

text \<open>
  \<open>list\<close> and \<open>inspect\<close> of the filesystem session. The FAT loop of \<open>list\<close> has no bound of its own on
  the entries it skips, so it may not return; then its value is \<open>None\<close>.
\<close>

section \<open>\<open>String::from_utf8\<close>\<close>

definition continuation :: "nat \<Rightarrow> bool" where
  "continuation b \<longleftrightarrow> 0x80 \<le> b \<and> b < 0xc0"

fun from_utf8 :: "nat list \<Rightarrow> ustr option" where
  "from_utf8 [] = Some []"
| "from_utf8 (a # xs) =
     (if a < 0x80 then map_option ((#) a) (from_utf8 xs)
      else if a < 0xe0 then
        (case xs of b # ys \<Rightarrow>
           if 0xc2 \<le> a \<and> continuation b
           then map_option ((#) ((a - 0xc0) * 64 + (b - 0x80))) (from_utf8 ys) else None
         | _ \<Rightarrow> None)
      else if a < 0xf0 then
        (case xs of b # c # ys \<Rightarrow>
           if continuation b \<and> continuation c \<and> (a = 0xe0 \<longrightarrow> 0xa0 \<le> b) \<and> (a = 0xed \<longrightarrow> b < 0xa0)
           then map_option ((#) ((a - 0xe0) * 4096 + (b - 0x80) * 64 + (c - 0x80))) (from_utf8 ys) else None
         | _ \<Rightarrow> None)
      else
        (case xs of b # c # d # ys \<Rightarrow>
           if a < 0xf5 \<and> continuation b \<and> continuation c \<and> continuation d \<and>
              (a = 0xf0 \<longrightarrow> 0x90 \<le> b) \<and> (a = 0xf4 \<longrightarrow> b < 0x90)
           then map_option ((#) ((a - 0xf0) * 262144 + (b - 0x80) * 4096 + (c - 0x80) * 64 + (d - 0x80))) (from_utf8 ys)
           else None
         | _ \<Rightarrow> None))"

section \<open>\<open>list\<close>\<close>

definition dot :: ustr where
  "dot = [46]"

definition dot_dot :: ustr where
  "dot_dot = [46, 46]"

partial_function (option) list_scan ::
  "('d, 'f, 'h, 'g) engines \<Rightarrow> 'h \<Rightarrow> entry list \<Rightarrow> ('d, 'f, 'g) session \<Rightarrow> ((string, entry list) outcome \<times> ('d, 'f, 'g) session) option" where
  "list_scan E it entries s =
     (case fat_run E (fat_next (fat E) it) s of
        (Ok None, t) \<Rightarrow> Some (Ok entries, t)
      | (Ok (Some (Inl e)), t) \<Rightarrow> Some (Err e, t)
      | (Ok (Some (Inr item)), t) \<Rightarrow>
          if item_name item = dot \<or> item_name item = dot_dot then list_scan E it entries t
          else if max_entries \<le> length entries then Some (Err ''directory entry limit exceeded'', t)
          else list_scan E it (entries @ [fat_entry item]) t
      | (Err e, t) \<Rightarrow> Some (Err e, t)
      | (Dropped, t) \<Rightarrow> Some (Dropped, t)
      | (Panicked, t) \<Rightarrow> Some (Panicked, t))"

definition fat_list :: "('d, 'f, 'h, 'g) engines \<Rightarrow> ustr \<Rightarrow> ('d, 'f, 'g) session \<Rightarrow> ((string, entry list) outcome \<times> ('d, 'f, 'g) session) option" where
  "fat_list E v s =
     (case and_then (if v = [slash] then fat_root_dir E
          else and_then (relative v) (\<lambda>p. fat_call E (fat_open_dir (fat E) p))) (\<lambda>dir.
        and_then (fat_dir_iter E dir) (\<lambda>it. ret (dir, it))) s of
        (Ok (dir, it), t) \<Rightarrow> map_option (\<lambda>(r, u). (r, drop_handle E dir (drop_handle E it u))) (list_scan E it [] t)
      | (Err e, t) \<Rightarrow> Some (Err e, t)
      | (Dropped, t) \<Rightarrow> Some (Dropped, t)
      | (Panicked, t) \<Rightarrow> Some (Panicked, t))"

definition list_kind :: "inode \<Rightarrow> string" where
  "list_kind node = (if is_symlink node then ''symlink'' else if is_dir node then ''directory''
     else if is_file node then ''file'' else ''other'')"

definition decode_name :: "('d, 'f, 'h, 'g) engines \<Rightarrow> u8 list \<Rightarrow> ('d, 'f, 'g, ustr) fs_act" where
  "decode_name E name = ok_or (utf8_text E name) (from_utf8 (map unat name))"

primrec list_dirents :: "('d, 'f, 'h, 'g) engines \<Rightarrow> dir_entry list \<Rightarrow> entry list \<Rightarrow> ('d, 'f, 'g, entry list) fs_act" where
  "list_dirents E [] entries = ret entries"
| "list_dirents E (d # ds) entries =
     (if dirent_name d = [46] \<or> dirent_name d = [46, 46] then list_dirents E ds entries
      else if max_entries \<le> length entries then fail ''directory entry limit exceeded''
      else and_then (as_text E (ext_call E (x_read_inode (ext4 E) (dirent_inode d)))) (\<lambda>(node, _).
        and_then (decode_name E (dirent_name d)) (\<lambda>name.
        list_dirents E ds (entries @ [\<lparr>entry_name = name, entry_kind = list_kind node, entry_size = inode_size node,
          entry_inode = Some (dirent_inode d), entry_generation = Some (inode_generation node)\<rparr>]))))"

primrec list_blocks ::
  "('d, 'f, 'h, 'g) engines \<Rightarrow> u32 \<Rightarrow> inode \<Rightarrow> nat list \<Rightarrow> entry list \<Rightarrow> ('d, 'f, 'g, entry list) fs_act" where
  "list_blocks E ino node [] entries = ret entries"
| "list_blocks E ino node (l # ls) entries =
     and_then (as_text E (ext_call E (x_map_logical (ext4 E) node (of_nat l)))) (\<lambda>physical.
     case physical of
       None \<Rightarrow> list_blocks E ino node ls entries
     | Some p \<Rightarrow>
         and_then (as_text E (ext_call E (x_read_block (ext4 E) p))) (\<lambda>block.
         and_then (as_text E ext_state) (\<lambda>x.
         and_then (as_text E (from_sum (x_parse_block (ext4 E) x block (sb_incompat (x_super (mounting E) x) AND 2 \<noteq> 0)
           ino (inode_generation node)))) (\<lambda>dirents.
         and_then (list_dirents E dirents entries) (list_blocks E ino node ls)))))"

text \<open>\<open>div_ceil\<close> panics on a zero block size; the size bound keeps the number of blocks small.\<close>

definition ext_list :: "('d, 'f, 'h, 'g) engines \<Rightarrow> ustr \<Rightarrow> ('d, 'f, 'g, entry list) fs_act" where
  "ext_list E v =
     and_then (as_text E (ext_inode E v)) (\<lambda>(ino, node, _).
     and_then (require (is_dir node) ''not a directory'') (\<lambda>_.
     and_then (require (\<not> (max_directory_bytes < unat (inode_size node) \<or> has_inline_data node))
       ''unsupported or oversized directory layout'') (\<lambda>_.
     and_then (as_text E ext_state) (\<lambda>x.
     if sb_block_size (x_super (mounting E) x) = 0 then panic
     else list_blocks E ino node [0..<unat (div_ceil (inode_size node) (ucast (sb_block_size (x_super (mounting E) x))))] []))))"

definition fs_list :: "('d, 'f, 'h, 'g) engines \<Rightarrow> ustr \<Rightarrow> ('d, 'f, 'g) session \<Rightarrow> ((string, entry list) outcome \<times> ('d, 'f, 'g) session) option" where
  "fs_list E v s =
     (case and_then (check_path v) (\<lambda>_. check_mounted) s of
        (Ok _, t) \<Rightarrow>
          (case mounted t of
             Some (Fat f position) \<Rightarrow> fat_list E v t
           | Some (Ext4 x) \<Rightarrow> Some (ext_list E v t)
           | None \<Rightarrow> Some (Panicked, t))
      | (Err e, t) \<Rightarrow> Some (Err e, t)
      | (Dropped, t) \<Rightarrow> Some (Dropped, t)
      | (Panicked, t) \<Rightarrow> Some (Panicked, t))"

section \<open>\<open>inspect\<close>\<close>

text \<open>
  The JSON object, member by member. Products of \<open>u64\<close> values wrap, as in the release build; the
  debug build panics there.
\<close>

definition fat_inspect :: "('d, 'f, 'h, 'g) engines \<Rightarrow> ('d, 'f, 'g, json) fs_act" where
  "fat_inspect E =
     and_then (fat_call E (fat_stats (fat E))) (\<lambda>stats.
     and_then (fat_call E (fat_dirty (fat E))) (\<lambda>dirty s.
     (Ok (JObject
       [(''kind'', JString ''fat''), (''writable'', JBool (writable (guard s))),
        (''deviceBytes'', JNumber (unat (size_of (broker E) (inner (guard s))))),
        (''allocationUnit'', JNumber (unat (cluster_size stats))),
        (''totalUnits'', JNumber (unat (total_clusters stats))),
        (''freeBytes'', JNumber (unat (ucast (free_clusters stats) * ucast (cluster_size stats) :: u64))),
        (''dirty'', JBool dirty)]), s)))"

definition session_supported :: "('d, 'f, 'h, 'g) engines \<Rightarrow> superblock \<Rightarrow> journal option \<Rightarrow> bool" where
  "session_supported E sb j = (case j of None \<Rightarrow> False
     | Some k \<Rightarrow> x_plain_recovery (mounting E) k (sb_block_size sb) (sb_blocks_count sb))"

definition session_blocker :: "('d, 'f, 'h, 'g) engines \<Rightarrow> superblock \<Rightarrow> journal option \<Rightarrow> string option" where
  "session_blocker E sb j =
     (if sb_state sb AND 2 \<noteq> 0 \<or> (case j of None \<Rightarrow> False | Some k \<Rightarrow> journal_errno k \<noteq> 0)
      then Some ''filesystem or journal records an outstanding error''
      else if \<not> session_supported E sb j
      then Some ''checked writes require a supported plain internal JBD2 journal''
      else None)"

definition json_journal :: "journal option \<Rightarrow> json" where
  "json_journal j = (case j of None \<Rightarrow> JNull | Some k \<Rightarrow> JObject
     [(''start'', JNumber (unat (journal_start k))), (''sequence'', JNumber (unat (journal_sequence k))),
      (''error'', JNumber (unat (journal_errno k))), (''compat'', JNumber (unat (journal_compat k))),
      (''incompat'', JNumber (unat (journal_incompat k))), (''roCompat'', JNumber (unat (journal_ro_compat k)))])"

definition ext_inspect :: "('d, 'f, 'h, 'g) engines \<Rightarrow> ('d, 'f, 'g, json) fs_act" where
  "ext_inspect E =
     and_then (as_text E (ext_call E (x_read_super (ext4 E)))) (\<lambda>sb.
     and_then (as_text E (ext_call E (x_journal (mounting E)))) (\<lambda>j s.
     (Ok (JObject
       [(''kind'', JString ''ext4''), (''writable'', JBool (writable (guard s))),
        (''deviceBytes'', JNumber (unat (size_of (broker E) (inner (guard s))))),
        (''allocationUnit'', JNumber (unat (sb_block_size sb))),
        (''totalUnits'', JNumber (unat (sb_blocks_count sb))),
        (''freeBytes'', JNumber (unat (sb_free_blocks sb * ucast (sb_block_size sb)))),
        (''reservedBytes'', JNumber (unat (sb_reserved_blocks sb * ucast (sb_block_size sb)))),
        (''freeInodes'', JNumber (unat (sb_free_inodes sb))),
        (''uuid'', JArray (map unat (sb_uuid sb))),
        (''features'', JObject [(''compat'', JNumber (unat (sb_compat sb))), (''incompat'', JNumber (unat (sb_incompat sb))),
          (''roCompat'', JNumber (unat (sb_ro_compat sb)))]),
        (''needsRecovery'', JBool (sb_incompat sb AND 4 \<noteq> 0)),
        (''orphanHead'', JNumber (unat (sb_last_orphan sb))),
        (''journal'', json_journal j),
        (''checkedWriteFormatSupported'', JBool (session_supported E sb j)),
        (''writeBlocker'', case session_blocker E sb j of None \<Rightarrow> JNull | Some reason \<Rightarrow> JString reason)]), s)))"

definition fs_inspect :: "('d, 'f, 'h, 'g) engines \<Rightarrow> ('d, 'f, 'g, json) fs_act" where
  "fs_inspect E = match_mounted (fat_inspect E) (ext_inspect E)"

end
