(* ===== verification/Fs_Mutations.thy ===== *)
theory Fs_Mutations
  imports Fs_Session
begin

text \<open>
  The operations of the filesystem session that change the filesystem, its end (\<open>flush\<close>, \<open>finish\<close>,
  \<open>abort\<close>, dropping it) and one operation after another.
\<close>

section \<open>Changing the filesystem\<close>

text \<open>
  The handle a creation returns is dropped at once (\<open>.map(|_| ())\<close>).
\<close>

definition fat_made :: "('d, 'f, 'h, 'g) engines \<Rightarrow> ('f, 'h) fat_op \<Rightarrow> ('d, 'f, 'g, unit) fs_act" where
  "fat_made E p = and_then (fat_call E p) (\<lambda>h. scoped E h (ret ()))"

definition fs_create_file :: "('d, 'f, 'h, 'g) engines \<Rightarrow> ustr \<Rightarrow> ('d, 'f, 'g, unit) fs_act" where
  "fs_create_file E v =
     and_then (check_path v) (\<lambda>_.
     and_then check_writable (\<lambda>_.
     and_then (require (v \<noteq> [slash]) ''cannot replace root'') (\<lambda>_.
     and_then (expect_absent E v) (\<lambda>_.
     and_then check_mounted (\<lambda>_.
     mutation (by_engine
       (and_then (relative v) (\<lambda>p. fat_made E (fat_create_file (fat E) p)))
       (as_text E (and_then (ext_call E (x_create (ext4 E) v 0x180)) (\<lambda>_. inherit_label E v)))))))))"

text \<open>The range test of \<open>write\<close>: the sum is taken in 64 bits and must not pass the device's size.\<close>

definition bad_write_range :: "u64 \<Rightarrow> nat \<Rightarrow> u64 \<Rightarrow> bool" where
  "bad_write_range offset len capacity \<longleftrightarrow> max_file_chunk < len \<or>
     (case checked_add offset (of_nat len) of None \<Rightarrow> True | Some stop \<Rightarrow> capacity < stop)"

definition fat_write :: "('d, 'f, 'h, 'g) engines \<Rightarrow> ustr \<Rightarrow> u64 \<Rightarrow> u8 list \<Rightarrow> ('d, 'f, 'g, unit) fs_act" where
  "fat_write E v offset bytes =
     and_then (relative v) (\<lambda>p.
     and_then (fat_call E (fat_open_file (fat E) p)) (\<lambda>file. scoped E file
       (and_then (fat_call E (fat_seek (fat E) file offset)) (\<lambda>_.
        and_then (fat_call E (fat_write_all (fat E) file bytes)) (\<lambda>_.
        fat_call E (fat_flush_file (fat E) file))))))"

definition ext_write :: "('d, 'f, 'h, 'g) engines \<Rightarrow> ustr \<Rightarrow> u64 \<Rightarrow> u8 list \<Rightarrow> ('d, 'f, 'g, unit) fs_act" where
  "ext_write E v offset bytes =
     and_then (as_text E (ext_inode E v)) (\<lambda>(_, node, _).
     and_then (require (links_count node = 1) ''writing multiply linked files is refused'') (\<lambda>_.
     and_then (as_text E (ext_call E (x_pwrite (ext4 E) v offset bytes))) (\<lambda>_. ret ())))"

definition fs_write :: "('d, 'f, 'h, 'g) engines \<Rightarrow> ustr \<Rightarrow> u64 \<Rightarrow> u8 list \<Rightarrow> ('d, 'f, 'g, unit) fs_act" where
  "fs_write E v offset bytes =
     and_then (check_path v) (\<lambda>_.
     and_then check_writable (\<lambda>_.
     and_then (\<lambda>s. require (\<not> bad_write_range offset (length bytes) (size_of (broker E) (inner (guard s))))
       ''invalid file write range'' s) (\<lambda>_.
     and_then (fs_stat E v) (\<lambda>item.
     and_then (require (entry_kind item = ''file'') ''not a regular file'') (\<lambda>_.
     and_then (require (\<not> entry_size item < offset) ''file write cannot leave a gap'') (\<lambda>_.
     mutation (match_mounted (fat_write E v offset bytes) (ext_write E v offset bytes))))))))"

definition fat_shrink :: "('d, 'f, 'h, 'g) engines \<Rightarrow> ustr \<Rightarrow> u64 \<Rightarrow> ('d, 'f, 'g, unit) fs_act" where
  "fat_shrink E v len =
     and_then (relative v) (\<lambda>p.
     and_then (fat_call E (fat_open_file (fat E) p)) (\<lambda>file. scoped E file
       (and_then (fat_call E (fat_seek (fat E) file len)) (\<lambda>_.
        fat_call E (fat_truncate (fat E) file)))))"

definition ext_shrink :: "('d, 'f, 'h, 'g) engines \<Rightarrow> ustr \<Rightarrow> u64 \<Rightarrow> ('d, 'f, 'g, unit) fs_act" where
  "ext_shrink E v len =
     and_then (as_text E (ext_inode E v)) (\<lambda>(ino, node, _).
     and_then (require (links_count node = 1) ''truncating multiply linked files is refused'') (\<lambda>_.
     as_text E (ext_call E (x_truncate (ext4 E) ino len))))"

definition fs_truncate :: "('d, 'f, 'h, 'g) engines \<Rightarrow> ustr \<Rightarrow> u64 \<Rightarrow> ('d, 'f, 'g, unit) fs_act" where
  "fs_truncate E v len =
     and_then (check_path v) (\<lambda>_.
     and_then check_writable (\<lambda>_.
     and_then (fs_stat E v) (\<lambda>item.
     and_then (require (\<not> (entry_kind item \<noteq> ''file'' \<or> entry_size item < len))
       ''truncate only shrinks existing regular files'') (\<lambda>_.
     if len = entry_size item then ret ()
     else mutation (match_mounted (fat_shrink E v len) (ext_shrink E v len))))))"

definition fs_mkdir :: "('d, 'f, 'h, 'g) engines \<Rightarrow> ustr \<Rightarrow> ('d, 'f, 'g, unit) fs_act" where
  "fs_mkdir E v =
     and_then (check_path v) (\<lambda>_.
     and_then check_writable (\<lambda>_.
     and_then (expect_absent E v) (\<lambda>_.
     and_then check_mounted (\<lambda>_.
     mutation (by_engine
       (and_then (relative v) (\<lambda>p. fat_made E (fat_create_dir (fat E) p)))
       (as_text E (and_then (ext_call E (x_mkdir (ext4 E) v 0x1c0)) (\<lambda>_. inherit_label E v))))))))"

definition fs_remove :: "('d, 'f, 'h, 'g) engines \<Rightarrow> ustr \<Rightarrow> ('d, 'f, 'g, unit) fs_act" where
  "fs_remove E v =
     and_then (check_path v) (\<lambda>_.
     and_then check_writable (\<lambda>_.
     and_then (require (v \<noteq> [slash]) ''cannot remove root'') (\<lambda>_.
     and_then (fs_stat E v) (\<lambda>item.
     and_then check_mounted (\<lambda>_.
     mutation (by_engine
       (and_then (relative v) (\<lambda>p. fat_call E (fat_remove (fat E) p)))
       (as_text E (if entry_kind item = ''directory'' then ext_call E (x_rmdir (ext4 E) v)
          else ext_call E (x_unlink (ext4 E) v)))))))))"

definition fs_rename :: "('d, 'f, 'h, 'g) engines \<Rightarrow> ustr \<Rightarrow> ustr \<Rightarrow> ('d, 'f, 'g, unit) fs_act" where
  "fs_rename E source destination =
     and_then (check_path source) (\<lambda>_.
     and_then (check_path destination) (\<lambda>_.
     and_then check_writable (\<lambda>_.
     and_then (require (\<not> (source = [slash] \<or> destination = [slash])) ''cannot rename root'') (\<lambda>_.
     and_then (fs_stat E source) (\<lambda>_.
     and_then (expect_absent E destination) (\<lambda>_.
     and_then check_mounted (\<lambda>_.
     mutation (by_engine
       (and_then (relative source) (\<lambda>p. and_then (relative destination) (\<lambda>q. fat_call E (fat_rename (fat E) p q))))
       (as_text E (ext_call E (x_rename (ext4 E) source destination False)))))))))))"

section \<open>Publishing and ending\<close>

text \<open>A read-only FAT session never publishes what its engine keeps in memory.\<close>

definition fat_publish :: "('d, 'f, 'h, 'g) engines \<Rightarrow> ('d, 'f, 'g, unit) fs_act" where
  "fat_publish E s = (if writable (guard s) then fat_call E (fat_flush (fat E)) s else device_flush E s)"

definition fs_flush :: "('d, 'f, 'h, 'g) engines \<Rightarrow> ('d, 'f, 'g, unit) fs_act" where
  "fs_flush E = and_then check_mounted (\<lambda>_.
     mutation (by_engine (fat_publish E) (as_text E (ext_call E (x_flush (ext4 E))))))"

definition fs_fresh_read :: "('d, 'f, 'h, 'g) engines \<Rightarrow> ('d, 'f, 'g, unit) fs_act" where
  "fs_fresh_read E = and_then check_mounted (\<lambda>_.
     mutation (by_engine (fat_publish E) (as_text E (ext_call E (x_fresh_read (ext4 E))))))"

text \<open>\<open>self.mounted.take()\<close> drops the engine, whose destructor may write.\<close>

definition drop_mounted :: "('d, 'f, 'h, 'g) engines \<Rightarrow> ('d, 'f, 'g) session \<Rightarrow> ('d, 'f, 'g) session" where
  "drop_mounted E s = (case mounted s of
     None \<Rightarrow> s
   | Some (Fat f position) \<Rightarrow>
       \<lparr>mounted = None, guard = fst (snd (run (io_serve (usize_bits E) (ext_text E) (broker E)) (fat_drop_fs (fat E) f) (guard s, position)))\<rparr>
   | Some (Ext4 x) \<Rightarrow>
       \<lparr>mounted = None, guard = snd (run (serve (guarded_device (broker E))) (x_drop (mounting E) x) (guard s))\<rparr>)"

definition fs_abort :: "('d, 'f, 'h, 'g) engines \<Rightarrow> ('d, 'f, 'g, unit) fs_act" where
  "fs_abort E = modify (\<lambda>s. drop_mounted E (retire s))"

definition fs_drop :: "('d, 'f, 'h, 'g) engines \<Rightarrow> ('d, 'f, 'g, unit) fs_act" where
  "fs_drop E = fs_abort E"

text \<open>\<open>self.mounted.take().unwrap()\<close> consumed by the engine's unmount.\<close>

definition unmount :: "('d, 'f, 'h, 'g) engines \<Rightarrow> ('d, 'f, 'g, unit) fs_act" where
  "unmount E s = (case mounted s of
     None \<Rightarrow> (Panicked, s)
   | Some (Fat f position) \<Rightarrow>
       (case run (io_serve (usize_bits E) (ext_text E) (broker E)) (fat_unmount (fat E) f) (guard s, position) of
          (r, (g, _)) \<Rightarrow> from_sum r \<lparr>mounted = None, guard = g\<rparr>)
   | Some (Ext4 x) \<Rightarrow>
       (case ext4_finish (mounting E) (guarded_device (broker E)) x (guard s) of
          (Ok _, g) \<Rightarrow> (Ok (), \<lparr>mounted = None, guard = g\<rparr>)
        | (Err e, g) \<Rightarrow> (Err (ext_text E e), \<lparr>mounted = None, guard = g\<rparr>)
        | (Dropped, g) \<Rightarrow> (Dropped, \<lparr>mounted = None, guard = g\<rparr>)
        | (Panicked, g) \<Rightarrow> (Panicked, \<lparr>mounted = None, guard = g\<rparr>)))"

definition fs_finish :: "('d, 'f, 'h, 'g) engines \<Rightarrow> ('d, 'f, 'g, unit) fs_act" where
  "fs_finish E = and_then check_mounted (\<lambda>_ s.
     if \<not> writable (guard s) then fs_abort E s
     else and_then (mutation (unmount E)) (\<lambda>_. device_flush E) s)"

end
