(* ===== verification/Fs_Confinement.thy ===== *)
theory Fs_Confinement
  imports Fs_Listing Fs_Mutations
begin

text \<open>
  What a filesystem session lets its engines do to the device: the relation \<open>quiet\<close> between two
  states of the guarded device, kept by every operation of the session for every pair of engines.
\<close>

section \<open>The relation\<close>

text \<open>
  New accesses are in bounds, are writes only in a writable session, and only the last may have
  failed, which leaves the device retired. A retired device stays so and is not touched.
\<close>

definition quiet :: "u64 \<Rightarrow> ('d \<times> event list) guarded \<Rightarrow> ('d \<times> event list) guarded \<Rightarrow> bool" where
  "quiet n s t \<longleftrightarrow> writable t = writable s \<and> (retired s \<longrightarrow> retired t \<and> inner t = inner s) \<and>
     (\<exists>es. device_log t = device_log s @ es \<and> list_all (within_device n) es \<and>
       (\<not> writable s \<longrightarrow> list_all (\<lambda>e. \<not> writes e) es) \<and> list_all succeeded (butlast es) \<and>
       (es \<noteq> [] \<and> \<not> succeeded (last es) \<longrightarrow> retired t))"

lemma list_all_butlast: "list_all P xs \<Longrightarrow> list_all P (butlast xs)"
  by (auto simp: list_all_iff dest: in_set_butlastD)

lemma confined_quiet: "confined n s t \<Longrightarrow> quiet n s t"
proof -
  assume c: "confined n s t"
  then obtain es where es: "device_log t = device_log s @ es" "list_all (within_device n) es"
    "\<not> writable s \<longrightarrow> list_all (\<lambda>e. \<not> writes e) es"
    "if retired t \<and> \<not> retired s then es \<noteq> [] \<and> list_all succeeded (butlast es) \<and> \<not> succeeded (last es) else list_all succeeded es"
    unfolding confined_def by blast
  have last: "list_all succeeded es \<Longrightarrow> es \<noteq> [] \<Longrightarrow> succeeded (last es)" by (simp add: list_all_iff)
  have "list_all succeeded (butlast es) \<and> (es \<noteq> [] \<and> \<not> succeeded (last es) \<longrightarrow> retired t)"
    using es(4) last by (cases "retired t \<and> \<not> retired s") (auto intro: list_all_butlast)
  then show ?thesis using c es unfolding quiet_def confined_def by blast
qed

lemma quiet_refl: "quiet n s s"
  by (auto simp: quiet_def)

lemma quiet_retire: "quiet n g (g\<lparr>retired := True\<rparr>)"
  by (auto simp: quiet_def)

lemma quiet_trans: "quiet n s t \<Longrightarrow> quiet n t u \<Longrightarrow> quiet n s u"
proof -
  assume st: "quiet n s t" and tu: "quiet n t u"
  show "quiet n s u"
  proof (cases "retired t")
    case True
    then show ?thesis using st tu by (simp add: quiet_def)
  next
    case False
    obtain xs where xs: "device_log t = device_log s @ xs" "list_all (within_device n) xs"
      "\<not> writable s \<longrightarrow> list_all (\<lambda>e. \<not> writes e) xs" "list_all succeeded (butlast xs)" "xs \<noteq> [] \<Longrightarrow> succeeded (last xs)"
      using st False unfolding quiet_def by blast
    have all: "list_all succeeded xs"
      using xs(4,5) by (cases xs rule: rev_cases) auto
    obtain ys where ys: "device_log u = device_log t @ ys" "list_all (within_device n) ys"
      "\<not> writable t \<longrightarrow> list_all (\<lambda>e. \<not> writes e) ys" "list_all succeeded (butlast ys)"
      "ys \<noteq> [] \<and> \<not> succeeded (last ys) \<longrightarrow> retired u"
      using tu unfolding quiet_def by blast
    have s: "\<not> retired s" "writable t = writable s" "writable u = writable t" using st tu False by (auto simp: quiet_def)
    show ?thesis unfolding quiet_def
    proof (intro conjI exI [of _ "xs @ ys"])
      show "list_all succeeded (butlast (xs @ ys))" using all ys(4) by (auto simp: butlast_append intro: list_all_butlast)
      show "xs @ ys \<noteq> [] \<and> \<not> succeeded (last (xs @ ys)) \<longrightarrow> retired u"
        using xs(5) ys(5) by (cases "ys = []") auto
    qed (use xs ys s in auto)
  qed
qed

definition stays :: "u64 \<Rightarrow> ('d \<times> event list, 'f, 'g) session \<Rightarrow> ('d \<times> event list, 'f, 'g) session \<Rightarrow> bool" where
  "stays n s t \<longleftrightarrow> quiet n (guard s) (guard t)"

lemma stays_order [simp, intro, within_intros]: "reflp (stays n)" "transp (stays n)"
  by (auto intro!: reflpI transpI simp: stays_def intro: quiet_refl quiet_trans)

text \<open>Engines over a device whose accesses are logged and whose size does not change.\<close>

definition logging :: "('d \<times> event list, 'f, 'h, 'g) engines \<Rightarrow> u64 \<Rightarrow> bool" where
  "logging E n \<longleftrightarrow> (\<exists>D. broker E = logged D \<and> (\<forall>d. size_of D d = n))"

section \<open>Programs of the engines\<close>

lemma run_quiet:
  assumes "\<And>q g. confined n g (snd (serve D q g))"
  shows "quiet n g (snd (run (serve D) p g))"
  by (rule confined_quiet, rule run_keeps [OF confined_refl confined_trans]) (rule assms)

lemma ext_program_quiet: "logging E n \<Longrightarrow> quiet n g (snd (run (serve (guarded_device (broker E))) p g))"
  unfolding logging_def by (auto intro!: run_quiet serve_confined)

lemma fat_program_quiet:
  assumes "logging E n"
  shows "quiet n (fst x) (fst (snd (run (io_serve uw text (broker E)) p x)))"
proof -
  obtain D where D: "broker E = logged D" "\<And>d. size_of D d = n" using assms by (auto simp: logging_def)
  show ?thesis unfolding D(1)
  proof (rule confined_quiet, rule run_keeps [where R = "\<lambda>x y. confined n (fst x) (fst y)"])
    show "reflp (\<lambda>x y. confined n (fst x) (fst y))" using confined_refl by (auto intro!: reflpI dest: reflpD)
    show "transp (\<lambda>x y. confined n (fst x) (fst y))" using transpD [OF confined_trans] by (intro transpI) blast
  qed (rule io_serve_confined [OF D(2)])
qed

lemma fat_run_stays [within_intros]: "logging E n \<Longrightarrow> within (stays n) (fat_run E p)"
proof (rule withinI)
  fix s r t assume "logging E n" "fat_run E p s = (r, t)"
  then show "stays n s t"
    using fat_program_quiet [of E n "(guard s, case mounted s of Some (Fat f position) \<Rightarrow> position | _ \<Rightarrow> 0)" "usize_bits E" "ext_text E"
        "case mounted s of Some (Fat f position) \<Rightarrow> p f"]
    by (fastforce simp: fat_run_def stays_def quiet_refl split: option.splits mounted.splits prod.splits)
qed

lemma from_sum_within [within_intros]: "reflp R \<Longrightarrow> within R (from_sum r)"
  by (cases r) (auto simp: from_sum_def intro: within_intros)

lemma ext_call_stays [within_intros]: "logging E n \<Longrightarrow> within (stays n) (ext_call E p)"
proof (rule withinI)
  fix s r t assume E: "logging E n" and run: "ext_call E p s = (r, t)"
  show "stays n s t"
  proof (cases "\<exists>x. mounted s = Some (Ext4 x)")
    case True
    then obtain x where x: "mounted s = Some (Ext4 x)" by blast
    obtain q x' g where q: "run (serve (guarded_device (broker E))) (p x) (guard s) = ((q, x'), g)" by (metis prod.exhaust)
    from ext_program_quiet [OF E, of "guard s" "p x"] q have "quiet n (guard s) g" by simp
    moreover have "t = \<lparr>mounted = Some (Ext4 x'), guard = g\<rparr>"
      using run q x by (cases q) (simp_all add: ext_call_def from_sum_def act_iffs)
    ultimately show ?thesis by (simp add: stays_def)
  next
    case False
    then have "t = s" using run by (auto simp: ext_call_def split: option.split_asm mounted.split_asm)
    then show ?thesis by (simp add: stays_def quiet_refl)
  qed
qed

lemma ext_state_within [within_intros]: "reflp R \<Longrightarrow> within R ext_state"
  by (auto simp: within_def ext_state_def reflpD split: option.split mounted.split)

section \<open>The combinators of the session\<close>

lemma within_case_prod [within_intros]: "(\<And>a b. within R (f a b)) \<Longrightarrow> within R (case x of (a, b) \<Rightarrow> f a b)"
  by (cases x) simp

lemma within_let [within_intros]: "within R (f x) \<Longrightarrow> within R (Let x f)"
  by simp

lemma within_require_state [within_intros]: "reflp R \<Longrightarrow> within R (\<lambda>s. require (b s) e s)"
  by (auto simp: within_def require_def ret_def fail_def dest: reflpD)

lemma fat_call_stays [within_intros]: "logging E n \<Longrightarrow> within (stays n) (fat_call E p)"
  unfolding fat_call_def by (intro within_intros stays_order)

lemma as_text_stays [within_intros]: "within (stays n) m \<Longrightarrow> within (stays n) (as_text E m)"
  unfolding as_text_def by (intro within_intros stays_order)

lemma drop_handle_stays: "logging E n \<Longrightarrow> stays n s (drop_handle E h s)"
  using fat_run_stays [of E n "fat_drop (fat E) h"] by (simp add: within_def drop_handle_def)

lemma scoped_stays [within_intros]:
  assumes "logging E n" "within (stays n) m"
  shows "within (stays n) (scoped E h m)"
proof (rule withinI)
  fix s r t assume run: "scoped E h m s = (r, t)"
  obtain q u where q: "m s = (q, u)" by fastforce
  have "stays n s u" using withinD [OF assms(2) q] .
  moreover have "stays n u t" using drop_handle_stays [OF assms(1), of u h] run q by (simp add: scoped_def)
  ultimately show "stays n s t" using transpD [OF stays_order(2)] by metis
qed

lemma by_engine_within [within_intros]:
  "reflp R \<Longrightarrow> within R m \<Longrightarrow> within R k \<Longrightarrow> within R (by_engine m k)"
  by (auto simp: within_def by_engine_def reflpD split: option.split mounted.split)

lemma check_mounted_within [within_intros]: "reflp R \<Longrightarrow> within R check_mounted"
  by (auto simp: within_def check_mounted_def require_def ret_def fail_def dest: reflpD)

lemma check_writable_stays [within_intros]: "within (stays n) check_writable"
  unfolding check_writable_def by (intro within_intros stays_order)

lemma match_mounted_stays [within_intros]:
  "within (stays n) m \<Longrightarrow> within (stays n) k \<Longrightarrow> within (stays n) (match_mounted m k)"
  unfolding match_mounted_def by (intro within_intros stays_order)

lemma retire_stays: "stays n s (retire s)"
  by (simp add: stays_def retire_def quiet_retire)

lemma mutation_stays [within_intros]:
  assumes "within (stays n) m"
  shows "within (stays n) (mutation m)"
proof (rule withinI)
  fix s r t assume run: "mutation m s = (r, t)"
  obtain q u where q: "m s = (q, u)" by fastforce
  have "stays n s u" using withinD [OF assms q] .
  moreover have "t = u \<or> t = retire u" using run q by (cases q) (auto simp: mutation_def)
  ultimately show "stays n s t" using retire_stays transpD [OF stays_order(2)] by metis
qed

lemma check_path_stays [within_intros]: "within (stays n) (check_path v)"
  unfolding check_path_def by (intro within_intros stays_order)

lemma relative_within [within_intros]: "reflp R \<Longrightarrow> within R (relative v)"
  unfolding relative_def by (rule within_prim)

lemma device_flush_stays [within_intros]:
  assumes "logging E n"
  shows "within (stays n) (device_flush E)"
proof (rule withinI)
  fix s r t assume run: "device_flush E s = (r, t)"
  obtain D where D: "broker E = logged D" "\<And>d. size_of D d = n" using assms by (auto simp: logging_def)
  have "quiet n (guard s) (snd (guarded_flush (broker E) (guard s)))"
    unfolding D(1) by (rule confined_quiet, rule guarded_confined(3) [OF D(2)])
  then show "stays n s t" using run by (auto simp: device_flush_def stays_def split: prod.split_asm sum.split_asm)
qed

end
