(* ===== verification/Fs_Steps.thy ===== *)
theory Fs_Steps
  imports Fs_Confinement
begin

text \<open>
  The operations of the filesystem session as one step relation, and what any sequence of them
  keeps: the device stays confined, and a session that is closed or retired stays so.
\<close>

section \<open>Every operation stays confined\<close>

lemma ext_inode_stays [within_intros]: "logging E n \<Longrightarrow> within (stays n) (ext_inode E v)"
  unfolding ext_inode_def by (intro within_intros)

lemma inherit_label_stays [within_intros]: "logging E n \<Longrightarrow> within (stays n) (inherit_label E v)"
  unfolding inherit_label_def by (intro within_intros)

lemma stat_scan_stays [within_intros]: "logging E n \<Longrightarrow> within (stays n) (stat_scan E name it k)"
  by (induction k) (auto intro!: within_intros split: option.split)

lemma fat_stat_stays [within_intros]: "logging E n \<Longrightarrow> within (stays n) (fat_stat E v)"
  unfolding fat_stat_def fat_root_dir_def fat_dir_iter_def by (intro within_intros)

lemma ext_stat_stays [within_intros]: "logging E n \<Longrightarrow> within (stays n) (ext_stat E v)"
  unfolding ext_stat_def by (intro within_intros)

lemma fs_stat_stays [within_intros]: "logging E n \<Longrightarrow> within (stays n) (fs_stat E v)"
  unfolding fs_stat_def by (intro within_intros)

lemma expect_absent_stays [within_intros]: "logging E n \<Longrightarrow> within (stays n) (expect_absent E v)"
  unfolding expect_absent_def by (intro within_intros)

lemma read_loop_stays [within_intros]:
  assumes "logging E n"
  shows "within (stays n) (read_loop E file buf count)"
proof (rule withinI)
  fix s r t
  show "read_loop E file buf count s = (r, t) \<Longrightarrow> stays n s t"
    using assms
  proof (induction E "file" buf count s rule: read_loop.induct)
    case (1 E "file" buf count s)
    have refl: "stays n u u" for u using stays_order(1) by (rule reflpD)
    obtain q u where q: "fat_call E (fat_read (fat E) file (length buf - count)) s = (q, u)" by fastforce
    have su: "stays n s u" using withinD [OF fat_call_stays [OF "1.prems"(2)] q] .
    show ?case
    proof (cases "count < length buf \<and> (\<exists>k data. q = Ok (k, data) \<and> k \<noteq> 0)")
      case True
      then obtain k data where k: "q = Ok (k, data)" "k \<noteq> 0" "count < length buf" by blast
      have "stays n u t"
        by (rule "1.IH" [OF k(3) q [symmetric] k(1) _ k(2)])
          (use "1.prems" q k in \<open>simp_all add: read_loop.simps [of E "file" buf count s]\<close>)
      with su show ?thesis using transpD [OF stays_order(2)] by metis
    next
      case False
      then have "t = u \<or> t = s" using "1.prems"(1) q
        by (auto simp: read_loop.simps [of E "file" buf count s] split: if_split_asm outcome.split_asm)
      then show ?thesis using su refl by metis
    qed
  qed
qed

lemma fs_read_stays [within_intros]: "logging E n \<Longrightarrow> within (stays n) (fs_read E v offset len)"
  unfolding fs_read_def fat_read_file_def ext_read_file_def by (intro within_intros)

lemma fat_made_stays [within_intros]: "logging E n \<Longrightarrow> within (stays n) (fat_made E p)"
  unfolding fat_made_def by (intro within_intros)

lemma mutations_stay:
  assumes "logging E n"
  shows "within (stays n) (fs_create_file E v)" "within (stays n) (fs_write E v offset bytes)"
    "within (stays n) (fs_truncate E v len)" "within (stays n) (fs_mkdir E v)" "within (stays n) (fs_remove E v)"
    "within (stays n) (fs_rename E v w)"
proof -
  note intros = within_intros assms
  show "within (stays n) (fs_create_file E v)" unfolding fs_create_file_def by (intro intros)
  show "within (stays n) (fs_write E v offset bytes)" unfolding fs_write_def fat_write_def ext_write_def by (intro intros)
  show "within (stays n) (fs_truncate E v len)" unfolding fs_truncate_def fat_shrink_def ext_shrink_def by (intro intros)
  show "within (stays n) (fs_mkdir E v)" unfolding fs_mkdir_def by (intro intros)
  show "within (stays n) (fs_remove E v)" unfolding fs_remove_def by (intro intros)
  show "within (stays n) (fs_rename E v w)" unfolding fs_rename_def by (intro intros)
qed

lemma fat_publish_stays [within_intros]: "logging E n \<Longrightarrow> within (stays n) (fat_publish E)"
  using fat_call_stays [of E n "fat_flush (fat E)"] device_flush_stays [of E n]
  by (simp add: within_def fat_publish_def)

lemma publishing_stays:
  assumes "logging E n"
  shows "within (stays n) (fs_flush E)" "within (stays n) (fs_fresh_read E)"
  unfolding fs_flush_def fs_fresh_read_def by ((intro within_intros assms)[1])+

lemma drop_mounted_stays: "logging E n \<Longrightarrow> stays n s (drop_mounted E s)"
  using fat_program_quiet [of E n "(guard s, _)"] ext_program_quiet [of E n "guard s"]
  by (auto simp: drop_mounted_def stays_def quiet_refl split: option.split mounted.split)

lemma fs_abort_stays [within_intros]: "logging E n \<Longrightarrow> within (stays n) (fs_abort E)"
  unfolding within_def fs_abort_def modify_def
  using drop_mounted_stays retire_stays transpD [OF stays_order(2)] by (metis snd_conv)

lemma unmount_stays [within_intros]:
  assumes "logging E n"
  shows "within (stays n) (unmount E)"
proof (rule withinI)
  fix s r t assume run: "unmount E s = (r, t)"
  show "stays n s t"
  proof (cases "mounted s")
    case None
    then show ?thesis using run by (simp add: unmount_def stays_def quiet_refl)
  next
    case (Some m)
    then show ?thesis
    proof (cases m)
      case (Fat f position)
      then show ?thesis using run Some fat_program_quiet [OF assms, of "(guard s, position)" "usize_bits E" "ext_text E" "fat_unmount (fat E) f"]
        by (auto simp: unmount_def stays_def from_sum_def act_iffs split: prod.split_asm sum.split_asm)
    next
      case (Ext4 x)
      then show ?thesis using run Some ext_program_quiet [OF assms, of "guard s" "x_finish (mounting E) x"]
        by (auto simp: unmount_def ext4_finish_def as_outcome_def stays_def split: prod.split_asm sum.split_asm outcome.split_asm)
    qed
  qed
qed

lemma fs_finish_stays: "logging E n \<Longrightarrow> within (stays n) (fs_finish E)"
proof -
  assume E: "logging E n"
  have "within (stays n) (\<lambda>s. if \<not> writable (guard s) then fs_abort E s
      else and_then (mutation (unmount E)) (\<lambda>_. device_flush E) s)"
  proof -
    have "within (stays n) (and_then (mutation (unmount E)) (\<lambda>_. device_flush E))" by (intro within_intros E)
    then show ?thesis using fs_abort_stays [OF E] by (simp add: within_def)
  qed
  then show ?thesis unfolding fs_finish_def by (intro within_intros)
qed

lemma fs_inspect_stays: "logging E n \<Longrightarrow> within (stays n) (fs_inspect E)"
proof -
  assume E: "logging E n"
  have ok: "within (stays n) (\<lambda>s. (Ok (f s), s))" for f :: "('a \<times> event list, 'b, 'd) session \<Rightarrow> json"
    by (simp add: within_def stays_def quiet_refl)
  show ?thesis unfolding fs_inspect_def fat_inspect_def ext_inspect_def by (intro within_intros E ok)
qed

section \<open>\<open>list\<close>\<close>

lemma list_scan_stays:
  assumes "logging E n" "list_scan E it entries s = Some (r, t)"
  shows "stays n s t"
proof -
  let ?P = "\<lambda>E it entries s x. logging E n \<longrightarrow> stays n s (snd x)"
  have "?P E it entries s (r, t)"
  proof (rule list_scan.raw_induct [where P = ?P, OF _ assms(2)])
    fix f E it entries s x
    assume IH: "\<And>E it entries s x. f E it entries s = Some x \<Longrightarrow> ?P E it entries s x"
      and eq: "(case fat_run E (fat_next (fat E) it) s of
        (Ok None, t) \<Rightarrow> Some (Ok entries, t)
      | (Ok (Some (Inl e)), t) \<Rightarrow> Some (Err e, t)
      | (Ok (Some (Inr item)), t) \<Rightarrow>
          if item_name item = dot \<or> item_name item = dot_dot then f E it entries t
          else if max_entries \<le> length entries then Some (Err ''directory entry limit exceeded'', t)
          else f E it (entries @ [fat_entry item]) t
      | (Err e, t) \<Rightarrow> Some (Err e, t)
      | (Dropped, t) \<Rightarrow> Some (Dropped, t)
      | (Panicked, t) \<Rightarrow> Some (Panicked, t)) = Some x"
    show "?P E it entries s x"
    proof
      assume E: "logging E n"
      obtain q u where q: "fat_run E (fat_next (fat E) it) s = (q, u)" by fastforce
      have su: "stays n s u" using withinD [OF fat_run_stays [OF E] q] .
      have "snd x = u \<or> stays n u (snd x)"
        using eq q IH E
        by (cases q) (auto split: option.split_asm sum.split_asm if_split_asm)
      then show "stays n s (snd x)" using su transpD [OF stays_order(2)] by metis
    qed
  qed
  then show ?thesis using assms(1) by simp
qed

lemma list_dirents_stays: "logging E n \<Longrightarrow> within (stays n) (list_dirents E ds entries)"
proof (induction ds arbitrary: entries)
  case (Cons d ds)
  show ?case unfolding list_dirents.simps decode_name_def by (intro within_intros Cons)
qed (simp add: within_intros)

lemma list_blocks_stays: "logging E n \<Longrightarrow> within (stays n) (list_blocks E ino node ls entries)"
proof (induction ls arbitrary: entries)
  case (Cons l ls)
  show ?case unfolding list_blocks.simps by (intro within_intros list_dirents_stays Cons)
qed (simp add: within_intros)

lemma fs_list_stays:
  assumes "logging E n" "fs_list E v s = Some (r, t)"
  shows "stays n s t"
proof -
  have refl: "stays n u u" for u using stays_order(1) by (rule reflpD)
  have ext: "within (stays n) (ext_list E v)"
    unfolding ext_list_def by (intro within_intros list_blocks_stays assms(1))
  have opens: "within (stays n) (and_then (if v = [slash] then fat_root_dir E
          else and_then (relative v) (\<lambda>p. fat_call E (fat_open_dir (fat E) p))) (\<lambda>dir.
        and_then (fat_dir_iter E dir) (\<lambda>it. ret (dir, it))))" (is "within _ ?opening")
    unfolding fat_root_dir_def fat_dir_iter_def by (intro within_intros assms(1))
  have fat: "stays n u t" if run: "fat_list E v u = Some (r, t)" for u
  proof -
    obtain q w where q: "?opening u = (q, w)" by fastforce
    have uw: "stays n u w" using withinD [OF opens q] .
    show ?thesis
    proof (cases q)
      case (Ok x)
      then obtain dir it where x: "q = Ok (dir, it)" by (cases x) auto
      then obtain r' y where y: "list_scan E it [] w = Some (r', y)" "t = drop_handle E dir (drop_handle E it y)"
        using run q by (auto simp: fat_list_def)
      have "stays n w y" by (rule list_scan_stays [OF assms(1) y(1)])
      moreover have "stays n y (drop_handle E it y)" "stays n (drop_handle E it y) t"
        using drop_handle_stays [OF assms(1)] y(2) by auto
      ultimately show ?thesis using uw transpD [OF stays_order(2)] by metis
    qed (use run q uw in \<open>auto simp: fat_list_def\<close>)
  qed
  obtain q u where q: "and_then (check_path v) (\<lambda>_. check_mounted) s = (q, u)" by fastforce
  have "within (stays n) (and_then (check_path v) (\<lambda>_. check_mounted))" by (intro within_intros)
  then have su: "stays n s u" using q by (rule withinD)
  have "t = u \<or> stays n u t"
    using assms(2) q fat withinD [OF ext] by (cases q) (auto simp: fs_list_def split: option.split_asm mounted.split_asm)
  then show ?thesis using su transpD [OF stays_order(2)] by metis
qed

end
