(* ===== verification/Fs_Samples.thy ===== *)
theory Fs_Samples
  imports Fs_Steps
begin

text \<open>
  Small engines on which the properties of the filesystem session are evaluated: a FAT engine with
  one file of four bytes in its root, and an ext4 engine with one file of eight.
\<close>

definition ram_device :: "u64 \<Rightarrow> unit block_device" where
  "ram_device n = \<lparr>size_of = (\<lambda>_. n), is_writable = (\<lambda>_. True), read_at = (\<lambda>_ len d. (Inr (replicate len 0), d)),
     write_at = (\<lambda>_ _ d. (Inr (), d)), flush_device = (\<lambda>d. (Inr (), d))\<rparr>"

text \<open>A write passed on, and its error.\<close>

definition put :: "u8 list \<Rightarrow> 'f \<Rightarrow> ((string + unit) \<times> 'f) io_prog" where
  "put bytes f = Call (Io_Write bytes) (\<lambda>r. Done (case r of Inl e \<Rightarrow> Inl e | Inr _ \<Rightarrow> Inr (), f))"

text \<open>Its state is the position of the one iterator or file; its destructor writes.\<close>

definition sample_fat :: "(nat, unit) fat_engine" where
  "sample_fat = \<lparr>fat_new = Call (Io_Read 512) (\<lambda>r. Done (case r of Inl e \<Rightarrow> Inl e | Inr _ \<Rightarrow> Inr 0)),
     fat_root = (\<lambda>_. ()), fat_open_dir = (\<lambda>_ f. Done (Inl ''no such directory'', f)), fat_iter = (\<lambda>_ f. ((), 0)),
     fat_next = (\<lambda>_ f. Done (if f = 0 then (Some (Inr \<lparr>item_name = [65], item_short_name = [65], item_is_dir = False, item_len = 4\<rparr>), 1)
       else (None, f))),
     fat_open_file = (\<lambda>_ f. Done (Inr (), f)), fat_create_file = (\<lambda>_ f. Done (Inr (), f)), fat_create_dir = (\<lambda>_ f. Done (Inr (), f)),
     fat_remove = (\<lambda>_ f. Done (Inr (), f)), fat_rename = (\<lambda>_ _ f. Done (Inr (), f)), fat_seek = (\<lambda>_ n f. Done (Inr n, 0)),
     fat_read = (\<lambda>_ n f. Done (if f = 0 then (Inr (2, [72, 105]), 2) else (Inr (0, []), f))),
     fat_write_all = (\<lambda>_ bytes. put bytes), fat_flush_file = (\<lambda>_. put [8]), fat_truncate = (\<lambda>_. put [9]),
     fat_drop = (\<lambda>_ f. Done ((), f)), fat_flush = put [7],
     fat_stats = (\<lambda>f. Done (Inr \<lparr>cluster_size = 512, total_clusters = 8, free_clusters = 4\<rparr>, f)), fat_dirty = (\<lambda>f. Done (Inr True, f)),
     fat_unmount = (\<lambda>f. Call (Io_Write [6]) (\<lambda>r. Done (case r of Inl e \<Rightarrow> Inl e | Inr _ \<Rightarrow> Inr ()))),
     fat_drop_fs = (\<lambda>_. Call (Io_Write [5]) (\<lambda>_. Done ()))\<rparr>"

definition sample_inode :: inode where
  "sample_inode = \<lparr>is_symlink = False, is_dir = False, is_file = True, has_inline_data = False, inode_size = 8,
     inode_generation = 1, links_count = 1\<rparr>"

definition sample_ext4 :: "unit ext4_engine" where
  "sample_ext4 = \<lparr>x_lookup = (\<lambda>v g. Done (if v = [47, 65] then Inr 12 else Inl (OtherExt 0), g)),
     x_read_inode = (\<lambda>_ g. Done (Inr (sample_inode, []), g)), x_read_super = (\<lambda>g. Done (Inr clean_super, g)),
     x_map_logical = (\<lambda>_ _ g. Done (Inr None, g)), x_read_block = (\<lambda>_ g. Done (Inr [], g)),
     x_parse_block = (\<lambda>_ _ _ _ _. Inr []), x_read_file = (\<lambda>_ _ _ _ _ g. Done (Inr (8, replicate 8 65), g)),
     x_get_xattr = (\<lambda>_ _ _ g. Done (Inr None, g)), x_set_xattr = (\<lambda>_ _ _ g. Done (Inr (), g)),
     x_create = (\<lambda>_ _ g. Done (Inr 13, g)), x_pwrite = (\<lambda>_ _ _ g. Done (Inl OutOfBounds, g)),
     x_truncate = (\<lambda>_ _ g. Done (Inr (), g)), x_mkdir = (\<lambda>_ _ g. Done (Inr 13, g)), x_rmdir = (\<lambda>_ g. Done (Inr (), g)),
     x_unlink = (\<lambda>_ g. Done (Inr (), g)), x_rename = (\<lambda>_ _ _ g. Done (Inr (), g)),
     x_flush = (\<lambda>g. Done (Inr (), g)), x_fresh_read = (\<lambda>g. Done (Inr (), g))\<rparr>"

definition sample_engines :: "'d block_device \<Rightarrow> ('d, nat, unit, unit) engines" where
  "sample_engines D = \<lparr>usize_bits = 32, ext_text = (\<lambda>e. if e = OtherExt 0 then ''not found'' else ''ext4 error''), to_uppercase = id,
     utf8_text = (\<lambda>_. ''invalid utf-8 sequence''), broker = D, fat = sample_fat, ext4 = sample_ext4, mounting = eager_ext4 True\<rparr>"

abbreviation logged_ram :: "(unit \<times> event list) block_device" where
  "logged_ram \<equiv> logged (ram_device 1024)"

definition fat_session :: "bool \<Rightarrow> event list \<Rightarrow> nat \<Rightarrow> (unit \<times> event list, nat, unit) session" where
  "fat_session rw log f = \<lparr>mounted = Some (Fat f 512), guard = \<lparr>inner = ((), log), writable = rw, retired = False\<rparr>\<rparr>"

definition ext4_session :: "bool \<Rightarrow> (unit \<times> event list, nat, unit) session" where
  "ext4_session rw = \<lparr>mounted = Some (Ext4 ()), guard = \<lparr>inner = ((), []), writable = rw, retired = False\<rparr>\<rparr>"

lemma ram_size: "size_of (ram_device n) d = n"
  by (simp add: ram_device_def)

lemmas device_eval = guarded_read_def guarded_write_def guarded_flush_def guarded_check_def complete_def logged_def ram_device_def
  io_serve_def io_read_def io_write_def io_flush_def io_seek_def saturating_sub_def serve_def guarded_device_def Let_def

lemmas session_eval = fs_usable_def check_mounted_def check_writable_def match_mounted_def by_engine_def check_path_def
  relative_def fat_run_def fat_call_def ext_call_def from_sum_def scoped_def drop_handle_def as_text_def map_err_def
  match_result_def and_then_def act_simps

lemma sample_open: "fs_open (sample_engines logged_ram) ''fat'' rw ((), []) =
    (Ok (fat_session rw [Did_Read 0 512 True] 0), ((), [Did_Read 0 512 True]))"
  by (simp add: fs_open_def sample_engines_def sample_fat_def fat_session_def device_eval)

lemma path_A: "path [47, 65] = Inr [47, 65]"
  by (simp add: path_def slash_def str_len_def utf8_width_def bad_component_def is_control_def reserved_def)

lemma sample_fields [simp]:
  "fat (sample_engines D) = sample_fat" "ext4 (sample_engines D) = sample_ext4" "broker (sample_engines D) = D"
  "to_uppercase (sample_engines D) = id" "usize_bits (sample_engines D) = 32" "mounting (sample_engines D) = eager_ext4 True"
  by (simp_all add: sample_engines_def)

lemma fat_session_fields [simp]:
  "mounted (fat_session rw log f) = Some (Fat f 512)"
  "guard (fat_session rw log f) = \<lparr>inner = ((), log), writable = rw, retired = False\<rparr>"
  "fs_usable (fat_session rw log f)"
  by (simp_all add: fat_session_def fs_usable_def)

text \<open>A call of the sample engine that does not reach the device.\<close>

lemma sample_run: "fat_run (sample_engines D) (\<lambda>f. Done (x f)) (fat_session rw log f) = (Ok (fst (x f)), fat_session rw log (snd (x f)))"
  by (simp add: fat_run_def case_prod_beta fat_session_def)

lemma sample_call: "fat_call (sample_engines D) (\<lambda>f. Done (x f)) (fat_session rw log f) =
    from_sum (fst (x f)) (fat_session rw log (snd (x f)))"
  by (simp add: fat_call_def sample_run and_then_def)

lemma sample_drop: "drop_handle (sample_engines D) h (fat_session rw log f) = fat_session rw log f"
  by (simp add: drop_handle_def sample_run sample_fat_def)

lemma sample_scan: "stat_scan (sample_engines D) [65] h max_entries (fat_session rw log 0) =
    (Ok \<lparr>entry_name = [65], entry_kind = ''file'', entry_size = 4, entry_inode = None, entry_generation = None\<rparr>, fat_session rw log 1)"
proof -
  have "stat_scan (sample_engines D) [65] h (Suc k) (fat_session rw log 0) =
      (Ok \<lparr>entry_name = [65], entry_kind = ''file'', entry_size = 4, entry_inode = None, entry_generation = None\<rparr>, fat_session rw log 1)" for k
    by (simp add: sample_fat_def sample_run and_then_def from_sum_def matches_def fat_entry_def act_simps)
  from this [of 4095] show ?thesis by (simp add: max_entries_def)
qed

lemma sample_stat: "fs_stat (sample_engines D) [47, 65] (fat_session rw log f) =
    (Ok \<lparr>entry_name = [65], entry_kind = ''file'', entry_size = 4, entry_inode = None, entry_generation = None\<rparr>, fat_session rw log 1)"
  by (simp add: fs_stat_def check_path_def path_A from_sum_def match_mounted_def check_mounted_def by_engine_def fat_stat_def
      slash_def fat_root_dir_def fat_dir_iter_def sample_run scoped_def sample_scan sample_drop and_then_def act_simps sample_fat_def)

end
