(* ===== verification/Fs_Properties.thy ===== *)
theory Fs_Properties
  imports Fs_Samples
begin

text \<open>
  The properties of the filesystem session over any sequence of operations: what reaches the
  device, and when a session ends.
\<close>

section \<open>Opening and stepping\<close>

lemma read_only_confined:
  assumes "\<And>d. size_of D d = n"
  shows "confined n g (snd (serve (read_only X (guarded_device (logged D))) q g))"
proof (cases q)
  case (Read_At offset len)
  then show ?thesis using guarded_confined(1) [OF assms, of g offset len]
    by (auto simp: serve_def read_only_def guarded_device_def split: prod.split sum.split)
qed (use reflpD [OF confined_refl] in \<open>auto simp: serve_def read_only_def split: sum.split\<close>)

lemma quiet_order [simp, intro, within_intros]: "reflp (quiet n)" "transp (quiet n)"
  by (auto intro!: reflpI transpI intro: quiet_refl quiet_trans)

lemma within_as_outcome: "within R (\<lambda>d. as_outcome (run h p d)) \<longleftrightarrow> (\<forall>d. R d (snd (run h p d)))"
  by (simp add: within_def del: split_paired_All)

lemma inspect_quiet:
  assumes "\<And>d. size_of D d = n"
  shows "within (quiet n) (inspect X (guarded_device (logged D)))"
  unfolding inspect_def
proof (intro within_and_then quiet_order)
  let ?h = "serve (read_only X (guarded_device (logged D)))"
  have run: "quiet n g (snd (run ?h p g))" for g and p :: "(_, _, 'c) prog"
    by (rule run_quiet) (rule read_only_confined [OF assms])
  show "within (quiet n) (\<lambda>d. as_outcome (run ?h (x_mount X) d))" unfolding within_as_outcome
    using run_quiet [OF read_only_confined [OF assms]] by blast
  fix fs
  show "within (quiet n) (\<lambda>d. case run ?h (x_journal X fs) d of ((journal, fs'), e) \<Rightarrow>
      (case journal of
         Inl x \<Rightarrow> Err x
       | Inr j \<Rightarrow> Ok \<lparr>needs_recovery = sb_incompat (x_super X fs') AND incompat_recover X \<noteq> 0,
           orphan_head = sb_last_orphan (x_super X fs'),
           inspected_start = map_option journal_start j, inspected_error = map_option journal_errno j,
           write_blocker = find_blocker X (x_super X fs') j\<rparr>,
       snd (run ?h (x_drop X fs') e)))"
    unfolding within_def case_prod_beta using quiet_trans [OF run_quiet [OF read_only_confined [OF assms]] run_quiet [OF read_only_confined [OF assms]]]
    by auto
qed

lemma mount_quiet:
  assumes "\<And>d. size_of D d = n"
  shows "within (quiet n) (mount X (guarded_device (logged D)))"
proof -
  let ?D = "guarded_device (logged D)"
  have plain: "within (quiet n) (\<lambda>d. as_outcome (run (serve ?D) p d))" for p :: "(_, _, _ + 'c) prog"
    unfolding within_as_outcome by (auto intro!: run_quiet serve_confined assms)
  have "within (quiet n) (and_then (inspect X ?D) (\<lambda>i. case write_blocker i of
      Some reason \<Rightarrow> fail (Corrupt reason)
    | None \<Rightarrow> (\<lambda>e. if is_writable ?D e then as_outcome (run (serve ?D) (x_mount_recovering X) e)
        else as_outcome (run (serve ?D) (x_mount X) e))))"
  proof (intro within_intros inspect_quiet assms)
    show "within (quiet n) (\<lambda>e. if is_writable ?D e then as_outcome (run (serve ?D) (x_mount_recovering X) e)
        else as_outcome (run (serve ?D) (x_mount X) e))"
      using plain [of "x_mount_recovering X"] plain [of "x_mount X"] by (simp add: within_def)
  qed
  then show ?thesis using plain [of "x_mount X"] by (simp add: within_def mount_def)
qed

lemma fs_open_quiet:
  assumes "logging E n" "fs_open E kind rw d = (Ok s, e)"
  shows "quiet n \<lparr>inner = d, writable = rw, retired = False\<rparr> (guard s) \<and> e = inner (guard s) \<and>
    (rw \<longrightarrow> is_writable (broker E) d) \<and> mounted s \<noteq> None"
proof -
  obtain D where D: "broker E = logged D" "\<And>d. size_of D d = n" using assms(1) by (auto simp: logging_def)
  let ?g = "\<lparr>inner = d, writable = rw, retired = False\<rparr>"
  have rw: "rw \<longrightarrow> is_writable (broker E) d" using assms(2) by (auto simp: fs_open_def split: if_split_asm)
  show ?thesis
  proof (cases "kind = ''fat''")
    case True
    then show ?thesis using assms(2) rw fat_program_quiet [OF assms(1), of "(?g, 0)" "usize_bits E" "ext_text E" "fat_new (fat E)"]
      by (auto simp: fs_open_def Let_def split: if_split_asm prod.split_asm sum.split_asm)
  next
    case False
    obtain q h where q: "mount (mounting E) (guarded_device (broker E)) ?g = (q, h)" by fastforce
    have "quiet n ?g h" using withinD [OF mount_quiet [OF D(2)]] q D(1) by metis
    then show ?thesis using assms(2) rw q False
      by (cases q) (auto simp: fs_open_def Let_def split: if_split_asm)
  qed
qed

text \<open>The operations, each with its result erased.\<close>

datatype fs_op =
    Inspect | Stat ustr | List ustr | Read ustr u64 nat | Create ustr | Write ustr u64 "u8 list" | Truncate ustr u64
  | Mkdir ustr | Remove ustr | Rename ustr ustr | Flush | Fresh_Read | Finish | Abort

definition erase :: "('e, 'a) outcome \<times> 's \<Rightarrow> ('e, unit) outcome \<times> 's" where
  "erase x = (case x of (r, t) \<Rightarrow> (map_outcome id (\<lambda>_. ()) r, t))"

definition erased :: "('s, 'e, 'a) act \<Rightarrow> 's \<Rightarrow> (('e, unit) outcome \<times> 's) option" where
  "erased m s = Some (erase (m s))"

fun fs_apply :: "('d, 'f, 'h, 'g) engines \<Rightarrow> fs_op \<Rightarrow> ('d, 'f, 'g) session \<Rightarrow> ((string, unit) outcome \<times> ('d, 'f, 'g) session) option" where
  "fs_apply E Inspect = erased (fs_inspect E)"
| "fs_apply E (Stat v) = erased (fs_stat E v)"
| "fs_apply E (List v) = (\<lambda>s. map_option erase (fs_list E v s))"
| "fs_apply E (Read v offset len) = erased (fs_read E v offset len)"
| "fs_apply E (Create v) = erased (fs_create_file E v)"
| "fs_apply E (Write v offset bytes) = erased (fs_write E v offset bytes)"
| "fs_apply E (Truncate v len) = erased (fs_truncate E v len)"
| "fs_apply E (Mkdir v) = erased (fs_mkdir E v)"
| "fs_apply E (Remove v) = erased (fs_remove E v)"
| "fs_apply E (Rename v w) = erased (fs_rename E v w)"
| "fs_apply E Flush = erased (fs_flush E)"
| "fs_apply E Fresh_Read = erased (fs_fresh_read E)"
| "fs_apply E Finish = erased (fs_finish E)"
| "fs_apply E Abort = erased (fs_abort E)"

inductive fs_steps :: "('d, 'f, 'h, 'g) engines \<Rightarrow> ('d, 'f, 'g) session \<Rightarrow> fs_op list \<Rightarrow> ('d, 'f, 'g) session \<Rightarrow> bool" for E where
  steps_nil: "fs_steps E s [] s"
| steps_cons: "fs_steps E s (x # xs) u" if "fs_apply E x s = Some (r, t)" "fs_steps E t xs u"

inductive_simps fs_steps_Nil: "fs_steps E s [] t"
inductive_simps fs_steps_Cons: "fs_steps E s (x # xs) u"

lemma erase_state: "erase (m s) = (r, t) \<longleftrightarrow> (\<exists>q. m s = (q, t) \<and> r = map_outcome id (\<lambda>_. ()) q)"
  by (cases "m s") (auto simp: erase_def)

lemma erased_stays: "within (stays n) m \<Longrightarrow> erased m s = Some (r, t) \<Longrightarrow> stays n s t"
  by (auto simp: erased_def erase_state dest: withinD)

lemma fs_apply_stays:
  assumes "logging E n" "fs_apply E x s = Some (r, t)"
  shows "stays n s t"
  using assms(2)
proof (cases x)
  case (List v)
  then obtain q where "fs_list E v s = Some (q, t)" using assms(2) by (auto simp: erase_def)
  then show ?thesis by (rule fs_list_stays [OF assms(1)])
qed (auto intro: erased_stays fs_stat_stays fs_read_stays mutations_stay publishing_stays fs_finish_stays fs_abort_stays
    fs_inspect_stays assms(1))

text \<open>
  The laws of a session, as an interface: what every operation keeps between the states before and
  after it, however it ends, is kept by every sequence of operations.
\<close>

locale session_law =
  fixes E :: "('d, 'f, 'h, 'g) engines"
    and law :: "('d, 'f, 'g) session \<Rightarrow> ('d, 'f, 'g) session \<Rightarrow> bool"
  assumes law_refl: "law s s"
    and law_trans: "law s t \<Longrightarrow> law t u \<Longrightarrow> law s u"
    and law_step: "fs_apply E x s = Some (r, t) \<Longrightarrow> law s t"
begin

lemma law_steps: "fs_steps E s xs t \<Longrightarrow> law s t"
  by (induction rule: fs_steps.induct) (auto intro: law_refl law_step law_trans)

end

text \<open>Confinement is such a law, of every session over a logged device.\<close>

lemma confinement_law: "logging E n \<Longrightarrow> session_law E (stays n)"
  by unfold_locales (auto intro: fs_apply_stays reflpD [OF stays_order(1)] transpD [OF stays_order(2)])

lemma fs_steps_stay: "fs_steps E s xs t \<Longrightarrow> logging E n \<Longrightarrow> stays n s t"
  by (rule session_law.law_steps [OF confinement_law])

lemma quiet_unfold:
  assumes "quiet n s t"
  shows "writable t = writable s \<and> (retired s \<longrightarrow> retired t \<and> inner t = inner s) \<and>
    (\<exists>es. device_log t = device_log s @ es \<and> (\<forall>e\<in>set es. within_device n e) \<and>
      (\<not> writable s \<longrightarrow> (\<forall>e\<in>set es. \<not> writes e)) \<and>
      (\<forall>i<length es. \<not> succeeded (es ! i) \<longrightarrow> Suc i = length es \<and> retired t))"
proof -
  obtain es where es: "device_log t = device_log s @ es" "list_all (within_device n) es"
    "\<not> writable s \<longrightarrow> list_all (\<lambda>e. \<not> writes e) es" "list_all succeeded (butlast es)"
    "es \<noteq> [] \<and> \<not> succeeded (last es) \<longrightarrow> retired t"
    using assms unfolding quiet_def by blast
  have "Suc i = length es \<and> retired t" if i: "i < length es" "\<not> succeeded (es ! i)" for i
  proof -
    have "Suc i = length es" by (rule last_failure [OF es(4) i])
    moreover from this have "last es = es ! i" by (metis diff_Suc_1 last_conv_nth list.size(3) nat.distinct(1))
    ultimately show ?thesis using i es(5) by auto
  qed
  then show ?thesis using assms es by (auto simp: quiet_def list_all_iff)
qed

section \<open>Confinement\<close>

text \<open>
  C5: A filesystem session confines its engines for its whole life. For every FAT and ext4 engine,
  from \<open>open\<close> through any sequence of operations, failed ones and \<open>abort\<close> included: every access to
  the device lies inside it; a session opened read-only never writes to it, whatever the engine
  does, its destructors included; after the first access that fails, no other follows, and the
  session is retired; and a writable session is opened only on a writable device.
\<close>

theorem fs_session_confined:
  assumes "broker E = logged D" "\<And>d. size_of D d = n"
    and "fs_open E kind rw (d, log) = (Ok s, x)" "fs_steps E s ops t"
  shows "(rw \<longrightarrow> is_writable D d) \<and> writable (guard t) = rw \<and>
    (\<exists>es. device_log (guard t) = log @ es \<and> (\<forall>e\<in>set es. within_device n e) \<and>
      (\<not> rw \<longrightarrow> (\<forall>e\<in>set es. \<not> writes e)) \<and>
      (\<forall>i<length es. \<not> succeeded (es ! i) \<longrightarrow> Suc i = length es \<and> retired (guard t)))"
proof -
  have E: "logging E n" using assms(1,2) by (auto simp: logging_def)
  note start = fs_open_quiet [OF E assms(3)]
  have "quiet n \<lparr>inner = (d, log), writable = rw, retired = False\<rparr> (guard t)"
    using start fs_steps_stay [OF assms(4) E] quiet_trans by (auto simp: stays_def)
  from quiet_unfold [OF this] start show ?thesis using assms(1) by (auto simp: logged_def)
qed

text \<open>
  A read-only FAT session whose engine writes when it is dropped: a write is refused, the flush
  goes to the device, and nothing else does.
\<close>

theorem fs_session_confined_witness:
  "\<exists>t. fs_steps (sample_engines logged_ram) (fat_session False [Did_Read 0 512 True] 0) [Write [47, 65] 0 [1], Flush, Abort] t \<and>
    device_log (guard t) = [Did_Read 0 512 True, Did_Flush True] \<and> writable (guard t) = False"
proof -
  let ?E = "sample_engines logged_ram"
  let ?s = "fat_session False [Did_Read 0 512 True] 0"
  let ?u = "fat_session False [Did_Read 0 512 True, Did_Flush True] 0"
  let ?t = "\<lparr>mounted = None, guard = \<lparr>inner = ((), [Did_Read 0 512 True, Did_Flush True]), writable = False, retired = True\<rparr>\<rparr>"
  have "fs_write ?E [47, 65] 0 [1] ?s = (Err ''filesystem was opened read-only'', ?s)"
    by (simp add: fs_write_def check_path_def path_A from_sum_def check_writable_def check_mounted_def and_then_def act_simps)
  moreover have "fs_flush ?E ?s = (Ok (), ?u)"
    by (simp add: fs_flush_def check_mounted_def by_engine_def fat_publish_def device_flush_def mutation_def and_then_def act_simps device_eval)
  moreover have "fs_abort ?E ?u = (Ok (), ?t)"
    by (simp add: fs_abort_def modify_def drop_mounted_def retire_def sample_fat_def device_eval)
  ultimately have steps: "fs_steps ?E ?s [Write [47, 65] 0 [1], Flush, Abort] ?t"
    by (simp add: fs_steps_Cons fs_steps_Nil erased_def erase_def)
  have "broker ?E = logged (ram_device 1024)" by simp
  from fs_session_confined [OF this ram_size sample_open steps] steps show ?thesis by auto
qed

end
