(* ===== verification/Fs_Lifecycle.thy ===== *)
theory Fs_Lifecycle
  imports Fs_Properties
begin

text \<open>
  How a filesystem session ends: \<open>abort\<close> and a read-only \<open>finish\<close> never touch the device again, a
  failed change retires the session, and a session once closed or retired refuses everything.
\<close>

section \<open>A retired device\<close>

lemma retired_guarded:
  assumes "retired g"
  shows "guarded_read D offset len g = (Inl (Io_Error ''filesystem device retired''), g)"
    "guarded_write D offset data g = (Inl (Io_Error ''filesystem device retired''), g)"
    "guarded_flush D g = (Inl (Io_Error ''filesystem device retired''), g)"
  using assms by (simp_all add: guarded_read_def guarded_write_def guarded_flush_def guarded_check_def)

lemma unless_order: "reflp (\<lambda>x y. P x \<longrightarrow> f y = f x \<and> P y)" "transp (\<lambda>x y. P x \<longrightarrow> f y = f x \<and> P y)"
  by (auto intro!: reflpI transpI)

lemma retired_ext_run: "retired g \<Longrightarrow> snd (run (serve (guarded_device D)) p g) = g"
  using run_keeps [OF unless_order [of retired id], where h = "serve (guarded_device D)" and p = p and s = g]
  by (auto simp: serve_def guarded_device_def retired_guarded split: block_call.split)

lemma retired_io_step: "retired (fst x) \<Longrightarrow> fst (snd (io_serve uw text D q x)) = fst x"
  by (cases x; cases q)
    (auto simp: io_serve_def io_read_def io_write_def io_flush_def io_seek_def Let_def retired_guarded split: sum.split prod.split)

lemma retired_fat_run: "retired g \<Longrightarrow> fst (snd (run (io_serve uw text D) p (g, position))) = g"
  using run_keeps [OF unless_order [of "\<lambda>x. retired (fst x)" fst], where h = "io_serve uw text D" and p = p and s = "(g, position)"]
  by (simp add: retired_io_step)

lemma drop_mounted_retired:
  assumes "retired (guard s)"
  shows "drop_mounted E s = \<lparr>mounted = None, guard = guard s\<rparr>"
proof (cases "mounted s")
  case (Some m)
  then show ?thesis using assms by (cases m) (simp_all add: drop_mounted_def retired_fat_run retired_ext_run)
next
  case None
  then show ?thesis by (cases s) (simp add: drop_mounted_def)
qed

lemma abort_run: "fs_abort E s = (Ok (), \<lparr>mounted = None, guard = (guard s)\<lparr>retired := True\<rparr>\<rparr>)"
proof -
  have "drop_mounted E (retire s) = \<lparr>mounted = None, guard = guard (retire s)\<rparr>"
    by (rule drop_mounted_retired) (simp add: retire_def)
  then show ?thesis by (simp add: fs_abort_def modify_def retire_def)
qed

text \<open>
  C14: \<open>abort\<close>, and with it dropping a session, ends the session without touching the device. The
  device is retired before the engine's destructor runs, so whatever the destructor tries,
  writing back cached state included, no access gets through: the device is as it was, whatever
  device and engines these are. It cannot fail.
\<close>

theorem abort_touches_nothing:
  "fs_abort E s = (Ok (), \<lparr>mounted = None, guard = (guard s)\<lparr>retired := True\<rparr>\<rparr>)"
  by (rule abort_run)

section \<open>A closed session\<close>

lemma check_mounted_run: "check_mounted s = (if fs_usable s then (Ok (), s) else (Err closed_text, s))"
  by (simp add: check_mounted_def require_def ret_def fail_def)

lemma check_path_run: "check_path v s = (case path v of Inl e \<Rightarrow> (Err e, s) | Inr _ \<Rightarrow> (Ok (), s))"
  by (auto simp: check_path_def from_sum_def act_simps split: sum.split)

text \<open>An action that a closed session refuses, unchanged.\<close>

definition refuses :: "('d, 'f, 'g) session \<Rightarrow> ('d, 'f, 'g, 'a) fs_act \<Rightarrow> bool" where
  "refuses s m \<longleftrightarrow> (\<exists>e. m s = (Err e, s))"

lemma refuses_first: "refuses s m \<Longrightarrow> refuses s (and_then m f)"
  by (auto simp: refuses_def and_then_run)

lemma refuses_later: "(\<exists>a. m s = (Ok a, s)) \<or> refuses s m \<Longrightarrow> (\<And>a. refuses s (f a)) \<Longrightarrow> refuses s (and_then m f)"
  by (auto simp: refuses_def and_then_run)

lemma path_or_refuses: "(\<exists>a. check_path v s = (Ok a, s)) \<or> refuses s (check_path v)"
  by (auto simp: check_path_run refuses_def split: sum.split)

lemma require_or_refuses: "(\<exists>a. require b e s = (Ok a, s)) \<or> refuses s (require b e)"
  by (auto simp: require_def ret_def fail_def refuses_def)

lemma closed_refuses:
  assumes "\<not> fs_usable s"
  shows "refuses s check_mounted" "refuses s check_writable" "refuses s (match_mounted m k)"
proof -
  show first: "refuses s check_mounted" using assms by (simp add: check_mounted_run refuses_def)
  show "refuses s check_writable" "refuses s (match_mounted m k)"
    unfolding check_writable_def match_mounted_def by (rule refuses_first [OF first])+
qed

lemmas refuses_intros = refuses_later [OF path_or_refuses] refuses_later [OF require_or_refuses]

lemma closed_operations:
  assumes "\<not> fs_usable s"
  shows "refuses s (fs_inspect E)" "refuses s (fs_stat E v)" "refuses s (fs_read E v offset len)"
    "refuses s (fs_create_file E v)" "refuses s (fs_write E v offset bytes)" "refuses s (fs_truncate E v k)"
    "refuses s (fs_mkdir E v)" "refuses s (fs_remove E v)" "refuses s (fs_rename E v w)"
    "refuses s (fs_flush E)" "refuses s (fs_fresh_read E)" "refuses s (fs_finish E)"
  unfolding fs_inspect_def fs_stat_def fs_read_def fs_create_file_def fs_write_def fs_truncate_def fs_mkdir_def
    fs_remove_def fs_rename_def fs_flush_def fs_fresh_read_def fs_finish_def
  by ((intro refuses_intros refuses_first closed_refuses assms)[1])+

lemma closed_list: "\<not> fs_usable s \<Longrightarrow> \<exists>e. fs_list E v s = Some (Err e, s)"
proof -
  assume s: "\<not> fs_usable s"
  have "refuses s (and_then (check_path v) (\<lambda>_. check_mounted))"
    by (intro refuses_intros closed_refuses s)
  then show ?thesis by (auto simp: refuses_def fs_list_def)
qed

lemma erased_refuses: "refuses s m \<Longrightarrow> \<exists>e. erased m s = Some (Err e, s)"
  by (auto simp: refuses_def erased_def erase_def)

lemma closed_apply:
  assumes "\<not> fs_usable s"
  shows "x \<noteq> Abort \<Longrightarrow> \<exists>e. fs_apply E x s = Some (Err e, s)"
proof (cases x)
  case (List v)
  then show ?thesis using closed_list [OF assms, of E v] by (auto simp: erase_def)
qed (auto intro!: erased_refuses closed_operations assms)

lemma closed_step:
  assumes "\<not> fs_usable s" "fs_apply E x s = Some (r, t)"
  shows "\<not> fs_usable t \<and> inner (guard t) = inner (guard s)"
proof (cases "x = Abort")
  case True
  then show ?thesis using assms(2) by (auto simp: erased_def erase_def abort_run fs_usable_def)
next
  case False
  then show ?thesis using closed_apply [OF assms(1) False, of E] assms by auto
qed

text \<open>Being dead, and the device of a dead session, are laws of every session.\<close>

interpretation closed: session_law E "\<lambda>s t. \<not> fs_usable s \<longrightarrow> \<not> fs_usable t \<and> inner (guard t) = inner (guard s)"
  for E :: "('d, 'f, 'h, 'g) engines"
  by unfold_locales (auto dest: closed_step)

lemma closed_steps: "fs_steps E s xs t \<Longrightarrow> \<not> fs_usable s \<Longrightarrow> \<not> fs_usable t \<and> inner (guard t) = inner (guard s)"
  by (drule closed.law_steps) simp

text \<open>
  C17: A closed or retired session is dead. Every operation but \<open>abort\<close> fails and leaves session and
  device exactly as they were, and after any sequence of operations, \<open>abort\<close> included, the
  session is still unusable and the device untouched, for every device and engine.
\<close>

theorem closed_filesystem_is_inert:
  assumes "\<not> fs_usable s"
  shows "(\<forall>x. x \<noteq> Abort \<longrightarrow> (\<exists>e. fs_apply E x s = Some (Err e, s))) \<and>
    (\<forall>xs t. fs_steps E s xs t \<longrightarrow> \<not> fs_usable t \<and> inner (guard t) = inner (guard s))"
  using closed_apply closed_steps assms by blast

theorem closed_filesystem_is_inert_witness:
  "\<exists>e. fs_apply (sample_engines logged_ram) (Write [47, 65] 0 [1]) (retire (fat_session True [] 0)) =
     Some (Err e, retire (fat_session True [] 0))"
proof -
  have "\<not> fs_usable (retire (fat_session True [] 0))" by (simp add: fs_usable_def retire_def)
  from closed_filesystem_is_inert [OF this, of "sample_engines logged_ram"] show ?thesis by blast
qed

section \<open>Failed changes\<close>

text \<open>All that has happened is lookups.\<close>

definition looked :: "('d, 'f, 'h, 'g) engines \<Rightarrow> ('d, 'f, 'g) session \<Rightarrow> ('d, 'f, 'g) session \<Rightarrow> bool" where
  "looked E s t \<longleftrightarrow> (\<exists>vs. fs_steps E s (map Stat vs) t)"

lemma fs_steps_append: "fs_steps E s xs t \<Longrightarrow> fs_steps E t ys u \<Longrightarrow> fs_steps E s (xs @ ys) u"
  by (induction rule: fs_steps.induct) (auto intro: fs_steps.intros)

lemma looked_order [simp, within_intros]: "reflp (looked E)" "transp (looked E)"
proof -
  show "reflp (looked E)" by (rule reflpI) (auto simp: looked_def intro!: exI [of _ "[]"] steps_nil)
  show "transp (looked E)"
  proof (rule transpI)
    fix s t u assume "looked E s t" "looked E t u"
    then obtain vs ws where "fs_steps E s (map Stat vs @ map Stat ws) u" unfolding looked_def using fs_steps_append by metis
    then show "looked E s u" unfolding looked_def by (metis map_append)
  qed
qed

lemma stat_looked [within_intros]: "within (looked E) (fs_stat E v)"
proof (rule withinI)
  fix s r t assume "fs_stat E v s = (r, t)"
  then have "fs_apply E (Stat v) s = Some (map_outcome id (\<lambda>_. ()) r, t)" by (simp add: erased_def erase_def)
  then have "fs_steps E s (map Stat [v]) t" by (auto intro: fs_steps.intros)
  then show "looked E s t" unfolding looked_def by blast
qed

lemma checks_looked [within_intros]: "within (looked E) check_writable" "within (looked E) (check_path v)"
  "within (looked E) (expect_absent E v)"
  unfolding check_writable_def check_path_def expect_absent_def by ((intro within_intros)[1])+

definition soft :: "('d, 'f, 'h, 'g) engines \<Rightarrow> ('d, 'f, 'g, 'a) fs_act \<Rightarrow> bool" where
  "soft E m \<longleftrightarrow> (\<forall>s e t. m s = (Err e, t) \<longrightarrow> \<not> fs_usable t \<or> looked E s t)"

lemma soft_look: "within (looked E) m \<Longrightarrow> (\<And>a. soft E (f a)) \<Longrightarrow> soft E (and_then m f)"
  unfolding soft_def
proof (intro allI impI)
  fix s e t
  assume m: "within (looked E) m" and f: "\<And>a. \<forall>s e t. f a s = (Err e, t) \<longrightarrow> \<not> fs_usable t \<or> looked E s t"
    and run: "and_then m f s = (Err e, t)"
  from run consider "m s = (Err e, t)" | a u where "m s = (Ok a, u)" "f a u = (Err e, t)" by (auto simp: and_then_Err)
  then show "\<not> fs_usable t \<or> looked E s t"
  proof cases
    case 1
    then show ?thesis using withinD [OF m] by blast
  next
    case 2
    then show ?thesis using withinD [OF m] f transpD [OF looked_order(2)] by metis
  qed
qed

lemma soft_mutation: "soft E (mutation m)"
proof -
  have "\<not> fs_usable t" if "mutation m s = (Err e, t)" for s e t
    using that by (cases "m s"; cases "fst (m s)") (auto simp: mutation_def retire_def fs_usable_def)
  then show ?thesis by (auto simp: soft_def)
qed

lemma soft_ret: "soft E (ret a)"
  by (simp add: soft_def ret_def)

lemma soft_if: "soft E m \<Longrightarrow> soft E k \<Longrightarrow> soft E (if b then m else k)"
  by simp

lemmas soft_intros = soft_look soft_mutation soft_ret soft_if

lemma soft_changes:
  "soft E (fs_create_file E v)" "soft E (fs_write E v offset bytes)" "soft E (fs_truncate E v k)" "soft E (fs_mkdir E v)"
  "soft E (fs_remove E v)" "soft E (fs_rename E v w)" "soft E (fs_flush E)" "soft E (fs_fresh_read E)"
  unfolding fs_create_file_def fs_write_def fs_truncate_def fs_mkdir_def fs_remove_def fs_rename_def fs_flush_def fs_fresh_read_def
  by ((intro soft_intros within_intros)[1])+

definition changes :: "fs_op \<Rightarrow> bool" where
  "changes x \<longleftrightarrow> (case x of Create v \<Rightarrow> True | Write v offset bytes \<Rightarrow> True | Truncate v k \<Rightarrow> True | Mkdir v \<Rightarrow> True
     | Remove v \<Rightarrow> True | Rename v w \<Rightarrow> True | Flush \<Rightarrow> True | Fresh_Read \<Rightarrow> True | _ \<Rightarrow> False)"

lemma erased_soft: "soft E m \<Longrightarrow> erased m s = Some (Err e, t) \<Longrightarrow> \<not> fs_usable t \<or> looked E s t"
  by (cases "m s"; cases "fst (m s)") (auto simp: soft_def erased_def erase_def)

lemmas failed_changes = soft_changes [THEN erased_soft]

text \<open>
  C6: A change either fails before it starts or ends the session. When creating, writing, truncating,
  removing, renaming or flushing returns an error, the session is unusable from then on, or the
  session is as a number of lookups has left it and no other call of the engine was made. No
  session stays usable after a change was attempted and its outcome is not known to be good.
\<close>

theorem failed_change_retires:
  assumes "changes x" "fs_apply E x s = Some (Err e, t)"
  shows "\<not> fs_usable t \<or> (\<exists>vs. fs_steps E s (map Stat vs) t)"
  using assms unfolding changes_def looked_def [symmetric]
  by (cases x) (auto dest: failed_changes)

text \<open>
  On a ext4 session whose write fails the session is retired; a write past the end of the file is
  refused after the lookup and the session goes on.
\<close>

lemma sample_ext_write: "fs_write (sample_engines logged_ram) [47, 65] 8 [1] (ext4_session True) =
    (Err ''ext4 error'', retire (ext4_session True))"
  by (simp add: fs_write_def fs_stat_def check_path_def path_A bad_write_range_def max_file_chunk_def checked_add_def
      ext_stat_def ext_inode_def ext_write_def mutation_def session_eval ext4_session_def sample_ext4_def sample_inode_def
      inode_kind_def logged_def ram_device_def) (simp add: sample_engines_def)

theorem failed_change_retires_witness:
  "\<not> fs_usable (retire (ext4_session True)) \<and>
   fs_apply (sample_engines logged_ram) (Write [47, 65] 8 [1]) (ext4_session True) = Some (Err ''ext4 error'', retire (ext4_session True))"
proof -
  have run: "fs_apply (sample_engines logged_ram) (Write [47, 65] 8 [1]) (ext4_session True) =
      Some (Err ''ext4 error'', retire (ext4_session True))"
    by (simp add: erased_def erase_def sample_ext_write)
  have "changes (Write [47, 65] 8 [1])" by (simp add: changes_def)
  from failed_change_retires [OF this run] run show ?thesis by (auto simp: retire_def fs_usable_def)
qed

section \<open>\<open>finish\<close>\<close>

lemma unmount_takes:
  assumes "mounted s \<noteq> None" "unmount E s = (q, u)"
  shows "mounted u = None \<and> q \<noteq> Panicked \<and> q \<noteq> Dropped"
proof -
  obtain m where m: "mounted s = Some m" using assms(1) by auto
  show ?thesis
  proof (cases m)
    case (Fat f position)
    then show ?thesis using assms(2) m by (auto simp: unmount_def from_sum_def act_iffs split: prod.split_asm sum.split_asm)
  next
    case (Ext4 x)
    then show ?thesis using assms(2) m
      by (auto simp: unmount_def ext4_finish_def as_outcome_def split: prod.split_asm sum.split_asm outcome.split_asm)
  qed
qed

lemma finish_run: "fs_usable s \<Longrightarrow> fs_finish E s = (if \<not> writable (guard s) then fs_abort E s
    else and_then (mutation (unmount E)) (\<lambda>_. device_flush E) s)"
  by (simp add: fs_finish_def and_then_def check_mounted_run)

lemma device_flush_mounted: "mounted (snd (device_flush E s)) = mounted s"
  by (simp add: device_flush_def split: prod.split sum.split)

text \<open>Whatever becomes of it, \<open>finish\<close> takes the engine out of the session.\<close>

lemma finish_ends:
  assumes "fs_usable s" "fs_finish E s = (r, t)"
  shows "mounted t = None \<and> (\<not> writable (guard s) \<longrightarrow> r = Ok ())"
proof (cases "writable (guard s)")
  case False
  then show ?thesis using assms by (auto simp: finish_run abort_run)
next
  case True
  obtain q u where q: "unmount E s = (q, u)" by fastforce
  have u: "mounted u = None \<and> q \<noteq> Panicked \<and> q \<noteq> Dropped"
    using unmount_takes [OF _ q] assms(1) by (simp add: fs_usable_def)
  have "and_then (mutation (unmount E)) (\<lambda>_. device_flush E) s = (r, t)" using assms True by (simp add: finish_run)
  then show ?thesis using q u True device_flush_mounted [of E u]
    by (cases q) (auto simp: and_then_def mutation_def retire_def)
qed

text \<open>
  C10: What \<open>finish\<close> promises. From a usable session it always ends it. On a read-only session it is
  \<open>abort\<close>: it succeeds and does not touch the device. On a writable one it succeeds only if the
  engine's unmount succeeded and then the device's own flush did, as the last access of all, with
  no failed access before it; and a failed unmount retires the device.
\<close>

theorem finish_publishes_last:
  assumes "broker E = logged D" "fs_usable s" "fs_finish E s = (r, t)"
  shows "mounted t = None \<and> r \<noteq> Panicked \<and>
    (\<not> writable (guard s) \<longrightarrow> r = Ok () \<and> inner (guard t) = inner (guard s)) \<and>
    (writable (guard s) \<and> r = Ok () \<longrightarrow> \<not> retired (guard t) \<and>
      (\<exists>u. unmount E s = (Ok (), u) \<and> device_log (guard t) = device_log (guard u) @ [Did_Flush True])) \<and>
    (writable (guard s) \<and> fst (unmount E s) \<noteq> Ok () \<longrightarrow> retired (guard t) \<and> r \<noteq> Ok ())"
proof -
  note run = finish_run [OF assms(2), of E]
  show ?thesis
  proof (cases "writable (guard s)")
    case False
    then show ?thesis using run assms(3) by (auto simp: abort_run)
  next
    case True
    obtain q u where q: "unmount E s = (q, u)" by fastforce
    have u: "mounted u = None \<and> q \<noteq> Panicked \<and> q \<noteq> Dropped"
      using unmount_takes [OF _ q] assms(2) by (simp add: fs_usable_def)
    show ?thesis
    proof (cases q)
      case (Ok a)
      then have fin: "device_flush E u = (r, t)" using run True assms(3) q by (simp add: and_then_def mutation_def)
      obtain d l where i: "inner (guard u) = (d, l)" by (cases "inner (guard u)")
      obtain y d' where y: "flush_device D d = (y, d')" by fastforce
      have "mounted t = None \<and> r \<noteq> Panicked \<and> (r = Ok () \<longrightarrow> \<not> retired (guard t) \<and> device_log (guard t) = l @ [Did_Flush True])"
        using fin u y i assms(1) unfolding device_flush_def guarded_flush_def guarded_check_def complete_def logged_def
        by (cases y) (auto split: if_split_asm)
      then show ?thesis using True q Ok i by auto
    next
      case (Err e)
      then have "r = Err e" "t = retire u" using run True assms(3) q by (auto simp: and_then_def mutation_def)
      then show ?thesis using u True q Err by (auto simp: retire_def)
    qed (use u in auto)
  qed
qed

theorem finish_publishes_last_witness:
  "\<exists>t. fs_finish (sample_engines logged_ram) (fat_session True [] 0) = (Ok (), t) \<and> mounted t = None \<and>
    device_log (guard t) = [Did_Write 512 [6] True, Did_Flush True] \<and> \<not> retired (guard t)"
proof -
  let ?E = "sample_engines logged_ram"
  let ?u = "\<lparr>mounted = None, guard = \<lparr>inner = ((), [Did_Write 512 [6] True]), writable = True, retired = False\<rparr>\<rparr>"
  have u: "unmount ?E (fat_session True [] 0) = (Ok (), ?u)"
    by (simp add: unmount_def sample_fat_def device_eval from_sum_def act_simps)
  have f: "device_flush ?E ?u =
      (Ok (), \<lparr>mounted = None, guard = \<lparr>inner = ((), [Did_Write 512 [6] True, Did_Flush True]), writable = True, retired = False\<rparr>\<rparr>)"
    by (simp add: device_flush_def device_eval)
  have fin: "fs_finish ?E (fat_session True [] 0) =
      (Ok (), \<lparr>mounted = None, guard = \<lparr>inner = ((), [Did_Write 512 [6] True, Did_Flush True]), writable = True, retired = False\<rparr>\<rparr>)"
    by (simp add: fs_finish_def check_mounted_run u f mutation_def and_then_def)
  have "broker ?E = logged (ram_device 1024)" by simp
  from finish_publishes_last [OF this _ fin] fin u show ?thesis by auto
qed

end
