(* ===== verification/Fs_Machine.thy ===== *)
theory Fs_Machine
  imports Fs_Lifecycle
begin

text \<open>
  The life of a filesystem session as a machine of three states, which the session refines for every
  engine and device.
\<close>

section \<open>The machine\<close>

text \<open>A session serves, for writing or not, or is gone for good.\<close>

datatype phase = Serving bool | Gone

text \<open>Phases are ordered by what is left of the session; \<open>Gone\<close> is the least.\<close>

instantiation phase :: order_bot
begin

definition bot_phase :: phase where
  "bot_phase = Gone"

definition less_eq_phase :: "phase \<Rightarrow> phase \<Rightarrow> bool" where
  "less_eq_phase p q \<longleftrightarrow> p = Gone \<or> p = q"

definition less_phase :: "phase \<Rightarrow> phase \<Rightarrow> bool" where
  "less_phase p q \<longleftrightarrow> p = Gone \<and> q \<noteq> Gone"

instance
  by standard (auto simp: bot_phase_def less_eq_phase_def less_phase_def)

end

definition phase_of :: "('d, 'f, 'g) session \<Rightarrow> phase" where
  "phase_of s = (if fs_usable s then Serving (writable (guard s)) else Gone)"

fun alters :: "fs_op \<Rightarrow> bool" where
  "alters (Create v) = True"
| "alters (Write v offset bytes) = True"
| "alters (Truncate v len) = True"
| "alters (Mkdir v) = True"
| "alters (Remove v) = True"
| "alters (Rename v w) = True"
| "alters _ = False"

fun refused :: "(string, unit) outcome \<Rightarrow> bool" where
  "refused (Err e) = True"
| "refused _ = False"

text \<open>Which outcomes and next states the machine allows an operation in a state.\<close>

fun allowed :: "fs_op \<Rightarrow> phase \<Rightarrow> (string, unit) outcome \<Rightarrow> phase \<Rightarrow> bool" where
  "allowed Abort p r q \<longleftrightarrow> r = Ok () \<and> q = Gone"
| "allowed x Gone r q \<longleftrightarrow> refused r \<and> q = Gone"
| "allowed Finish (Serving w) r q \<longleftrightarrow> q = Gone \<and> (w \<or> r = Ok ())"
| "allowed x (Serving w) r q \<longleftrightarrow>
     (if alters x \<and> \<not> w then refused r \<and> q = Serving w else q \<le> Serving w)"

section \<open>A read-only session refuses changes\<close>

lemma read_only_refuses:
  assumes "\<not> writable (guard s)"
  shows "refuses s check_writable"
proof (cases "fs_usable s")
  case True
  then show ?thesis using assms by (simp add: check_writable_def and_then_run check_mounted_run refuses_def require_def fail_def)
next
  case False
  then show ?thesis by (rule closed_refuses)
qed

lemma read_only_changes:
  assumes "\<not> writable (guard s)"
  shows "refuses s (fs_create_file E v)" "refuses s (fs_write E v offset bytes)" "refuses s (fs_truncate E v k)"
    "refuses s (fs_mkdir E v)" "refuses s (fs_remove E v)" "refuses s (fs_rename E v w)"
  unfolding fs_create_file_def fs_write_def fs_truncate_def fs_mkdir_def fs_remove_def fs_rename_def
  by ((intro refuses_intros refuses_first read_only_refuses assms)[1])+

lemma read_only_alters: "\<not> writable (guard s) \<Longrightarrow> alters x \<Longrightarrow> \<exists>e. fs_apply E x s = Some (Err e, s)"
  by (cases x) (auto intro!: erased_refuses read_only_changes)

section \<open>Refinement\<close>

lemma mode_kept: "logging E n \<Longrightarrow> fs_apply E x s = Some (r, t) \<Longrightarrow> writable (guard t) = writable (guard s)"
  using fs_apply_stays quiet_unfold unfolding stays_def by blast

lemma finish_phase:
  assumes "fs_usable s" "fs_apply E Finish s = Some (r, t)"
  shows "\<not> fs_usable t \<and> (\<not> writable (guard s) \<longrightarrow> r = Ok ())"
proof -
  obtain q where "fs_finish E s = (q, t)" "r = map_outcome id (\<lambda>_. ()) q" using assms(2) by (auto simp: erased_def erase_state)
  then show ?thesis using finish_ends [OF assms(1)] by (cases q) (auto simp: fs_usable_def)
qed

lemma phase_descends: "logging E n \<Longrightarrow> fs_apply E x s = Some (r, t) \<Longrightarrow> phase_of t \<le> phase_of s"
  using mode_kept [of E n x s r t] closed_step [of s E x r t] by (auto simp: phase_of_def less_eq_phase_def)

text \<open>Descending is a law of every session.\<close>

lemma phase_law: "logging E n \<Longrightarrow> session_law E (\<lambda>s t. phase_of t \<le> phase_of s)"
  by unfold_locales (auto intro: phase_descends)

lemma phase_step:
  assumes "logging E n" "fs_apply E x s = Some (r, t)"
  shows "allowed x (phase_of s) r (phase_of t)"
proof (cases "x = Abort")
  case True
  then show ?thesis using assms(2) by (auto simp: erased_def erase_def abort_run phase_of_def fs_usable_def)
next
  case other: False
  show ?thesis
  proof (cases "fs_usable s")
    case False
    then obtain e where "r = Err e" "t = s" using closed_apply [OF False other, of E] assms(2) by auto
    then show ?thesis using False other by (cases x) (auto simp: phase_of_def)
  next
    case True
    have mode: "phase_of t \<le> phase_of s" using phase_descends [OF assms] .
    have same: "phase_of t = phase_of s \<and> refused r" if "alters x" "\<not> writable (guard s)"
      using read_only_alters [OF that(2,1), of E] assms(2) by auto
    have gone: "phase_of t = Gone \<and> (writable (guard s) \<or> r = Ok ())" if "x = Finish"
      using finish_phase [OF True] assms(2) that by (auto simp: phase_of_def)
    have s: "phase_of s = Serving (writable (guard s))" using True by (simp add: phase_of_def)
    show ?thesis using mode same gone other unfolding s by (cases x) auto
  qed
qed

lemma ends_session: "logging E n \<Longrightarrow> fs_apply E x s = Some (r, t) \<Longrightarrow> x = Finish \<or> x = Abort \<Longrightarrow> phase_of t = Gone"
  using phase_step [of E n x s r t] by (cases "phase_of s") auto

lemma serving_back:
  assumes "fs_steps E s xs t" "logging E n" "phase_of t \<noteq> Gone"
  shows "phase_of t = phase_of s" "Finish \<notin> set xs \<and> Abort \<notin> set xs"
proof -
  show "phase_of t = phase_of s"
    using session_law.law_steps [OF phase_law [OF assms(2)] assms(1)] assms(3) by (simp add: less_eq_phase_def)
  show "Finish \<notin> set xs \<and> Abort \<notin> set xs"
    using assms
  proof (induction rule: fs_steps.induct)
    case (steps_cons x s r t xs u)
    have "phase_of t \<noteq> Gone"
      using session_law.law_steps [OF phase_law steps_cons.hyps(2)] steps_cons.prems by (auto simp: less_eq_phase_def)
    then show ?case using ends_session [OF steps_cons.prems(1) steps_cons.hyps(1)] steps_cons.IH steps_cons.prems by auto
  qed simp
qed

text \<open>
  C19: The life of a session. Over every device and all engines, each operation is a step of a machine
  of three states, serving for writing, serving read-only, and gone: nothing leads out of the last,
  where every operation but \<open>abort\<close> is an error; \<open>abort\<close> always succeeds and \<open>finish\<close> always ends
  the session, on a read-only one with success; the access mode never changes; and a read-only
  session refuses each of the six operations that alter files without any effect, on the engine
  or the device. So a session that still serves after any sequence of operations is in the state it
  was opened in, and was neither finished nor aborted.
\<close>

theorem session_refines_machine:
  assumes "logging E n"
  shows "(\<forall>x r t. fs_apply E x s = Some (r, t) \<longrightarrow>
      allowed x (phase_of s) r (phase_of t) \<and> (alters x \<and> \<not> writable (guard s) \<longrightarrow> t = s)) \<and>
    (\<forall>xs t. fs_steps E s xs t \<longrightarrow> fs_usable t \<longrightarrow>
      phase_of t = phase_of s \<and> Finish \<notin> set xs \<and> Abort \<notin> set xs)"
proof (intro conjI allI impI)
  show "allowed x (phase_of s) r (phase_of t)" if "fs_apply E x s = Some (r, t)" for x r t
    using phase_step [OF assms that] .
  show "t = s" if "fs_apply E x s = Some (r, t)" "alters x \<and> \<not> writable (guard s)" for x r t
    using read_only_alters [of s x E] that by auto
  show "phase_of t = phase_of s" "Finish \<notin> set xs" "Abort \<notin> set xs" if "fs_steps E s xs t" "fs_usable t" for xs t
    using serving_back [OF that(1) assms] that(2) by (simp_all add: phase_of_def split: if_split_asm)
qed

theorem session_refines_machine_witness:
  "\<exists>e. fs_apply (sample_engines logged_ram) (Write [47, 65] 0 [1]) (fat_session False [] 0) = Some (Err e, fat_session False [] 0) \<and>
    allowed (Write [47, 65] 0 [1]) (Serving False) (Err e) (Serving False)"
proof -
  let ?E = "sample_engines logged_ram" and ?x = "Write [47, 65] 0 [1]" and ?s = "fat_session False [] 0"
  have "logging ?E 1024" by (auto simp: logging_def ram_device_def)
  from conjunct1 [OF session_refines_machine [OF this, of ?s]]
  have steps: "allowed ?x (phase_of ?s) r (phase_of t) \<and> t = ?s" if "fs_apply ?E ?x ?s = Some (r, t)" for r t
    using that by (simp del: fs_apply.simps)
  obtain r t where run: "fs_apply ?E ?x ?s = Some (r, t)" by (auto simp: erased_def simp del: split_paired_Ex) (metis surj_pair)
  have "phase_of ?s = Serving False" by (simp add: phase_of_def fs_usable_def)
  then have "allowed ?x (Serving False) r (Serving False)" "t = ?s" using steps [OF run] by auto
  then show ?thesis using run by (cases r) auto
qed

end
