(* ===== verification/Fs_Functional.thy ===== *)
theory Fs_Functional
  imports Fs_Lifecycle
begin

text \<open>
  What the operations of a filesystem session promise when they succeed: no file is replaced, no
  write leaves a gap, no read returns more than was asked, and a listing is bounded and returns.
\<close>

section \<open>Creating\<close>

lemma check_writable_Ok: "check_writable s = (Ok x, t) \<longleftrightarrow> fs_usable s \<and> writable (guard s) \<and> t = s"
  by (auto simp: check_writable_def check_mounted_run and_then_def require_def ret_def fail_def)

lemma check_path_Ok: "check_path v s = (Ok x, t) \<longleftrightarrow> path v = Inr v \<and> t = s"
  by (cases "path v") (auto simp: check_path_run dest: path_shape(1))

lemma expect_absent_Ok: "expect_absent E v s = (Ok x, t) \<longleftrightarrow> fs_stat E v s = (Err ''not found'', t)"
  by (cases "fs_stat E v s"; cases "fst (fs_stat E v s)") (auto simp: expect_absent_def match_result_def act_simps act_iffs)

lemma expect_absent_found: "fs_stat E v s = (Ok item, t) \<Longrightarrow> expect_absent E v s = (Err ''already exists'', t)"
  by (simp add: expect_absent_def match_result_def act_simps)

lemma mutation_Ok: "mutation m s = (Ok x, t) \<longleftrightarrow> m s = (Ok x, t)"
  by (cases "m s"; cases "fst (m s)") (auto simp: mutation_def)

lemma create_guards:
  "fs_create_file E v s = (Ok (), t) \<Longrightarrow> writable (guard s) \<and> path v = Inr v \<and> v \<noteq> [slash] \<and> (\<exists>u. fs_stat E v s = (Err ''not found'', u))"
  "fs_mkdir E v s = (Ok (), t) \<Longrightarrow> writable (guard s) \<and> path v = Inr v \<and> (\<exists>u. fs_stat E v s = (Err ''not found'', u))"
  "fs_rename E v w s = (Ok (), t) \<Longrightarrow> writable (guard s) \<and> path v = Inr v \<and> path w = Inr w \<and> v \<noteq> [slash] \<and> w \<noteq> [slash] \<and>
     (\<exists>item u x. fs_stat E v s = (Ok item, u) \<and> fs_stat E w u = (Err ''not found'', x))"
  unfolding fs_create_file_def fs_mkdir_def fs_rename_def
  by (auto simp: and_then_Ok check_path_Ok check_writable_Ok require_iffs expect_absent_Ok)

lemma create_refused:
  assumes "path v = Inr v" "writable (guard s)" "fs_usable s" "fs_stat E v s = (Ok item, u)"
  shows "v \<noteq> [slash] \<Longrightarrow> fs_create_file E v s = (Err ''already exists'', u)"
    and "fs_mkdir E v s = (Err ''already exists'', u)"
  using assms
  by (simp_all add: fs_create_file_def fs_mkdir_def check_path_run check_writable_def check_mounted_run and_then_def act_simps
      expect_absent_found [OF assms(4)])

lemma rename_refused:
  assumes "path v = Inr v" "path w = Inr w" "writable (guard s)" "fs_usable s" "v \<noteq> [slash]" "w \<noteq> [slash]"
    and "fs_stat E v s = (Ok item, u)" "fs_stat E w u = (Ok other, x)"
  shows "fs_rename E v w s = (Err ''already exists'', x)"
  using assms
  by (simp add: fs_rename_def check_path_run check_writable_def check_mounted_run and_then_def act_simps
      expect_absent_found [OF assms(8)])

lemma fat_root_there:
  assumes "mounted s = Some (Fat f p)"
  shows "fs_mkdir E [slash] s \<noteq> (Ok (), t)"
proof
  assume "fs_mkdir E [slash] s = (Ok (), t)"
  then obtain u where "path [slash] = Inr [slash]" "fs_stat E [slash] s = (Err ''not found'', u)"
    using create_guards(2) by blast
  then show False using assms
    by (auto simp: fs_stat_def check_path_run match_mounted_def check_mounted_run by_engine_def fat_stat_def closed_text_def
        and_then_def act_simps split: if_splits)
qed

text \<open>
  C11: Creation is exclusive. Creating a file or a directory, or renaming to a name, succeeds only
  where the lookup of that name has just answered \<open>not found\<close>, in a writable session. Where the
  lookup finds an entry, the answer to all three is \<open>already exists\<close> and the engine is not called
  again, so nothing that exists is truncated or replaced. A file is never created at the root, nor
  the root renamed or renamed to; \<open>mkdir\<close> has no such test and leaves the root to the lookup, which on FAT
  always finds it.
\<close>

theorem creation_is_exclusive:
  "(\<forall>t. fs_create_file E v s = (Ok (), t) \<longrightarrow> writable (guard s) \<and> v \<noteq> [slash] \<and> (\<exists>u. fs_stat E v s = (Err ''not found'', u))) \<and>
   (\<forall>t. fs_mkdir E v s = (Ok (), t) \<longrightarrow> writable (guard s) \<and> (\<exists>u. fs_stat E v s = (Err ''not found'', u))) \<and>
   (\<forall>w t. fs_rename E w v s = (Ok (), t) \<longrightarrow> writable (guard s) \<and> w \<noteq> [slash] \<and> v \<noteq> [slash] \<and>
     (\<exists>item u x. fs_stat E w s = (Ok item, u) \<and> fs_stat E v u = (Err ''not found'', x))) \<and>
   (\<forall>item u. path v = Inr v \<and> writable (guard s) \<and> fs_usable s \<and> fs_stat E v s = (Ok item, u) \<longrightarrow>
     (v \<noteq> [slash] \<longrightarrow> fs_create_file E v s = (Err ''already exists'', u)) \<and> fs_mkdir E v s = (Err ''already exists'', u)) \<and>
   (\<forall>w item u other x. path w = Inr w \<and> path v = Inr v \<and> writable (guard s) \<and> fs_usable s \<and> w \<noteq> [slash] \<and> v \<noteq> [slash] \<and>
     fs_stat E w s = (Ok item, u) \<and> fs_stat E v u = (Ok other, x) \<longrightarrow> fs_rename E w v s = (Err ''already exists'', x)) \<and>
   (\<forall>f p t. mounted s = Some (Fat f p) \<longrightarrow> fs_mkdir E [slash] s \<noteq> (Ok (), t))"
  by (auto simp: create_refused rename_refused fat_root_there dest!: create_guards)

theorem creation_is_exclusive_witness:
  "fs_create_file (sample_engines logged_ram) [47, 65] (fat_session True [] 0) = (Err ''already exists'', fat_session True [] 1)"
proof -
  have "[47, 65] \<noteq> [slash]" by (simp add: slash_def)
  then show ?thesis
    using creation_is_exclusive [of "sample_engines logged_ram" "[47, 65]" "fat_session True [] 0"] path_A sample_stat by simp
qed

section \<open>Writing and shrinking\<close>

lemma bad_write_range_iff:
  "\<not> bad_write_range offset len capacity \<longleftrightarrow> len \<le> max_file_chunk \<and> unat offset + len \<le> unat capacity"
proof -
  have "unat offset + len \<le> unat capacity \<longleftrightarrow>
      (case checked_add offset (of_nat len) of None \<Rightarrow> False | Some stop \<Rightarrow> \<not> capacity < stop)" if "len \<le> max_file_chunk"
  proof -
    have len: "unat (of_nat len :: u64) = len" using that by (simp add: max_file_chunk_def unat_of_nat)
    show ?thesis
    proof (cases "checked_add offset (of_nat len)")
      case None
      then have "2 ^ 64 \<le> unat offset + len" using len by (simp add: checked_add_def split: if_split_asm)
      then show ?thesis using None unat_bound [of capacity] by simp
    next
      case (Some stop)
      then show ?thesis using unat_checked_add [OF Some] len by (simp add: not_less word_le_nat_alt)
    qed
  qed
  then show ?thesis by (auto simp: bad_write_range_def not_less split: option.split option.split_asm)
qed

text \<open>
  C12: What a successful write or shrink went through. A write succeeds only in a writable session,
  with at most 4 MiB, ending inside the device, on a path whose lookup found a regular file at
  least as long as the offset, so it never leaves a gap, in either engine. A truncation succeeds
  only on a regular file that is at least as long as asked, and changes nothing if it has that
  length already.
\<close>

theorem writes_leave_no_gap:
  "(\<forall>t. fs_write E v offset bytes s = (Ok (), t) \<longrightarrow>
     writable (guard s) \<and> length bytes \<le> max_file_chunk \<and>
     unat offset + length bytes \<le> unat (size_of (broker E) (inner (guard s))) \<and>
     (\<exists>item u. fs_stat E v s = (Ok item, u) \<and> entry_kind item = ''file'' \<and> unat offset \<le> unat (entry_size item))) \<and>
   (\<forall>t. fs_truncate E v len s = (Ok (), t) \<longrightarrow>
     writable (guard s) \<and>
     (\<exists>item u. fs_stat E v s = (Ok item, u) \<and> entry_kind item = ''file'' \<and> unat len \<le> unat (entry_size item) \<and>
       (len = entry_size item \<longrightarrow> t = u)))"
proof (intro conjI allI impI)
  fix t assume run: "fs_write E v offset bytes s = (Ok (), t)"
  then obtain item u where ok: "\<not> bad_write_range offset (length bytes) (size_of (broker E) (inner (guard s)))"
    "fs_stat E v s = (Ok item, u)" "entry_kind item = ''file''" "\<not> entry_size item < offset" "writable (guard s)"
    unfolding fs_write_def by (auto simp: and_then_Ok check_path_Ok check_writable_Ok require_iffs)
  then show "writable (guard s)" "length bytes \<le> max_file_chunk"
    "unat offset + length bytes \<le> unat (size_of (broker E) (inner (guard s)))"
    "\<exists>item u. fs_stat E v s = (Ok item, u) \<and> entry_kind item = ''file'' \<and> unat offset \<le> unat (entry_size item)"
    by (auto simp: bad_write_range_iff not_less word_le_nat_alt)
next
  fix t assume run: "fs_truncate E v len s = (Ok (), t)"
  then obtain item u where ok: "fs_stat E v s = (Ok item, u)" "entry_kind item = ''file''" "\<not> entry_size item < len"
    "writable (guard s)" "len = entry_size item \<longrightarrow> t = u"
    unfolding fs_truncate_def
    by (auto simp: and_then_Ok check_path_Ok check_writable_Ok require_iffs act_iffs split: if_split_asm)
  then show "writable (guard s)"
    "\<exists>item u. fs_stat E v s = (Ok item, u) \<and> entry_kind item = ''file'' \<and> unat len \<le> unat (entry_size item) \<and>
       (len = entry_size item \<longrightarrow> t = u)"
    by (auto simp: not_less word_le_nat_alt)
qed

text \<open>Shrinking the four-byte file to four bytes.\<close>

theorem writes_leave_no_gap_witness:
  "fs_truncate (sample_engines logged_ram) [47, 65] 4 (fat_session True [] 0) = (Ok (), fat_session True [] 1) \<and>
   (\<exists>item u. fs_stat (sample_engines logged_ram) [47, 65] (fat_session True [] 0) = (Ok item, u) \<and> u = fat_session True [] 1)"
proof -
  have run: "fs_truncate (sample_engines logged_ram) [47, 65] 4 (fat_session True [] 0) = (Ok (), fat_session True [] 1)"
    by (simp add: fs_truncate_def check_path_run path_A check_writable_def check_mounted_run and_then_def act_simps sample_stat)
  then have "\<exists>item u. fs_stat (sample_engines logged_ram) [47, 65] (fat_session True [] 0) = (Ok item, u) \<and> unat (4 :: u64) \<le> unat (entry_size item)"
    using writes_leave_no_gap [of "sample_engines logged_ram" "[47, 65]" 0 "[]" "fat_session True [] 0" 4] by blast
  then show ?thesis using run sample_stat by simp
qed

section \<open>Reading\<close>

lemma read_loop_length: "count \<le> length buf \<Longrightarrow> read_loop E fh buf count s = (Ok (out, k), t) \<Longrightarrow> length out = length buf"
proof (induction E fh buf count s rule: read_loop.induct)
  case (1 E fh buf count s)
  obtain q u where q: "fat_call E (fat_read (fat E) fh (length buf - count)) s = (q, u)" by fastforce
  show ?case
  proof (cases "count < length buf \<and> (\<exists>j data. q = Ok (j, data) \<and> j \<noteq> 0)")
    case True
    then obtain j data where j: "q = Ok (j, data)" "j \<noteq> 0" "count < length buf" by blast
    then have rest: "read_loop E fh (overlay count data buf) (count + j) u = (Ok (out, k), t)"
      using "1.prems"(2) q by (simp add: read_loop.simps [of E fh buf count s])
    show ?thesis
    proof (cases "count + j \<le> length buf")
      case True
      then show ?thesis using "1.IH" [OF j(3) q [symmetric] j(1) _ j(2)] rest j(3) by simp
    next
      case False
      then show ?thesis using rest j(3) by (auto simp: read_loop.simps [of E fh _ "count + j"])
    qed
  next
    case False
    then show ?thesis using "1.prems" q
      by (auto simp: read_loop.simps [of E fh buf count s] split: if_split_asm outcome.split_asm)
  qed
qed

lemma scoped_Ok: "scoped E h m s = (Ok a, t) \<longleftrightarrow> (\<exists>u. m s = (Ok a, u) \<and> t = drop_handle E h u)"
  by (auto simp: scoped_def split: prod.split)

lemma fat_read_length: "fat_read_file E v offset len s = (Ok bytes, t) \<Longrightarrow> length bytes \<le> len"
  by (auto simp: fat_read_file_def and_then_Ok scoped_Ok act_iffs dest: read_loop_length [rotated])

lemma ext_read_length: "ext_read_file E v offset len s = (Ok bytes, t) \<Longrightarrow> length bytes \<le> len"
  by (auto simp: ext_read_file_def and_then_Ok act_iffs)

lemma match_mounted_Ok: "match_mounted m k s = (r, t) \<Longrightarrow> r \<noteq> Panicked \<Longrightarrow>
    (r = Err closed_text \<and> t = s) \<or> (fs_usable s \<and> (m s = (r, t) \<or> k s = (r, t)))"
  by (auto simp: match_mounted_def and_then_def check_mounted_run by_engine_def split: if_split_asm option.split_asm mounted.split_asm)

text \<open>
  C24: A read returns at most the bytes asked for, and at most 4 MiB, whatever counts the engine
  reports: a FAT engine whose \<open>read\<close> claims more than the buffer holds, or an ext4 engine whose
  count is larger than the request, cannot make the session return more. A longer request is
  refused before the engine is called.
\<close>

theorem reads_are_bounded:
  assumes "fs_read E v offset len s = (r, t)"
  shows "(\<forall>bytes. r = Ok bytes \<longrightarrow> length bytes \<le> len \<and> len \<le> max_file_chunk) \<and>
    (max_file_chunk < len \<and> path v = Inr v \<longrightarrow> r = Err ''file read exceeds4MiB'' \<and> t = s)"
proof (intro conjI allI impI)
  fix bytes assume "r = Ok bytes"
  then have len: "len \<le> max_file_chunk" and run: "match_mounted (fat_read_file E v offset len) (ext_read_file E v offset len) s = (Ok bytes, t)"
    using assms unfolding fs_read_def by (auto simp: and_then_Ok check_path_Ok require_iffs)
  show "len \<le> max_file_chunk" by (rule len)
  show "length bytes \<le> len" using match_mounted_Ok [OF run] fat_read_length ext_read_length by auto
next
  assume "max_file_chunk < len \<and> path v = Inr v"
  then show "r = Err ''file read exceeds4MiB''" "t = s"
    using assms by (auto simp: fs_read_def check_path_run and_then_def act_simps)
qed

text \<open>Four bytes of the file, which the ext4 engine reports as eight.\<close>

theorem reads_are_bounded_witness:
  "fs_read (sample_engines logged_ram) [47, 65] 0 4 (ext4_session False) = (Ok [65, 65, 65, 65], ext4_session False) \<and>
   length [65 :: u8, 65, 65, 65] \<le> (4 :: nat)"
proof -
  have bytes: "take (unat (8 :: u64) mod 2 ^ 32) (overlay 0 (replicate 8 65) (replicate 4 0)) = [65 :: u8, 65, 65, 65]"
  proof -
    have "replicate 4 65 = [65 :: u8, 65, 65, 65]" by (simp add: numeral_eq_Suc)
    then show ?thesis by (simp add: overlay_def)
  qed
  have found: "ext_inode (sample_engines logged_ram) [47, 65] (ext4_session False) = (Ok (12, sample_inode, []), ext4_session False)"
    by (simp add: ext_inode_def ext_call_def and_then_def act_simps from_sum_def sample_ext4_def sample_inode_def ext4_session_def)
  have content: "ext_call (sample_engines logged_ram) (x_read_file sample_ext4 i node raw offset k) (ext4_session False) =
      (Ok (8, replicate 8 65), ext4_session False)" for i node raw offset k
    by (simp add: ext_call_def from_sum_def act_simps sample_ext4_def ext4_session_def)
  have "is_file sample_inode" by (simp add: sample_inode_def)
  then have "ext_read_file (sample_engines logged_ram) [47, 65] 0 4 (ext4_session False) = (Ok [65, 65, 65, 65], ext4_session False)"
    using bytes by (simp add: ext_read_file_def as_text_def map_err_def match_result_def found content and_then_def act_simps)
  moreover have "mounted (ext4_session False) = Some (Ext4 ())" "fs_usable (ext4_session False)"
    by (simp_all add: ext4_session_def fs_usable_def)
  ultimately have run: "fs_read (sample_engines logged_ram) [47, 65] 0 4 (ext4_session False) = (Ok [65, 65, 65, 65], ext4_session False)"
    by (simp add: fs_read_def check_path_run path_A max_file_chunk_def match_mounted_def check_mounted_run by_engine_def and_then_def act_simps)
  from reads_are_bounded [OF run] run show ?thesis by blast
qed

end
