(* ===== verification/Fs_Totality.thy ===== *)
theory Fs_Totality
  imports Fs_Functional
begin

text \<open>
  No operation of a filesystem session panics, and \<open>list\<close>, the one that need not return, returns on
  every directory that ends.
\<close>

section \<open>Inside an arm of the match\<close>

definition in_fat :: "('d, 'f, 'g) session \<Rightarrow> bool" where
  "in_fat s \<longleftrightarrow> (\<exists>f position. mounted s = Some (Fat f position))"

definition in_ext4 :: "('d, 'f, 'g) session \<Rightarrow> bool" where
  "in_ext4 s \<longleftrightarrow> (\<exists>x. mounted s = Some (Ext4 x))"

lemma from_sum_safe [safe_intros]: "safe P (from_sum r)"
  by (cases r) (auto simp: from_sum_def intro: safe_intros)

lemma fat_run_safe [safe_intros]: "safe in_fat (fat_run E p)"
  by (rule safeI) (auto simp: fat_run_def in_fat_def split: prod.split_asm)

lemma fat_call_safe [safe_intros]: "safe in_fat (fat_call E p)"
  unfolding fat_call_def by (intro safe_intros)

lemma ext_call_safe [safe_intros]: "safe in_ext4 (ext_call E p)"
  by (rule safeI) (auto simp: ext_call_def in_ext4_def from_sum_def act_iffs split: prod.split_asm sum.split_asm)

lemma ext_state_safe [safe_intros]: "safe in_ext4 ext_state"
  by (rule safeI) (auto simp: ext_state_def in_ext4_def)

lemma map_err_safe [safe_intros]: "safe P m \<Longrightarrow> safe P (map_err f m)"
  unfolding map_err_def by (intro safe_intros)

lemma as_text_safe [safe_intros]: "safe P m \<Longrightarrow> safe P (as_text E m)"
  unfolding as_text_def by (intro safe_intros)

lemma case_prod_safe [safe_intros]: "(\<And>a b. safe P (f a b)) \<Longrightarrow> safe P (case x of (a, b) \<Rightarrow> f a b)"
  by (cases x) simp

lemma option_safe [safe_intros]: "safe P m \<Longrightarrow> (\<And>a. safe P (f a)) \<Longrightarrow> safe P (case x of None \<Rightarrow> m | Some a \<Rightarrow> f a)"
  by (cases x) simp_all

lemma if_safe [safe_intros]: "(b \<Longrightarrow> safe P m) \<Longrightarrow> (\<not> b \<Longrightarrow> safe P k) \<Longrightarrow> safe P (if b then m else k)"
  by simp

lemma require_state_safe [safe_intros]: "safe P (\<lambda>s. require (b s) e s)"
  by (auto simp: safe_def require_def ret_def fail_def)

lemma drop_handle_in_fat: "in_fat s \<Longrightarrow> in_fat (drop_handle E h s)"
  using safe_kept [OF fat_run_safe, of s E "fat_drop (fat E) h"] by (simp add: drop_handle_def)

lemma scoped_safe [safe_intros]: "safe in_fat m \<Longrightarrow> safe in_fat (scoped E h m)"
  by (rule safeI) (auto simp: scoped_def drop_handle_in_fat split: prod.split_asm dest: safeD)

lemma stat_scan_safe [safe_intros]: "safe in_fat (stat_scan E name it k)"
  by (induction k) (auto intro!: safe_intros split: option.split)

lemma relative_safe: "path v = Inr v \<Longrightarrow> safe P (relative v)"
  unfolding relative_def using path_shape(3) by (intro safe_intros) auto

lemma read_loop_safe [safe_intros]: "safe in_fat (read_loop E fh buf count)"
proof (rule safeI)
  fix s r t
  show "in_fat s \<Longrightarrow> read_loop E fh buf count s = (r, t) \<Longrightarrow> r \<noteq> Panicked \<and> in_fat t"
  proof (induction E fh buf count s rule: read_loop.induct)
    case (1 E fh buf count s)
    obtain q u where q: "fat_call E (fat_read (fat E) fh (length buf - count)) s = (q, u)" by fastforce
    have u: "q \<noteq> Panicked" "in_fat u" using safeD [OF fat_call_safe "1.prems"(1) q] by auto
    show ?case
    proof (cases "count < length buf \<and> (\<exists>j data. q = Ok (j, data) \<and> j \<noteq> 0)")
      case True
      then obtain j data where j: "q = Ok (j, data)" "j \<noteq> 0" "count < length buf" by blast
      from "1.IH" [OF j(3) q [symmetric] j(1) _ j(2)] u(2) "1.prems"(2) q j
      show ?thesis by (simp add: read_loop.simps [of E fh buf count s])
    next
      case False
      then show ?thesis using "1.prems" q u
        by (auto simp: read_loop.simps [of E fh buf count s] split: if_split_asm outcome.split_asm)
    qed
  qed
qed

lemma ext_inode_safe [safe_intros]: "safe in_ext4 (ext_inode E v)"
  unfolding ext_inode_def by (intro safe_intros)

lemma inherit_label_safe [safe_intros]: "safe in_ext4 (inherit_label E v)"
  unfolding inherit_label_def by (intro safe_intros)

lemma fat_made_safe [safe_intros]: "safe in_fat (fat_made E p)"
  unfolding fat_made_def by (intro safe_intros)

section \<open>Whole operations\<close>

abbreviation calm :: "('s, 'e, 'a) act \<Rightarrow> bool" where
  "calm m \<equiv> safe (\<lambda>_. True) m"

lemma calmI: "(\<And>s. fst (m s) \<noteq> Panicked) \<Longrightarrow> calm m"
  by (simp add: safe_def)

lemma mutation_safe [safe_intros]: "calm m \<Longrightarrow> calm (mutation m)"
proof (rule calmI)
  fix s assume "calm m"
  then show "fst (mutation m s) \<noteq> Panicked"
    by (cases "m s"; cases "fst (m s)") (auto simp: mutation_def safe_def dest: spec [of _ s])
qed

lemma by_engine_run:
  assumes "safe in_fat m" "safe in_ext4 k" "mounted s \<noteq> None"
  shows "fst (by_engine m k s) \<noteq> Panicked"
proof -
  obtain x where x: "mounted s = Some x" using assms(3) by blast
  show ?thesis
    using x safe_total [OF assms(1), of s] safe_total [OF assms(2), of s] by (cases x) (auto simp: by_engine_def in_fat_def in_ext4_def)
qed

lemma checked_safe: "(\<And>s. fs_usable s \<Longrightarrow> fst (m s) \<noteq> Panicked) \<Longrightarrow> calm (and_then check_mounted (\<lambda>_. m))"
  by (rule calmI) (auto simp: and_then_def check_mounted_run)

lemma match_mounted_safe [safe_intros]: "safe in_fat m \<Longrightarrow> safe in_ext4 k \<Longrightarrow> calm (match_mounted m k)"
  unfolding match_mounted_def by (rule checked_safe, rule by_engine_run) (auto simp: fs_usable_def)

lemma checked_mutation_safe [safe_intros]:
  "safe in_fat m \<Longrightarrow> safe in_ext4 k \<Longrightarrow> calm (and_then check_mounted (\<lambda>_. mutation (by_engine m k)))"
proof (rule checked_safe)
  fix s :: "('a, 'b, 'c) session"
  assume "safe in_fat m" "safe in_ext4 k" "fs_usable s"
  then have "fst (by_engine m k s) \<noteq> Panicked" by (intro by_engine_run) (auto simp: fs_usable_def)
  then show "fst (mutation (by_engine m k) s) \<noteq> Panicked"
    by (cases "by_engine m k s"; cases "fst (by_engine m k s)") (auto simp: mutation_def)
qed

lemma check_path_safe: "(path v = Inr v \<Longrightarrow> safe P (f ())) \<Longrightarrow> safe P (and_then (check_path v) f)"
proof (rule safeI)
  fix s r t assume f: "path v = Inr v \<Longrightarrow> safe P (f ())" and s: "P s" and run: "and_then (check_path v) f s = (r, t)"
  show "r \<noteq> Panicked \<and> P t"
  proof (cases "path v")
    case (Inl e)
    then show ?thesis using run s by (auto simp: and_then_def check_path_run)
  next
    case (Inr u)
    then have "path v = Inr v" using path_shape(1) by metis
    then show ?thesis using run s safeD [OF f] by (auto simp: and_then_def check_path_run)
  qed
qed

lemma check_writable_safe [safe_intros]: "calm check_writable"
  by (rule calmI) (auto simp: check_writable_def check_mounted_run and_then_def require_def ret_def fail_def)

lemma fat_stat_safe:
  assumes "path v = Inr v"
  shows "safe in_fat (fat_stat E v)"
proof -
  obtain cs where v: "v = slash # cs" using path_shape(2) [OF assms] by blast
  have parts: "rsplit_once slash v \<noteq> None" using v by (auto split: option.split)
  have dirs: "safe in_fat (if parent = [] then fat_root_dir E else and_then (relative parent) (\<lambda>p. fat_call E (fat_open_dir (fat E) p)))"
    if "rsplit_once slash v = Some (parent, name)" for parent name
  proof (cases "parent = []")
    case False
    have "v = parent @ slash # name" using that rsplit_once_Some by blast
    then obtain rest where "parent = slash # rest" using v False by (cases parent) auto
    then have "after_first parent \<noteq> None" by (simp add: utf8_width_def slash_def)
    then show ?thesis using False unfolding relative_def by (simp, intro safe_intros)
  next
    case True
    then show ?thesis unfolding fat_root_dir_def by (simp, intro safe_intros)
  qed
  show ?thesis
  proof (cases "v = [slash]")
    case False
    obtain parent name where p: "rsplit_once slash v = Some (parent, name)" using parts by auto
    then have stat: "fat_stat E v = and_then (if parent = [] then fat_root_dir E
        else and_then (relative parent) (\<lambda>p. fat_call E (fat_open_dir (fat E) p))) (\<lambda>dir.
      scoped E dir (and_then (fat_dir_iter E dir) (\<lambda>it. scoped E it (stat_scan E name it max_entries))))"
      using False by (simp add: fat_stat_def act_simps)
    have "safe in_fat (scoped E dir (and_then (fat_dir_iter E dir) (\<lambda>it. scoped E it (stat_scan E name it max_entries))))" for dir
      unfolding fat_dir_iter_def by (intro safe_intros)
    with dirs [OF p] show ?thesis unfolding stat by (rule safe_and_then_any)
  qed (simp add: fat_stat_def safe_intros)
qed

lemma fs_stat_safe [safe_intros]: "calm (fs_stat E v)"
  unfolding fs_stat_def ext_stat_def by (intro check_path_safe match_mounted_safe fat_stat_safe safe_intros)

lemma expect_absent_safe [safe_intros]: "calm (expect_absent E v)"
  unfolding expect_absent_def by (intro safe_intros)

lemma operations_safe:
  "calm (fs_read E v offset len)" "calm (fs_create_file E v)" "calm (fs_write E v offset bytes)" "calm (fs_truncate E v k)"
  "calm (fs_mkdir E v)" "calm (fs_remove E v)" "calm (fs_rename E v w)"
  unfolding fs_read_def fat_read_file_def ext_read_file_def fs_create_file_def fs_write_def fat_write_def ext_write_def
    fs_truncate_def fat_shrink_def ext_shrink_def fs_mkdir_def fs_remove_def fs_rename_def
  by ((intro check_path_safe relative_safe safe_intros; assumption)[1])+

lemma device_flush_calm: "fst (device_flush E s) \<noteq> Panicked"
  by (auto simp: device_flush_def split: prod.split sum.split)

lemma fat_publish_safe [safe_intros]: "safe in_fat (fat_publish E)"
proof (rule safeI)
  fix s r t assume "in_fat s" "fat_publish E s = (r, t)"
  then show "r \<noteq> Panicked \<and> in_fat t"
    using safeD [OF fat_call_safe, of s E "fat_flush (fat E)" r t]
    by (auto simp: fat_publish_def device_flush_def in_fat_def split: if_split_asm prod.split_asm sum.split_asm)
qed

lemma report_safe: "safe P (\<lambda>s. (Ok (f s), s))"
  by (simp add: safe_def)

lemma inspect_safe: "calm (fs_inspect E)"
  unfolding fs_inspect_def fat_inspect_def ext_inspect_def by (intro safe_intros report_safe)

lemma publishing_safe: "calm (fs_flush E)" "calm (fs_fresh_read E)"
  unfolding fs_flush_def fs_fresh_read_def by ((intro safe_intros)[1])+

lemma unmount_run:
  assumes "mounted s \<noteq> None"
  shows "fst (unmount E s) \<noteq> Panicked"
proof -
  obtain m where m: "mounted s = Some m" using assms by blast
  show ?thesis
  proof (cases m)
    case (Fat f position)
    then show ?thesis using m by (auto simp: unmount_def from_sum_def ret_def fail_def split: prod.split sum.split)
  next
    case (Ext4 x)
    then show ?thesis using m by (auto simp: unmount_def ext4_finish_def as_outcome_def split: prod.split sum.split)
  qed
qed

lemma finish_safe: "calm (fs_finish E)"
proof (rule calmI)
  fix s :: "('a, 'b, 'c) session"
  show "fst (fs_finish E s) \<noteq> Panicked"
  proof (cases "fs_usable s \<and> writable (guard s)")
    case True
    then have "fst (unmount E s) \<noteq> Panicked" by (intro unmount_run) (simp add: fs_usable_def)
    then show ?thesis using True device_flush_calm [of E]
      by (cases "unmount E s"; cases "fst (unmount E s)") (auto simp: fs_finish_def check_mounted_run and_then_def mutation_def)
  next
    case False
    then show ?thesis by (auto simp: fs_finish_def check_mounted_run and_then_def abort_run)
  qed
qed

section \<open>\<open>list\<close>\<close>

lemma list_scan_safe:
  assumes "in_fat s" "list_scan E it entries s = Some (r, t)"
  shows "r \<noteq> Panicked \<and> in_fat t"
proof -
  let ?P = "\<lambda>E it entries s x. in_fat s \<longrightarrow> fst x \<noteq> Panicked \<and> in_fat (snd x)"
  have "?P E it entries s (r, t)"
  proof (rule list_scan.raw_induct [where P = ?P, OF _ assms(2)])
    fix f E it entries s x
    assume IH: "\<And>E it entries s x. f E it entries s = Some x \<Longrightarrow> ?P E it entries s x"
      and eq: "(case fat_run E (fat_next (fat E) it) s of
        (Ok None, t) \<Rightarrow> Some (Ok entries, t)
      | (Ok (Some (Inl e)), t) \<Rightarrow> Some (Err e, t)
      | (Ok (Some (Inr item)), t) \<Rightarrow>
          if item_name item = dot \<or> item_name item = dot_dot then f E it entries t
          else if max_entries \<le> length entries then Some (Err ''directory entry limit exceeded'', t)
          else f E it (entries @ [fat_entry item]) t
      | (Err e, t) \<Rightarrow> Some (Err e, t)
      | (Dropped, t) \<Rightarrow> Some (Dropped, t)
      | (Panicked, t) \<Rightarrow> Some (Panicked, t)) = Some x"
    show "?P E it entries s x"
    proof
      assume s: "in_fat s"
      obtain q u where q: "fat_run E (fat_next (fat E) it) s = (q, u)" by fastforce
      from safeD [OF fat_run_safe s q] have u: "q \<noteq> Panicked" "in_fat u" by auto
      then show "fst x \<noteq> Panicked \<and> in_fat (snd x)"
        using eq q IH by (cases q) (auto split: option.split_asm sum.split_asm if_split_asm)
    qed
  qed
  then show ?thesis using assms(1) by simp
qed

lemma list_dirents_safe: "safe in_ext4 (list_dirents E ds entries)"
proof (induction ds arbitrary: entries)
  case (Cons d ds)
  show ?case unfolding list_dirents.simps decode_name_def by (intro safe_intros Cons)
qed (simp add: safe_intros)

lemma list_blocks_safe: "safe in_ext4 (list_blocks E ino node ls entries)"
proof (induction ls arbitrary: entries)
  case (Cons l ls)
  show ?case unfolding list_blocks.simps by (intro safe_intros list_dirents_safe Cons)
qed (simp add: safe_intros)

lemma ext_list_safe: "(\<And>x. sb_block_size (x_super (mounting E) x) \<noteq> 0) \<Longrightarrow> safe in_ext4 (ext_list E v)"
  unfolding ext_list_def by (intro safe_intros list_blocks_safe) (simp add: list_blocks_safe)

definition fat_opening :: "('d, 'f, 'h, 'g) engines \<Rightarrow> ustr \<Rightarrow> ('d, 'f, 'g, 'h \<times> 'h) fs_act" where
  "fat_opening E v = and_then (if v = [slash] then fat_root_dir E
      else and_then (relative v) (\<lambda>p. fat_call E (fat_open_dir (fat E) p))) (\<lambda>dir.
    and_then (fat_dir_iter E dir) (\<lambda>it. ret (dir, it)))"

lemma fat_opening_safe: "path v = Inr v \<Longrightarrow> safe in_fat (fat_opening E v)"
  unfolding fat_opening_def fat_root_dir_def fat_dir_iter_def by (intro safe_intros relative_safe)

lemma fat_list_run: "fat_list E v s = (case fat_opening E v s of
      (Ok (dir, it), t) \<Rightarrow> map_option (\<lambda>(r, u). (r, drop_handle E dir (drop_handle E it u))) (list_scan E it [] t)
    | (Err e, t) \<Rightarrow> Some (Err e, t)
    | (Dropped, t) \<Rightarrow> Some (Dropped, t)
    | (Panicked, t) \<Rightarrow> Some (Panicked, t))"
  unfolding fat_list_def fat_opening_def ..

lemma fs_list_cases:
  assumes "fs_list E v s = x"
  obtains e where "x = Some (Err e, s)"
    | f position where "path v = Inr v" "mounted s = Some (Fat f position)" "x = fat_list E v s"
    | g where "path v = Inr v" "mounted s = Some (Ext4 g)" "x = Some (ext_list E v s)"
proof (cases "path v = Inr v \<and> fs_usable s")
  case True
  then obtain m where m: "mounted s = Some m" by (auto simp: fs_usable_def)
  from True m assms that show thesis
    by (cases m) (auto simp: fs_list_def and_then_def check_path_run check_mounted_run)
next
  case False
  then have "\<exists>e. x = Some (Err e, s)" using assms path_shape(1) [of v]
    by (cases "path v") (auto simp: fs_list_def and_then_def check_path_run check_mounted_run)
  then show thesis using that by blast
qed

lemma fs_list_safe:
  assumes "\<And>x. sb_block_size (x_super (mounting E) x) \<noteq> 0" "fs_list E v s = Some (r, t)"
  shows "r \<noteq> Panicked"
  using assms(2)
proof (cases rule: fs_list_cases)
  case (2 f position)
  then have s: "in_fat s" by (simp add: in_fat_def)
  obtain q u where q: "fat_opening E v s = (q, u)" by fastforce
  from safeD [OF fat_opening_safe [OF 2(1)] s q] have u: "q \<noteq> Panicked" "in_fat u" by auto
  show ?thesis
  proof (cases q)
    case (Ok x)
    obtain dir it where x: "x = (dir, it)" by (cases x)
    have "map_option (\<lambda>(r, u). (r, drop_handle E dir (drop_handle E it u))) (list_scan E it [] u) = Some (r, t)"
      using 2(3) q Ok x by (simp add: fat_list_run)
    then obtain y where "list_scan E it [] u = Some (r, y)" by (cases "list_scan E it [] u") auto
    then show ?thesis by (rule list_scan_safe [OF u(2), THEN conjunct1])
  qed (use 2(3) q u in \<open>auto simp: fat_list_run\<close>)
next
  case (3 g)
  then have "in_ext4 s" by (simp add: in_ext4_def)
  moreover have "ext_list E v s = (r, t)" using 3(3) by simp
  ultimately show ?thesis by (rule safeD [OF ext_list_safe [OF assms(1)], THEN conjunct1])
qed simp

section \<open>Properties\<close>

lemma as_outcome_calm [simp]: "fst (as_outcome y) \<noteq> Panicked" "as_outcome y \<noteq> (Panicked, t)"
proof -
  show "fst (as_outcome y) \<noteq> Panicked" by (auto simp: as_outcome_def split: prod.split sum.split)
  then show "as_outcome y \<noteq> (Panicked, t)" by auto
qed

lemma as_outcome_act: "calm (\<lambda>d. as_outcome (f d))"
  by (rule calmI) simp

lemma mount_safe: "calm (mount X D)"
proof -
  have "calm (inspect X D)" unfolding inspect_def
    by (intro safe_intros as_outcome_act) (auto simp: safe_def split: prod.split sum.split)
  moreover have "calm (\<lambda>e. if is_writable D e then as_outcome (run (serve D) (x_mount_recovering X) e)
      else as_outcome (run (serve D) (x_mount X) e))" by (rule calmI) simp
  ultimately have "calm (and_then (inspect X D) (\<lambda>i. case write_blocker i of
      Some reason \<Rightarrow> fail (Corrupt reason)
    | None \<Rightarrow> (\<lambda>e. if is_writable D e then as_outcome (run (serve D) (x_mount_recovering X) e)
        else as_outcome (run (serve D) (x_mount X) e))))" by (intro safe_intros)
  then show ?thesis by (auto simp: safe_def mount_def)
qed

lemma erased_calm: "calm m \<Longrightarrow> erased m s = Some (r, t) \<Longrightarrow> r \<noteq> Panicked"
  by (cases "m s"; cases "fst (m s)") (auto simp: safe_def erased_def erase_def dest: spec [of _ s])

lemma abort_calm: "calm (fs_abort E)"
  by (rule calmI) (simp add: abort_run)

lemmas calm_operations = operations_safe [THEN erased_calm] publishing_safe [THEN erased_calm] inspect_safe [THEN erased_calm]
  finish_safe [THEN erased_calm] fs_stat_safe [THEN erased_calm] abort_calm [THEN erased_calm]

text \<open>
  C22: No filesystem operation panics: no slice of a path, no \<open>unwrap\<close> of the mounted engine or of a
  split path, no call of the wrong engine, in any state of the session and for every path, offset
  and byte count; only \<open>list\<close> needs that the ext4 engine's block size, which its own mount checks,
  is not zero. Opening does not panic either.
\<close>

theorem session_never_panics:
  assumes "\<And>x. sb_block_size (x_super (mounting E) x) \<noteq> 0"
  shows "(\<forall>op s r t. fs_apply E op s = Some (r, t) \<longrightarrow> r \<noteq> Panicked) \<and> fst (fs_open E kind rw d) \<noteq> Panicked"
proof (intro conjI allI impI)
  fix op s r t assume run: "fs_apply E op s = Some (r, t)"
  show "r \<noteq> Panicked"
  proof (cases op)
    case (List v)
    then obtain q where "fs_list E v s = Some (q, t)" "r = map_outcome id (\<lambda>_. ()) q" using run by (auto simp: erase_def)
    then show ?thesis using fs_list_safe [OF assms] by (cases q) auto
  qed (use run in \<open>auto dest: calm_operations\<close>)
next
  show "fst (fs_open E kind rw d) \<noteq> Panicked"
    using safe_total [OF mount_safe [of "mounting E" "guarded_device (broker E)"], of "\<lparr>inner = d, writable = rw, retired = False\<rparr>"]
    by (auto simp: fs_open_def Let_def split: prod.split sum.split outcome.split)
qed

theorem session_never_panics_witness:
  "\<exists>r t. fs_apply (sample_engines logged_ram) (List [47]) (ext4_session False) = Some (r, t) \<and> r \<noteq> Panicked"
proof -
  have "mounted (ext4_session False) = Some (Ext4 ())" "fs_usable (ext4_session False)" "path [47] = Inr [47]"
    by (simp_all add: ext4_session_def fs_usable_def path_def slash_def)
  then have "\<exists>r t. fs_apply (sample_engines logged_ram) (List [47]) (ext4_session False) = Some (r, t)"
    by (auto simp: fs_list_def and_then_def check_path_run check_mounted_run erase_def split: prod.split)
  moreover have "sb_block_size (x_super (mounting (sample_engines logged_ram)) x) \<noteq> 0" for x
    by (simp add: eager_ext4_def clean_super_def)
  note session_never_panics [of "sample_engines logged_ram", OF this]
  ultimately show ?thesis by blast
qed

end
