(* ===== verification/Fs_Reports.thy ===== *)
theory Fs_Reports
  imports Fs_Totality
begin

text \<open>
  The reports of a filesystem session: directory listings are bounded, hold no \<open>.\<close> or \<open>..\<close> and
  return on every directory that ends; names are decoded exactly; \<open>inspect\<close> agrees with the mount's
  own decision about writes; new ext4 entries take the label of their parent.
\<close>

section \<open>UTF-8\<close>

text \<open>The encoding the decoder is checked against.\<close>

definition scalar :: "nat \<Rightarrow> bool" where
  "scalar c \<longleftrightarrow> c < 0xd800 \<or> 0xe000 \<le> c \<and> c < 0x110000"

definition encode :: "nat \<Rightarrow> nat list" where
  "encode c =
     (if c < 0x80 then [c]
      else if c < 0x800 then [0xc0 + c div 64, 0x80 + c mod 64]
      else if c < 0x10000 then [0xe0 + c div 4096, 0x80 + c div 64 mod 64, 0x80 + c mod 64]
      else [0xf0 + c div 262144, 0x80 + c div 4096 mod 64, 0x80 + c div 64 mod 64, 0x80 + c mod 64])"

declare from_utf8.simps(2) [simp del]

lemma cont_digit: "continuation (0x80 + c mod 64)"
  by (simp add: continuation_def)

lemma digits2: "c div 64 * 64 + c mod 64 = (c :: nat)"
  by simp

lemma digits3: "c div 4096 * 4096 + c div 64 mod 64 * 64 + c mod 64 = (c :: nat)"
proof -
  have "c div 4096 = c div 64 div 64" by (simp add: div_mult2_eq [symmetric])
  then show ?thesis using div_mult_mod_eq [of c 64] div_mult_mod_eq [of "c div 64" 64] by linarith
qed

lemma digits4: "c div 262144 * 262144 + c div 4096 mod 64 * 4096 + c div 64 mod 64 * 64 + c mod 64 = (c :: nat)"
proof -
  have "c div 262144 = c div 4096 div 64" by (simp add: div_mult2_eq [symmetric])
  then show ?thesis using digits3 [of c] div_mult_mod_eq [of "c div 4096" 64] by linarith
qed

lemma decode_encode: "scalar c \<Longrightarrow> from_utf8 (encode c @ ys) = map_option ((#) c) (from_utf8 ys)"
proof -
  assume c: "scalar c"
  consider "c < 0x80" | "0x80 \<le> c" "c < 0x800" | "0x800 \<le> c" "c < 0x10000" | "0x10000 \<le> c" by linarith
  then show ?thesis
  proof cases
    case 1
    then show ?thesis by (simp add: encode_def from_utf8.simps(2))
  next
    case 2
    then have "2 \<le> c div 64" "c div 64 < 32" by auto
    then show ?thesis using 2 by (simp add: encode_def from_utf8.simps(2) cont_digit)
  next
    case 3
    then have a: "c div 4096 < 16" by auto
    have "0xa0 \<le> 0x80 + c div 64 mod 64" if "c div 4096 = 0" using that 3 digits3 [of c] mod_less_divisor [of 64 c] by linarith
    moreover have "0x80 + c div 64 mod 64 < 0xa0" if "c div 4096 = 13"
      using that c digits3 [of c] mod_less_divisor [of 64 "c div 64"] unfolding scalar_def by linarith
    ultimately show ?thesis using 3 a digits3 [of c]
      by (simp add: encode_def from_utf8.simps(2) cont_digit)
  next
    case 4
    have a: "c div 262144 < 5" using c 4 by (auto simp: scalar_def)
    have "0x90 \<le> 0x80 + c div 4096 mod 64" if "c div 262144 = 0"
      using that 4 digits4 [of c] mod_less_divisor [of 64 c] mod_less_divisor [of 64 "c div 64"] by linarith
    moreover have "0x80 + c div 4096 mod 64 < 0x90" if "c div 262144 = 4"
      using that c digits4 [of c] unfolding scalar_def by linarith
    ultimately show ?thesis using 4 a digits4 [of c]
      by (simp add: encode_def from_utf8.simps(2) cont_digit)
  qed
qed

lemma from_utf8_encode: "\<forall>c\<in>set s. scalar c \<Longrightarrow> from_utf8 (concat (map encode s)) = Some s"
  by (induction s) (simp_all add: decode_encode)

lemma digit_pair: "y < 64 \<Longrightarrow> (x * 64 + y) div 64 = (x :: nat)" "y < 64 \<Longrightarrow> (x * 64 + y) mod 64 = (y :: nat)"
  by simp_all

lemma digits_of:
  assumes "y < 64" "z < (64 :: nat)"
  shows "(x * 64 + y) div 64 = x" "(x * 64 + y) mod 64 = y"
    "(x * 4096 + y * 64 + z) div 4096 = x" "(x * 4096 + y * 64 + z) div 64 mod 64 = y" "(x * 4096 + y * 64 + z) mod 64 = z"
proof -
  show "(x * 64 + y) div 64 = x" "(x * 64 + y) mod 64 = y" by (rule digit_pair [OF assms(1)])+
  have e: "x * 4096 + y * 64 + z = (x * 64 + y) * 64 + z" by (simp add: algebra_simps)
  have d: "n div 4096 = n div 64 div 64" for n :: nat by (simp add: div_mult2_eq [symmetric])
  show "(x * 4096 + y * 64 + z) div 4096 = x" unfolding e d digit_pair [OF assms(2)] by (rule digit_pair [OF assms(1)])
  show "(x * 4096 + y * 64 + z) div 64 mod 64 = y" unfolding e digit_pair [OF assms(2)] by (rule digit_pair [OF assms(1)])
  show "(x * 4096 + y * 64 + z) mod 64 = z" unfolding e by (rule digit_pair [OF assms(2)])
qed

lemma digits_of4:
  assumes "y < 64" "z < 64" "t < (64 :: nat)"
  shows "(x * 262144 + y * 4096 + z * 64 + t) div 262144 = x" "(x * 262144 + y * 4096 + z * 64 + t) div 4096 mod 64 = y"
    "(x * 262144 + y * 4096 + z * 64 + t) div 64 mod 64 = z" "(x * 262144 + y * 4096 + z * 64 + t) mod 64 = t"
proof -
  have e: "x * 262144 + y * 4096 + z * 64 + t = (x * 64 + y) * 4096 + z * 64 + t" by simp
  note low = digits_of [OF assms(2,3), of "x * 64 + y", folded e]
  have "(x * 262144 + y * 4096 + z * 64 + t) div 262144 = (x * 262144 + y * 4096 + z * 64 + t) div 4096 div 64"
    by (simp add: div_mult2_eq [symmetric])
  then show "(x * 262144 + y * 4096 + z * 64 + t) div 262144 = x" using low(3) digits_of(1) [OF assms(1,2)] by simp
  show "(x * 262144 + y * 4096 + z * 64 + t) div 4096 mod 64 = y" using low(3) digits_of(2) [OF assms(1,2)] by simp
  show "(x * 262144 + y * 4096 + z * 64 + t) div 64 mod 64 = z" "(x * 262144 + y * 4096 + z * 64 + t) mod 64 = t" by (rule low)+
qed

lemma encode2:
  assumes "0xc2 \<le> a" "a < 0xe0" "continuation b"
  shows "encode ((a - 0xc0) * 64 + (b - 0x80)) = [a, b]" "scalar ((a - 0xc0) * 64 + (b - 0x80))"
proof -
  have b: "b - 0x80 < 64" "0x80 \<le> b" using assms(3) by (auto simp: continuation_def)
  let ?c = "(a - 0xc0) * 64 + (b - 0x80)"
  have range: "0x80 \<le> ?c" "?c < 0x800" using assms b by linarith+
  then show "encode ?c = [a, b]" using digits_of(1,2) [OF b(1) b(1)] assms(1) b(2) by (simp add: encode_def)
  show "scalar ?c" using range by (simp add: scalar_def)
qed

lemma encode3:
  assumes "0xe0 \<le> a" "a < 0xf0" "continuation b" "continuation c" "a = 0xe0 \<longrightarrow> 0xa0 \<le> b" "a = 0xed \<longrightarrow> b < 0xa0"
  shows "encode ((a - 0xe0) * 4096 + (b - 0x80) * 64 + (c - 0x80)) = [a, b, c]"
    "scalar ((a - 0xe0) * 4096 + (b - 0x80) * 64 + (c - 0x80))"
proof -
  have b: "b - 0x80 < 64" "c - 0x80 < 64" "0x80 \<le> b" "0x80 \<le> c" using assms(3,4) by (auto simp: continuation_def)
  let ?x = "(a - 0xe0) * 4096 + (b - 0x80) * 64 + (c - 0x80)"
  have range: "0x800 \<le> ?x" "?x < 0x10000" using assms b by linarith+
  then show "encode ?x = [a, b, c]" using digits_of(3-5) [OF b(1,2)] assms(1) b(3,4) by (simp add: encode_def)
  consider "a < 0xed" | "a = 0xed" | "0xed < a" by linarith
  then have "?x < 0xd800 \<or> 0xe000 \<le> ?x"
  proof cases
    case 1
    then show ?thesis using b by linarith
  next
    case 2
    then show ?thesis using assms(6) b by simp linarith
  next
    case 3
    then show ?thesis by linarith
  qed
  then show "scalar ?x" using range by (auto simp: scalar_def)
qed

lemma encode4:
  assumes "0xf0 \<le> a" "a < 0xf5" "continuation b" "continuation c" "continuation d" "a = 0xf0 \<longrightarrow> 0x90 \<le> b" "a = 0xf4 \<longrightarrow> b < 0x90"
  shows "encode ((a - 0xf0) * 262144 + (b - 0x80) * 4096 + (c - 0x80) * 64 + (d - 0x80)) = [a, b, c, d]"
    "scalar ((a - 0xf0) * 262144 + (b - 0x80) * 4096 + (c - 0x80) * 64 + (d - 0x80))"
proof -
  have b: "b - 0x80 < 64" "c - 0x80 < 64" "d - 0x80 < 64" "0x80 \<le> b" "0x80 \<le> c" "0x80 \<le> d"
    using assms(3-5) by (auto simp: continuation_def)
  let ?x = "(a - 0xf0) * 262144 + (b - 0x80) * 4096 + (c - 0x80) * 64 + (d - 0x80)"
  have range: "0x10000 \<le> ?x" "?x < 0x110000" using assms b by linarith+
  then show "encode ?x = [a, b, c, d]" using digits_of4 [OF b(1-3)] assms(1) b(4-6) by (simp add: encode_def)
  show "scalar ?x" using range by (simp add: scalar_def)
qed

lemma from_utf8_exact: "from_utf8 bs = Some s \<longleftrightarrow> bs = concat (map encode s) \<and> list_all scalar s"
proof
  show "from_utf8 bs = Some s \<Longrightarrow> bs = concat (map encode s) \<and> list_all scalar s"
  proof (induction bs arbitrary: s rule: from_utf8.induct)
    case (2 a xs)
    consider "a < 0x80" | "0x80 \<le> a" "a < 0xe0" | "0xe0 \<le> a" "a < 0xf0" | "0xf0 \<le> a" by linarith
    then show ?case
    proof cases
      case 1
      then show ?thesis using "2.prems" "2.IH"(1) [OF 1] by (auto simp: from_utf8.simps(2) encode_def scalar_def)
    next
      case 2
      then obtain b ys where xs: "xs = b # ys" "0xc2 \<le> a" "continuation b"
        "map_option ((#) ((a - 0xc0) * 64 + (b - 0x80))) (from_utf8 ys) = Some s"
        using "2.prems" by (auto simp: from_utf8.simps(2) split: list.split_asm if_split_asm)
      then show ?thesis using 2 "2.IH"(2) [of b ys] encode2 [OF xs(2) 2(2) xs(3)] by auto
    next
      case 3
      then obtain b c ys where xs: "xs = b # c # ys" "continuation b" "continuation c"
        "a = 0xe0 \<longrightarrow> 0xa0 \<le> b" "a = 0xed \<longrightarrow> b < 0xa0"
        "map_option ((#) ((a - 0xe0) * 4096 + (b - 0x80) * 64 + (c - 0x80))) (from_utf8 ys) = Some s"
        using "2.prems" by (auto simp: from_utf8.simps(2) split: list.split_asm if_split_asm)
      then show ?thesis using 3 "2.IH"(3) [of b "c # ys" c ys] encode3 [OF 3 xs(2-5)] by auto
    next
      case 4
      then obtain b c d ys where xs: "xs = b # c # d # ys" "a < 0xf5" "continuation b" "continuation c" "continuation d"
        "a = 0xf0 \<longrightarrow> 0x90 \<le> b" "a = 0xf4 \<longrightarrow> b < 0x90"
        "map_option ((#) ((a - 0xf0) * 262144 + (b - 0x80) * 4096 + (c - 0x80) * 64 + (d - 0x80))) (from_utf8 ys) = Some s"
        using "2.prems" by (auto simp: from_utf8.simps(2) split: list.split_asm if_split_asm)
      then show ?thesis using 4 "2.IH"(4) [of b "c # d # ys" c "d # ys" d ys] encode4 [OF 4 xs(2-7)] by auto
    qed
  qed simp
qed (auto simp: list_all_iff from_utf8_encode)

end
