(* ===== verification/Fs_Directory.thy ===== *)
theory Fs_Directory
  imports Fs_Reports
begin

text \<open>
  Directory listings: bounded, without \<open>.\<close> and \<open>..\<close>, and returned on every directory that ends; and
  the two reports that must agree with the rest of the code, \<open>inspect\<close> with the mount's decision
  about writes, and the label of a new entry with its parent's.
\<close>

section \<open>Bounded listings\<close>

text \<open>
  The entries of each engine, as \<open>interface Entry\<close> of \<open>browser/filesystem.d.ts\<close> declares them: the inode
  and its generation are those of ext4 only.
\<close>

definition well_typed :: "bool \<Rightarrow> entry \<Rightarrow> bool" where
  "well_typed ext e \<longleftrightarrow>
     (if ext then entry_kind e \<in> {''file'', ''directory'', ''symlink'', ''other''} \<and> entry_inode e \<noteq> None \<and> entry_generation e \<noteq> None
      else entry_kind e \<in> {''file'', ''directory''} \<and> entry_inode e = None \<and> entry_generation e = None)"

lemma fat_entry_typed: "well_typed False (fat_entry item)"
  by (simp add: well_typed_def fat_entry_def)

definition listing :: "bool \<Rightarrow> entry list \<Rightarrow> bool" where
  "listing ext entries \<longleftrightarrow> length entries \<le> max_entries \<and>
     (\<forall>e\<in>set entries. entry_name e \<noteq> dot \<and> entry_name e \<noteq> dot_dot \<and> well_typed ext e)"

lemma listing_Nil: "listing ext []"
  by (simp add: listing_def)

lemma listing_snoc:
  "listing ext entries \<Longrightarrow> \<not> max_entries \<le> length entries \<Longrightarrow> entry_name e \<noteq> dot \<Longrightarrow> entry_name e \<noteq> dot_dot \<Longrightarrow> well_typed ext e \<Longrightarrow>
    listing ext (entries @ [e])"
  by (auto simp: listing_def)

lemma list_scan_listing:
  fixes E :: "('d, 'f, 'h, 'g) engines"
  assumes "list_scan E it entries s = Some (Ok out, t)" "listing False entries"
  shows "listing False out"
proof -
  let ?P = "\<lambda>(E :: ('d, 'f, 'h, 'g) engines) (it :: 'h) entries (s :: ('d, 'f, 'g) session) (x :: (string, entry list) outcome \<times> ('d, 'f, 'g) session).
      listing False entries \<longrightarrow> (\<forall>out. fst x = Ok out \<longrightarrow> listing False out)"
  have "?P E it entries s (Ok out, t)"
  proof (rule list_scan.raw_induct [where P = ?P, OF _ assms(1)])
    fix f E it entries s x
    assume IH: "\<And>E it entries s x. f E it entries s = Some x \<Longrightarrow> ?P E it entries s x"
      and eq: "(case fat_run E (fat_next (fat E) it) s of
        (Ok None, t) \<Rightarrow> Some (Ok entries, t)
      | (Ok (Some (Inl e)), t) \<Rightarrow> Some (Err e, t)
      | (Ok (Some (Inr item)), t) \<Rightarrow>
          if item_name item = dot \<or> item_name item = dot_dot then f E it entries t
          else if max_entries \<le> length entries then Some (Err ''directory entry limit exceeded'', t)
          else f E it (entries @ [fat_entry item]) t
      | (Err e, t) \<Rightarrow> Some (Err e, t)
      | (Dropped, t) \<Rightarrow> Some (Dropped, t)
      | (Panicked, t) \<Rightarrow> Some (Panicked, t)) = Some x"
    obtain q u where q: "fat_run E (fat_next (fat E) it) s = (q, u)" by fastforce
    show "?P E it entries s x"
    proof (cases "\<exists>item. q = Ok (Some (Inr item))")
      case True
      then obtain item where item: "q = Ok (Some (Inr item))" by blast
      show ?thesis
      proof (cases "item_name item = dot \<or> item_name item = dot_dot")
        case True
        then have "f E it entries u = Some x" using eq q item by simp
        then show ?thesis by (rule IH)
      next
        case names: False
        show ?thesis
        proof (cases "max_entries \<le> length entries")
          case True
          then have "x = (Err ''directory entry limit exceeded'', u)" using eq q item names by simp
          then show ?thesis by simp
        next
          case False
          then have "f E it (entries @ [fat_entry item]) u = Some x" using eq q item names by simp
          moreover have "listing False (entries @ [fat_entry item])" if "listing False entries"
            by (rule listing_snoc [OF that False _ _ fat_entry_typed]) (use names in \<open>simp_all add: fat_entry_def\<close>)
          ultimately show ?thesis using IH by blast
        qed
      qed
    next
      case False
      then have "fst x = Ok entries \<or> (\<nexists>out. fst x = Ok out)"
        using eq q by (cases q) (auto split: option.split_asm sum.split_asm)
      then show ?thesis by auto
    qed
  qed
  then show ?thesis using assms(2) by simp
qed

lemma decode_dot: "decode_name E name s = (Ok out, t) \<Longrightarrow> name \<noteq> [46] \<Longrightarrow> name \<noteq> [46, 46] \<Longrightarrow> out \<noteq> dot \<and> out \<noteq> dot_dot"
proof -
  assume run: "decode_name E name s = (Ok out, t)" and names: "name \<noteq> [46]" "name \<noteq> [46, 46]"
  then have "map unat name = concat (map encode out)" by (simp add: decode_name_def act_iffs from_utf8_exact)
  then have "map of_nat (map unat name) = map (of_nat :: nat \<Rightarrow> u8) (concat (map encode out))" by (rule arg_cong)
  then have "name = map of_nat (concat (map encode out))" by (simp add: comp_def)
  then show ?thesis using names by (auto simp: dot_def dot_dot_def encode_def)
qed

lemma list_dirents_listing:
  "list_dirents E ds entries s = (Ok out, t) \<Longrightarrow> listing True entries \<Longrightarrow> listing True out"
proof (induction ds arbitrary: entries s)
  case (Cons d ds)
  show ?case
  proof (cases "dirent_name d = [46] \<or> dirent_name d = [46, 46]")
    case True
    then show ?thesis using Cons by auto
  next
    case False
    then obtain name node u v where room: "\<not> max_entries \<le> length entries" and name: "decode_name E (dirent_name d) u = (Ok name, v)" and
      rest: "list_dirents E ds (entries @ [\<lparr>entry_name = name, entry_kind = list_kind node, entry_size = inode_size node,
          entry_inode = Some (dirent_inode d), entry_generation = Some (inode_generation node)\<rparr>]) v = (Ok out, t)"
      using Cons.prems(1) by (auto simp: and_then_Ok act_iffs split: if_split_asm)
    have "name \<noteq> dot" "name \<noteq> dot_dot" using decode_dot [OF name] False by auto
    moreover have "well_typed True \<lparr>entry_name = name, entry_kind = list_kind node, entry_size = inode_size node,
        entry_inode = Some (dirent_inode d), entry_generation = Some (inode_generation node)\<rparr>"
      by (simp add: well_typed_def list_kind_def)
    ultimately show ?thesis using Cons.IH [OF rest] listing_snoc [OF Cons.prems(2) room] by simp
  qed
qed (simp add: act_iffs)

lemma list_blocks_listing:
  "list_blocks E ino node ls entries s = (Ok out, t) \<Longrightarrow> listing True entries \<Longrightarrow> listing True out"
proof (induction ls arbitrary: entries s)
  case (Cons l ls)
  obtain physical u where p: "as_text E (ext_call E (x_map_logical (ext4 E) node (of_nat l))) s = (Ok physical, u)"
    using Cons.prems(1) by (auto simp: and_then_Ok)
  show ?case
  proof (cases physical)
    case None
    then show ?thesis using Cons p by (simp add: and_then_run)
  next
    case (Some b)
    then obtain dirents mid x y where "list_dirents E dirents entries x = (Ok mid, y)" "list_blocks E ino node ls mid y = (Ok out, t)"
      using Cons.prems(1) p by (simp add: and_then_run) (auto simp: and_then_Ok)
    then show ?thesis using Cons.IH list_dirents_listing Cons.prems(2) by metis
  qed
qed (simp add: act_iffs)

lemma ext_list_listing: "ext_list E v s = (Ok out, t) \<Longrightarrow> listing True out"
  by (auto simp: ext_list_def and_then_Ok act_iffs split: if_split_asm dest!: list_blocks_listing intro: listing_Nil)

lemma fat_list_Ok:
  assumes "fat_list E v s = Some (Ok out, t)"
  obtains dir it u w where "fat_opening E v s = (Ok (dir, it), u)" "list_scan E it [] u = Some (Ok out, w)"
proof -
  obtain q u where q: "fat_opening E v s = (q, u)" by fastforce
  show thesis
  proof (cases q)
    case (Ok x)
    obtain dir it where x: "x = (dir, it)" by (cases x)
    have "map_option (\<lambda>(r, u). (r, drop_handle E dir (drop_handle E it u))) (list_scan E it [] u) = Some (Ok out, t)"
      using assms q Ok x by (simp add: fat_list_run)
    then obtain w where "list_scan E it [] u = Some (Ok out, w)" by (cases "list_scan E it [] u") auto
    then show ?thesis using that q Ok x by blast
  qed (use assms q in \<open>auto simp: fat_list_run\<close>)
qed

definition on_ext4 :: "('d, 'f, 'g) session \<Rightarrow> bool" where
  "on_ext4 s = (case mounted s of Some (Ext4 _) \<Rightarrow> True | _ \<Rightarrow> False)"

lemma fs_list_listing:
  assumes run: "fs_list E v s = Some (Ok out, t)"
  shows "listing (on_ext4 s) out"
  using run
proof (cases rule: fs_list_cases)
  case (2 f position)
  then have "fat_list E v s = Some (Ok out, t)" by simp
  then obtain dir it u w where "list_scan E it [] u = Some (Ok out, w)" by (rule fat_list_Ok)
  then have "listing False out" by (rule list_scan_listing) (rule listing_Nil)
  then show ?thesis using 2 by (simp add: on_ext4_def)
next
  case (3 g)
  then show ?thesis using ext_list_listing [of E v s out t] by (simp add: on_ext4_def)
qed simp

text \<open>What a lookup reports: an item of the FAT directory, or an inode that is no symbolic link.\<close>

lemma stat_scan_entry: "stat_scan E name it k s = (Ok e, t) \<Longrightarrow> \<exists>item. e = fat_entry item"
  by (induction k arbitrary: s) (auto simp: and_then_Ok act_iffs split: option.split_asm sum.split_asm if_split_asm)

lemma fat_stat_typed: "fat_stat E v s = (Ok e, t) \<Longrightarrow> well_typed False e \<and> entry_kind e \<noteq> ''symlink''"
  by (auto simp: fat_stat_def and_then_Ok scoped_Ok act_iffs well_typed_def fat_entry_def
      split: if_split_asm prod.split_asm dest!: stat_scan_entry)

lemma ext_stat_typed: "ext_stat E v s = (Ok e, t) \<Longrightarrow> well_typed True e \<and> entry_kind e \<noteq> ''symlink''"
  by (auto simp: ext_stat_def and_then_Ok act_iffs well_typed_def inode_kind_def split: if_split_asm)

lemma fs_stat_typed: "fs_stat E v s = (Ok e, t) \<Longrightarrow> well_typed (on_ext4 s) e \<and> entry_kind e \<noteq> ''symlink''"
  by (auto simp: fs_stat_def and_then_Ok check_path_Ok match_mounted_def check_mounted_run by_engine_def on_ext4_def
      split: if_split_asm option.split_asm mounted.split_asm dest: fat_stat_typed ext_stat_typed)

text \<open>
  C21: Entries have the type the interface \<open>Entry\<close> of the browser package declares. What \<open>list\<close> and \<open>stat\<close>
  return has one of the four kinds, on FAT only \<open>file\<close> and \<open>directory\<close>; the inode number and its
  generation are both present on ext4 and both absent on FAT. \<open>stat\<close>, which does not follow symbolic
  links, never reports one, so \<open>symlink\<close> appears in listings only.
\<close>

theorem entries_well_typed:
  "(\<forall>out t. fs_list E v s = Some (Ok out, t) \<longrightarrow> (\<forall>e\<in>set out. well_typed (on_ext4 s) e)) \<and>
   (\<forall>e t. fs_stat E v s = (Ok e, t) \<longrightarrow> well_typed (on_ext4 s) e \<and> entry_kind e \<noteq> ''symlink'')"
  using fs_list_listing [of E v s] fs_stat_typed [of E v s] unfolding listing_def by blast

theorem entries_well_typed_witness:
  "\<exists>e t. fs_stat (sample_engines logged_ram) [47] (fat_session False [] 0) = (Ok e, t) \<and> well_typed False e"
proof -
  obtain e t where run: "fs_stat (sample_engines logged_ram) [47] (fat_session False [] 0) = (Ok e, t)"
    by (simp add: fs_stat_def fat_stat_def slash_def and_then_def check_path_run path_def match_mounted_def
        check_mounted_run fs_usable_def by_engine_def act_simps)
  moreover have "\<not> on_ext4 (fat_session False [] 0)" by (simp add: on_ext4_def)
  ultimately show ?thesis
    using entries_well_typed [of "sample_engines logged_ram" "[47]" "fat_session False [] 0"] by auto
qed

section \<open>Listings return\<close>

text \<open>The state after \<open>k\<close> items of an iterator, and that it ends: in a last item or an error.\<close>

primrec after_items :: "('d, 'f, 'h, 'g) engines \<Rightarrow> 'h \<Rightarrow> nat \<Rightarrow> ('d, 'f, 'g) session \<Rightarrow> ('d, 'f, 'g) session" where
  "after_items E it 0 s = s"
| "after_items E it (Suc k) s = after_items E it k (snd (fat_run E (fat_next (fat E) it) s))"

definition yields :: "('d, 'f, 'h, 'g) engines \<Rightarrow> 'h \<Rightarrow> ('d, 'f, 'g) session \<Rightarrow> bool" where
  "yields E it s \<longleftrightarrow> (\<exists>item. fst (fat_run E (fat_next (fat E) it) s) = Ok (Some (Inr item)))"

lemma list_scan_returns: "\<not> yields E it (after_items E it k s) \<Longrightarrow> list_scan E it entries s \<noteq> None"
proof (induction k arbitrary: s entries)
  case 0
  then show ?case
    by (subst list_scan.simps) (auto simp: yields_def split: prod.split outcome.split option.split sum.split)
next
  case (Suc k)
  obtain q u where q: "fat_run E (fat_next (fat E) it) s = (q, u)" by fastforce
  have "list_scan E it entries' u \<noteq> None" for entries' using Suc q by simp
  then show ?case
    by (subst list_scan.simps) (simp add: q split: outcome.split option.split sum.split)
qed

text \<open>
  C18: Directory listings. A listing that succeeds has at most 4096 entries, none of them named \<open>.\<close> or
  \<open>..\<close>, from either engine. \<open>list\<close> always returns on ext4; on FAT, where entries named \<open>.\<close> and \<open>..\<close>
  do not count against the limit, it returns on every directory whose iterator ends, in an end or
  an error, after any number of items.
\<close>

theorem listing_bounded_and_returned:
  "(\<forall>out t. fs_list E v s = Some (Ok out, t) \<longrightarrow>
     length out \<le> max_entries \<and> (\<forall>e\<in>set out. entry_name e \<noteq> dot \<and> entry_name e \<noteq> dot_dot)) \<and>
   ((\<forall>f position. mounted s \<noteq> Some (Fat f position)) \<longrightarrow> fs_list E v s \<noteq> None) \<and>
   ((\<forall>dir it u. fat_opening E v s = (Ok (dir, it), u) \<longrightarrow> (\<exists>k. \<not> yields E it (after_items E it k u))) \<longrightarrow>
     fs_list E v s \<noteq> None)"
proof (intro conjI allI impI)
  fix out t assume run: "fs_list E v s = Some (Ok out, t)"
  show "length out \<le> max_entries" "\<forall>e\<in>set out. entry_name e \<noteq> dot \<and> entry_name e \<noteq> dot_dot"
    using fs_list_listing [OF run] by (auto simp: listing_def)
next
  assume "\<forall>f position. mounted s \<noteq> Some (Fat f position)"
  then show "fs_list E v s \<noteq> None" by (cases rule: fs_list_cases [OF refl, of E v s]) auto
next
  assume ends: "\<forall>dir it u. fat_opening E v s = (Ok (dir, it), u) \<longrightarrow> (\<exists>k. \<not> yields E it (after_items E it k u))"
  show "fs_list E v s \<noteq> None"
  proof (cases rule: fs_list_cases [OF refl, of E v s])
    case (2 f position)
    obtain q u where q: "fat_opening E v s = (q, u)" by fastforce
    show ?thesis
    proof (cases q)
      case (Ok x)
      obtain dir it where x: "x = (dir, it)" by (cases x)
      then obtain k where "\<not> yields E it (after_items E it k u)" using ends q Ok by blast
      then have "list_scan E it [] u \<noteq> None" by (rule list_scan_returns)
      then show ?thesis using 2(3) q Ok x by (auto simp: fat_list_run)
    qed (use 2(3) q in \<open>auto simp: fat_list_run\<close>)
  qed auto
qed

theorem listing_bounded_and_returned_witness:
  "fs_list (sample_engines logged_ram) [47] (fat_session False [] 0) \<noteq> None"
proof -
  let ?E = "sample_engines logged_ram" and ?s = "fat_session False [] 0"
  have opens: "fat_opening ?E [47] ?s = (Ok ((), ()), ?s)"
    by (simp add: fat_opening_def slash_def fat_root_dir_def fat_dir_iter_def sample_run sample_fat_def and_then_def act_simps)
  have "\<not> yields ?E () (after_items ?E () 1 ?s)"
    by (simp add: yields_def sample_run sample_fat_def)
  then have "\<forall>dir it u. fat_opening ?E [47] ?s = (Ok (dir, it), u) \<longrightarrow> (\<exists>k. \<not> yields ?E it (after_items ?E it k u))"
    unfolding opens by blast
  then show ?thesis using listing_bounded_and_returned [of ?E "[47]" ?s] by blast
qed

section \<open>Reports that agree\<close>

lemma blocker_equal: "session_blocker E sb j = find_blocker (mounting E) sb j"
  by (auto simp: session_blocker_def session_supported_def find_blocker_def outstanding_error_def unsupported_journal_def split: option.split)

text \<open>
  Where a new ext4 entry takes its SELinux label from, and what a lookup calls it: for an accepted
  path the label comes from the directory that holds the entry, the root for an entry of the root,
  and the name reported is the last component.
\<close>

theorem label_comes_from_the_parent:
  assumes "list_all component (cs @ [c])"
  shows "label_parent (join_with slash (cs @ [c])) = (if cs = [] then [slash] else join_with slash cs) \<and>
    last (split_at slash (join_with slash (cs @ [c]))) = c"
proof
  have "rsplit_once slash (join_with slash (cs @ [c])) = Some (join_with slash cs, c)"
    using assms component_slash by (auto simp: rsplit_once_Some join_with_def)
  moreover have "join_with slash cs = [] \<longleftrightarrow> cs = []" by (cases cs) (auto simp: join_with_def)
  ultimately show "label_parent (join_with slash (cs @ [c])) = (if cs = [] then [slash] else join_with slash cs)"
    by (simp add: label_parent_def)
  have "split_at slash (tl (join_with slash (cs @ [c]))) = cs @ [c]"
    using assms by (intro split_components) (simp_all add: list_all_iff)
  moreover obtain rest where "join_with slash (cs @ [c]) = slash # rest" by (cases cs) (auto simp: join_with_def)
  ultimately show "last (split_at slash (join_with slash (cs @ [c]))) = c" by simp
qed

theorem label_comes_from_the_parent_witness:
  "label_parent [47, 97, 47, 98] = [47, 97] \<and> label_parent [47, 97] = [47]"
proof -
  have c: "component [97]" "component [98]"
    by (simp_all add: component_def str_len_def utf8_width_def is_control_def reserved_def slash_def)
  then have "list_all component ([[97]] @ [[98]])" "list_all component ([] @ [[97]])" by simp_all
  from label_comes_from_the_parent [OF this(1)] label_comes_from_the_parent [OF this(2)]
  show ?thesis by (simp add: join_with_def slash_def)
qed

text \<open>
  \<open>inspect\<close> tells what \<open>mount\<close> would do. On the same superblock and journal the write blocker a
  session reports is the one that makes the ext4 adapter refuse a writable mount, and a format is
  reported as supported exactly if the adapter finds a journal it can replay; the two are written
  out separately in the code. The free bytes of a FAT volume, a product of two 32-bit numbers,
  are exact; those of an ext4 volume are exact if the product is below 2^64, and are that product
  modulo 2^64 for a superblock that claims more.
\<close>

theorem inspect_agrees_with_mount:
  "session_blocker E sb j = find_blocker (mounting E) sb j \<and>
   (session_supported E sb j \<longleftrightarrow> (\<exists>k. j = Some k \<and> x_plain_recovery (mounting E) k (sb_block_size sb) (sb_blocks_count sb))) \<and>
   unat (ucast (free :: u32) * ucast (cluster :: u32) :: u64) = unat free * unat cluster \<and>
   unat (sb_free_blocks sb * ucast (sb_block_size sb)) = unat (sb_free_blocks sb) * unat (sb_block_size sb) mod 2 ^ 64"
proof (intro conjI)
  show "session_blocker E sb j = find_blocker (mounting E) sb j" by (rule blocker_equal)
  show "session_supported E sb j \<longleftrightarrow> (\<exists>k. j = Some k \<and> x_plain_recovery (mounting E) k (sb_block_size sb) (sb_blocks_count sb))"
    by (auto simp: session_supported_def split: option.split)
  have wide: "unat (ucast w :: u64) = unat w" for w :: u32
    using unat_bound [of w] by (simp add: unsigned_ucast_eq take_bit_nat_eq_self)
  have "unat free * unat cluster < 2 ^ 32 * 2 ^ 32"
    using unat_bound [of free] unat_bound [of cluster] by (intro mult_strict_mono') auto
  then show "unat (ucast free * ucast cluster :: u64) = unat free * unat cluster"
    by (simp add: unat_word_ariths wide)
  show "unat (sb_free_blocks sb * ucast (sb_block_size sb)) = unat (sb_free_blocks sb) * unat (sb_block_size sb) mod 2 ^ 64"
    by (simp add: unat_word_ariths wide)
qed

end
