(* ===== verification/Broker_View.thy ===== *)
theory Broker_View
  imports Fs_Properties
begin

text \<open>
  A session sees its device only through \<open>Guarded\<close>, so two devices that answer alike behind the bounds
  of \<open>Guarded\<close> cannot be told apart by it: \<open>open\<close> and every operation are the same over both.
\<close>

section \<open>Devices that are the same behind their bounds\<close>

definition alike :: "'d block_device \<Rightarrow> 'd block_device \<Rightarrow> bool" where
  "alike D C \<longleftrightarrow> guarded_device D = guarded_device C \<and> size_of D = size_of C \<and> is_writable D = is_writable C"

named_theorems seen_alike

text \<open>Rewriting under every branch.\<close>

lemmas branches = option.case_cong sum.case_cong prod.case_cong outcome.case_cong mounted.case_cong seek_from.case_cong if_cong

lemma alike_fields [seen_alike]:
  assumes "alike D C"
  shows "guarded_device C = guarded_device D" "guarded_flush C = guarded_flush D" "size_of C = size_of D"
    "is_writable C = is_writable D" "io_serve uw text C = io_serve uw text D"
proof -
  note same = assms [unfolded alike_def]
  have parts: "guarded_read C = guarded_read D" "guarded_write C = guarded_write D" "guarded_flush C = guarded_flush D"
    using same by (simp_all add: guarded_device_def)
  then show "guarded_device C = guarded_device D" "guarded_flush C = guarded_flush D" "size_of C = size_of D"
    "is_writable C = is_writable D" using same by simp_all
  show "io_serve uw text C = io_serve uw text D"
  proof (intro ext)
    fix q x
    show "io_serve uw text C q x = io_serve uw text D q x"
      using parts same by (cases q) (simp_all add: io_serve_def io_read_def io_write_def io_flush_def io_seek_def cong: branches)
  qed
qed

lemma fat_run_alike [seen_alike]: "alike (broker E) C \<Longrightarrow> fat_run (E\<lparr>broker := C\<rparr>) p = fat_run E p"
  by (rule ext) (simp add: fat_run_def alike_fields cong: branches)

lemma ext_call_alike [seen_alike]: "alike (broker E) C \<Longrightarrow> ext_call (E\<lparr>broker := C\<rparr>) p = ext_call E p"
  by (rule ext) (simp add: ext_call_def alike_fields cong: branches)

lemma calls_alike [seen_alike]:
  assumes "alike (broker E) C"
  shows "fat_call (E\<lparr>broker := C\<rparr>) p = fat_call E p" "drop_handle (E\<lparr>broker := C\<rparr>) h = drop_handle E h"
    "scoped (E\<lparr>broker := C\<rparr>) h m = scoped E h m" "device_flush (E\<lparr>broker := C\<rparr>) = device_flush E"
    "as_text (E\<lparr>broker := C\<rparr>) n = as_text E n"
  using assms by (simp_all add: fun_eq_iff fat_call_def drop_handle_def scoped_def as_text_def device_flush_def seen_alike cong: branches)

section \<open>The operations\<close>

lemma stat_scan_alike [seen_alike]: "alike (broker E) C \<Longrightarrow> stat_scan (E\<lparr>broker := C\<rparr>) name it n = stat_scan E name it n"
  by (induction n) (simp_all add: seen_alike matches_def cong: branches)

lemma stat_alike [seen_alike]:
  assumes "alike (broker E) C"
  shows "fs_stat (E\<lparr>broker := C\<rparr>) = fs_stat E" "expect_absent (E\<lparr>broker := C\<rparr>) = expect_absent E"
    "ext_inode (E\<lparr>broker := C\<rparr>) = ext_inode E" "inherit_label (E\<lparr>broker := C\<rparr>) = inherit_label E"
    "fat_made (E\<lparr>broker := C\<rparr>) = fat_made E"
proof -
  show node: "ext_inode (E\<lparr>broker := C\<rparr>) = ext_inode E" using assms by (intro ext) (simp add: ext_inode_def seen_alike cong: branches)
  show stat: "fs_stat (E\<lparr>broker := C\<rparr>) = fs_stat E" using assms node
    by (intro ext) (simp add: fs_stat_def fat_stat_def ext_stat_def fat_root_dir_def fat_dir_iter_def seen_alike cong: branches)
  show "expect_absent (E\<lparr>broker := C\<rparr>) = expect_absent E" "inherit_label (E\<lparr>broker := C\<rparr>) = inherit_label E"
    "fat_made (E\<lparr>broker := C\<rparr>) = fat_made E"
    using assms by (intro ext; simp add: expect_absent_def inherit_label_def fat_made_def stat node seen_alike cong: branches)+
qed

lemma read_loop_over:
  assumes "alike (broker E) C"
  shows "read_loop (E\<lparr>broker := C\<rparr>) h buf count s = read_loop E h buf count s"
  using assms
proof (induction "length buf - count" arbitrary: buf count s rule: less_induct)
  case less
  have deeper: "read_loop (E\<lparr>broker := C\<rparr>) h (overlay count data buf) (count + n) t =
      read_loop E h (overlay count data buf) (count + n) t" if "count < length buf" "n \<noteq> 0" for n t data
    using less that by simp
  show ?case
  proof (cases "count < length buf")
    case True
    obtain q t where q: "fat_call E (fat_read (fat E) h (length buf - count)) s = (q, t)" by fastforce
    then have q': "fat_call (E\<lparr>broker := C\<rparr>) (fat_read (fat (E\<lparr>broker := C\<rparr>)) h (length buf - count)) s = (q, t)"
      using less.prems by (simp add: seen_alike)
    show ?thesis unfolding read_loop.simps [of "E\<lparr>broker := C\<rparr>" h buf count] read_loop.simps [of E h buf count] q q'
      using deeper [OF True] by (auto split: outcome.split)
  qed (simp add: read_loop.simps [of _ h buf count])
qed

lemma read_loop_alike [seen_alike]:
  "alike (broker E) C \<Longrightarrow> read_loop (E\<lparr>broker := C\<rparr>) h buf count = read_loop E h buf count"
  by (rule ext) (rule read_loop_over)

lemma read_alike [seen_alike]: "alike (broker E) C \<Longrightarrow> fs_read (E\<lparr>broker := C\<rparr>) = fs_read E"
  by (intro ext) (simp add: fs_read_def fat_read_file_def ext_read_file_def seen_alike cong: branches)

lemma mutations_alike [seen_alike]:
  assumes "alike (broker E) C"
  shows "fs_create_file (E\<lparr>broker := C\<rparr>) = fs_create_file E" "fs_write (E\<lparr>broker := C\<rparr>) = fs_write E"
    "fs_truncate (E\<lparr>broker := C\<rparr>) = fs_truncate E" "fs_mkdir (E\<lparr>broker := C\<rparr>) = fs_mkdir E"
    "fs_remove (E\<lparr>broker := C\<rparr>) = fs_remove E" "fs_rename (E\<lparr>broker := C\<rparr>) = fs_rename E"
  using assms
  by (intro ext; simp add: fs_create_file_def fs_write_def fs_truncate_def fs_mkdir_def fs_remove_def fs_rename_def
      fat_write_def ext_write_def fat_shrink_def ext_shrink_def seen_alike cong: branches)+

lemma endings_alike [seen_alike]:
  assumes "alike (broker E) C"
  shows "fs_flush (E\<lparr>broker := C\<rparr>) = fs_flush E" "fs_fresh_read (E\<lparr>broker := C\<rparr>) = fs_fresh_read E"
    "fs_abort (E\<lparr>broker := C\<rparr>) = fs_abort E" "fs_finish (E\<lparr>broker := C\<rparr>) = fs_finish E"
    "fs_inspect (E\<lparr>broker := C\<rparr>) = fs_inspect E"
proof -
  have parts: "fat_publish (E\<lparr>broker := C\<rparr>) = fat_publish E" "drop_mounted (E\<lparr>broker := C\<rparr>) = drop_mounted E"
    "unmount (E\<lparr>broker := C\<rparr>) = unmount E"
    using assms by (intro ext; simp add: fat_publish_def drop_mounted_def unmount_def seen_alike cong: branches)+
  show "fs_flush (E\<lparr>broker := C\<rparr>) = fs_flush E" "fs_fresh_read (E\<lparr>broker := C\<rparr>) = fs_fresh_read E"
    using assms by (simp_all add: fs_flush_def fs_fresh_read_def parts seen_alike)
  show abort: "fs_abort (E\<lparr>broker := C\<rparr>) = fs_abort E" by (simp add: fs_abort_def parts)
  show "fs_finish (E\<lparr>broker := C\<rparr>) = fs_finish E" using assms by (simp add: fs_finish_def abort parts seen_alike cong: branches)
  show "fs_inspect (E\<lparr>broker := C\<rparr>) = fs_inspect E" using assms
    by (intro ext) (simp add: fs_inspect_def fat_inspect_def ext_inspect_def session_blocker_def session_supported_def
        seen_alike cong: branches)
qed

lemma dirents_alike [seen_alike]:
  "alike (broker E) C \<Longrightarrow> list_dirents (E\<lparr>broker := C\<rparr>) ds entries = list_dirents E ds entries"
  by (induction ds arbitrary: entries) (simp_all add: seen_alike decode_name_def cong: branches)

lemma blocks_alike [seen_alike]:
  "alike (broker E) C \<Longrightarrow> list_blocks (E\<lparr>broker := C\<rparr>) ino node ls = list_blocks E ino node ls"
  by (induction ls; rule ext) (simp_all add: seen_alike cong: branches)

lemma list_scan_over:
  assumes "list_scan E it entries s = Some y" "alike (broker E) C"
  shows "list_scan (E\<lparr>broker := C\<rparr>) it entries s = Some y"
proof -
  let ?P = "\<lambda>E it entries s y. alike (broker E) C \<longrightarrow> list_scan (E\<lparr>broker := C\<rparr>) it entries s = Some y"
  have "?P E it entries s y"
  proof (rule list_scan.raw_induct [where P = ?P, OF _ assms(1)])
    fix f E it entries s y
    assume IH: "\<And>E it entries s y. f E it entries s = Some y \<Longrightarrow> ?P E it entries s y"
      and body: "(case fat_run E (fat_next (fat E) it) s of
        (Ok None, t) \<Rightarrow> Some (Ok entries, t)
      | (Ok (Some (Inl e)), t) \<Rightarrow> Some (Err e, t)
      | (Ok (Some (Inr item)), t) \<Rightarrow>
          if item_name item = dot \<or> item_name item = dot_dot then f E it entries t
          else if max_entries \<le> length entries then Some (Err ''directory entry limit exceeded'', t)
          else f E it (entries @ [fat_entry item]) t
      | (Err e, t) \<Rightarrow> Some (Err e, t)
      | (Dropped, t) \<Rightarrow> Some (Dropped, t)
      | (Panicked, t) \<Rightarrow> Some (Panicked, t)) = Some y"
    show "?P E it entries s y"
    proof
      assume C: "alike (broker E) C"
      then show "list_scan (E\<lparr>broker := C\<rparr>) it entries s = Some y" using body
        by (subst list_scan.simps)
          (auto simp: seen_alike IH split: prod.splits outcome.splits option.splits sum.splits if_splits)
    qed
  qed
  then show ?thesis using assms(2) by blast
qed

lemma list_scan_alike [seen_alike]:
  assumes "alike (broker E) C"
  shows "list_scan (E\<lparr>broker := C\<rparr>) it entries s = list_scan E it entries s"
proof (cases "list_scan E it entries s")
  case None
  have "alike (broker (E\<lparr>broker := C\<rparr>)) (broker E)" using assms by (simp add: alike_def)
  from list_scan_over [OF _ this, of it entries s] None show ?thesis
    by (cases "list_scan (E\<lparr>broker := C\<rparr>) it entries s") auto
next
  case (Some y)
  then show ?thesis using list_scan_over [OF Some assms] by simp
qed

lemma list_alike [seen_alike]: "alike (broker E) C \<Longrightarrow> fs_list (E\<lparr>broker := C\<rparr>) = fs_list E"
  by (intro ext) (simp add: fs_list_def fat_list_def ext_list_def fat_root_dir_def fat_dir_iter_def seen_alike cong: branches)

lemma open_alike: "alike (broker E) C \<Longrightarrow> fs_open (E\<lparr>broker := C\<rparr>) = fs_open E"
  by (intro ext) (simp add: fs_open_def Let_def seen_alike cong: branches)

lemma apply_alike: "alike (broker E) C \<Longrightarrow> fs_apply (E\<lparr>broker := C\<rparr>) x = fs_apply E x"
  by (cases x) (simp_all add: seen_alike)

lemma steps_alike:
  assumes "alike (broker E) C"
  shows "fs_steps (E\<lparr>broker := C\<rparr>) s xs t \<longleftrightarrow> fs_steps E s xs t"
  by (induction xs arbitrary: s) (simp_all add: fs_steps_Nil fs_steps_Cons apply_alike [OF assms])

end
