(* ===== verification/Wasm_Filesystem.thy ===== *)
theory Wasm_Filesystem
  imports Fs_Directory Broker_View
begin

text \<open>
  \<open>canoe-fs/src/wasm.rs\<close>: the block device behind which the browser's storage broker stands, and
  the filesystem object the worker uses. The broker's three JavaScript functions and the
  serialisers are parameters; the broker takes its offsets as JavaScript numbers.
\<close>

section \<open>JavaScript numbers\<close>

text \<open>
  \<open>n as f64\<close> for an unsigned integer, as the integer it denotes: 53 significant bits, to nearest, ties
  to even.
\<close>

fun bit_length :: "nat \<Rightarrow> nat" where
  "bit_length n = (if n = 0 then 0 else Suc (bit_length (n div 2)))"

declare bit_length.simps [simp del]

definition as_f64 :: "nat \<Rightarrow> nat" where
  "as_f64 n =
     (if n < 2 ^ 53 then n
      else
        let e = bit_length n - 53; q = n div 2 ^ e; r = n mod 2 ^ e; half = 2 ^ (e - 1)
        in (if half < r \<or> r = half \<and> odd q then q + 1 else q) * 2 ^ e)"

section \<open>The broker device\<close>

record 'j storage_broker =
  storage_read :: "nat \<Rightarrow> nat \<Rightarrow> ('j, string, u8 list) call"
  storage_write :: "nat \<Rightarrow> u8 list \<Rightarrow> ('j, string, unit) call"
  storage_flush :: "('j, string, unit) call"

definition broker_error :: "string \<Rightarrow> ext_error" where
  "broker_error v = Io_Error (''storage broker: '' @ v)"

definition broker_result :: "(string + 'a) \<times> 'j \<Rightarrow> (ext_error + 'a) \<times> 'j" where
  "broker_result x = (case x of (Inl v, j) \<Rightarrow> (Inl (broker_error v), j) | (Inr a, j) \<Rightarrow> (Inr a, j))"

definition broker_device :: "'j storage_broker \<Rightarrow> u64 \<Rightarrow> bool \<Rightarrow> 'j block_device" where
  "broker_device B capacity rw = \<lparr>size_of = (\<lambda>_. capacity), is_writable = (\<lambda>_. rw),
     read_at = (\<lambda>offset len j. broker_result (storage_read B (as_f64 (unat offset)) len j)),
     write_at = (\<lambda>offset bytes j. broker_result (storage_write B (as_f64 (unat offset)) bytes j)),
     flush_device = (\<lambda>j. broker_result (storage_flush B j))\<rparr>"

section \<open>The browser's filesystem\<close>

definition filesystem_api_version :: u32 where
  "filesystem_api_version = 2"

definition open_filesystem ::
  "('j, 'f, 'h, 'g) engines \<Rightarrow> 'j storage_broker \<Rightarrow> string \<Rightarrow> bool \<Rightarrow> u64 \<Rightarrow> ('j, string, ('j, 'f, 'g) session) act" where
  "open_filesystem E B kind rw capacity j =
     (if capacity = 0 \<or> 9007199254740991 < unat capacity
      then (Err ''filesystem capacity is not exactly representable'', j)
      else fs_open (E\<lparr>broker := broker_device B capacity rw\<rparr>) kind rw j)"

text \<open>The methods forward; three of them serialise what the session returns.\<close>

definition js_inspect :: "('j, 'f, 'h, 'g) engines \<Rightarrow> (json \<Rightarrow> string + 'v) \<Rightarrow> ('j, 'f, 'g, 'v) fs_act" where
  "js_inspect E value = and_then (fs_inspect E) (\<lambda>report. from_sum (value report))"

definition js_stat :: "('j, 'f, 'h, 'g) engines \<Rightarrow> (entry \<Rightarrow> string + 'v) \<Rightarrow> ustr \<Rightarrow> ('j, 'f, 'g, 'v) fs_act" where
  "js_stat E value v = and_then (fs_stat E v) (\<lambda>item. from_sum (value item))"

definition js_list :: "('j, 'f, 'h, 'g) engines \<Rightarrow> (entry list \<Rightarrow> string + 'v) \<Rightarrow> ustr \<Rightarrow> ('j, 'f, 'g) session \<Rightarrow>
    ((string, 'v) outcome \<times> ('j, 'f, 'g) session) option" where
  "js_list E value v s = map_option (\<lambda>x. and_then (\<lambda>_. x) (\<lambda>items. from_sum (value items)) s) (fs_list E v s)"

definition js_read :: "('j, 'f, 'h, 'g) engines \<Rightarrow> ustr \<Rightarrow> u64 \<Rightarrow> u32 \<Rightarrow> ('j, 'f, 'g, u8 list) fs_act" where
  "js_read E v offset len = fs_read E v offset (unat len)"

definition js_write :: "('j, 'f, 'h, 'g) engines \<Rightarrow> ustr \<Rightarrow> u64 \<Rightarrow> u8 list \<Rightarrow> ('j, 'f, 'g, unit) fs_act" where
  "js_write E v offset bytes =
     (if max_file_chunk < length bytes then fail ''file write exceeds4MiB'' else fs_write E v offset bytes)"

definition js_usable :: "('j, 'f, 'g) session \<Rightarrow> bool" where
  "js_usable s = fs_usable s"

definition js_create_file :: "('j, 'f, 'h, 'g) engines \<Rightarrow> ustr \<Rightarrow> ('j, 'f, 'g, unit) fs_act" where
  "js_create_file E v = fs_create_file E v"

definition js_truncate :: "('j, 'f, 'h, 'g) engines \<Rightarrow> ustr \<Rightarrow> u64 \<Rightarrow> ('j, 'f, 'g, unit) fs_act" where
  "js_truncate E v len = fs_truncate E v len"

definition js_mkdir :: "('j, 'f, 'h, 'g) engines \<Rightarrow> ustr \<Rightarrow> ('j, 'f, 'g, unit) fs_act" where
  "js_mkdir E v = fs_mkdir E v"

definition js_remove :: "('j, 'f, 'h, 'g) engines \<Rightarrow> ustr \<Rightarrow> ('j, 'f, 'g, unit) fs_act" where
  "js_remove E v = fs_remove E v"

definition js_rename :: "('j, 'f, 'h, 'g) engines \<Rightarrow> ustr \<Rightarrow> ustr \<Rightarrow> ('j, 'f, 'g, unit) fs_act" where
  "js_rename E source destination = fs_rename E source destination"

definition js_flush :: "('j, 'f, 'h, 'g) engines \<Rightarrow> ('j, 'f, 'g, unit) fs_act" where
  "js_flush E = fs_flush E"

definition js_fresh_read :: "('j, 'f, 'h, 'g) engines \<Rightarrow> ('j, 'f, 'g, unit) fs_act" where
  "js_fresh_read E = fs_fresh_read E"

definition js_finish :: "('j, 'f, 'h, 'g) engines \<Rightarrow> ('j, 'f, 'g, unit) fs_act" where
  "js_finish E = fs_finish E"

definition js_abort :: "('j, 'f, 'h, 'g) engines \<Rightarrow> ('j, 'f, 'g, unit) fs_act" where
  "js_abort E = fs_abort E"

text \<open>
  A call the worker makes, its result erased. A length reaches \<open>read\<close> as a \<open>u32\<close>, to which JavaScript
  reduces a number modulo 2^32. The serialisers may fail on any value.
\<close>

record 'v serialisers =
  report_value :: "json \<Rightarrow> string + 'v"
  entry_value :: "entry \<Rightarrow> string + 'v"
  entries_value :: "entry list \<Rightarrow> string + 'v"

fun js_apply ::
  "('j, 'f, 'h, 'g) engines \<Rightarrow> 'v serialisers \<Rightarrow> fs_op \<Rightarrow> ('j, 'f, 'g) session \<Rightarrow> ((string, unit) outcome \<times> ('j, 'f, 'g) session) option" where
  "js_apply E V Inspect = erased (js_inspect E (report_value V))"
| "js_apply E V (Stat v) = erased (js_stat E (entry_value V) v)"
| "js_apply E V (List v) = (\<lambda>s. map_option erase (js_list E (entries_value V) v s))"
| "js_apply E V (Read v offset len) = erased (js_read E v offset (of_nat len))"
| "js_apply E V (Create v) = erased (js_create_file E v)"
| "js_apply E V (Write v offset bytes) = erased (js_write E v offset bytes)"
| "js_apply E V (Truncate v len) = erased (js_truncate E v len)"
| "js_apply E V (Mkdir v) = erased (js_mkdir E v)"
| "js_apply E V (Remove v) = erased (js_remove E v)"
| "js_apply E V (Rename v w) = erased (js_rename E v w)"
| "js_apply E V Flush = erased (js_flush E)"
| "js_apply E V Fresh_Read = erased (js_fresh_read E)"
| "js_apply E V Finish = erased (js_finish E)"
| "js_apply E V Abort = erased (js_abort E)"

inductive js_steps ::
  "('j, 'f, 'h, 'g) engines \<Rightarrow> 'v serialisers \<Rightarrow> ('j, 'f, 'g) session \<Rightarrow> fs_op list \<Rightarrow> ('j, 'f, 'g) session \<Rightarrow> bool" for E V where
  js_nil: "js_steps E V s [] s"
| js_cons: "js_steps E V s (x # xs) u" if "js_apply E V x s = Some (r, t)" "js_steps E V t xs u"

inductive_simps js_steps_Nil: "js_steps E V s [] t"
inductive_simps js_steps_Cons: "js_steps E V s (x # xs) u"

lemmas js_defs = js_inspect_def js_stat_def js_list_def js_read_def js_write_def js_create_file_def js_truncate_def
  js_mkdir_def js_remove_def js_rename_def js_flush_def js_fresh_read_def js_finish_def js_abort_def

section \<open>Browser calls are session operations\<close>

text \<open>The operation of the session a call of the worker stands for, if it gets that far.\<close>

fun session_op :: "fs_op \<Rightarrow> fs_op option" where
  "session_op (Read v offset len) = Some (Read v offset (len mod 2 ^ 32))"
| "session_op (Write v offset bytes) = (if max_file_chunk < length bytes then None else Some (Write v offset bytes))"
| "session_op x = Some x"

fun serialises :: "fs_op \<Rightarrow> bool" where
  "serialises Inspect = True"
| "serialises (Stat v) = True"
| "serialises (List v) = True"
| "serialises _ = False"

text \<open>Serialising what a call returned leaves its state alone, and can only turn an \<open>Ok\<close> into an error.\<close>

definition soured :: "bool \<Rightarrow> (string, unit) outcome \<Rightarrow> (string, unit) outcome \<Rightarrow> bool" where
  "soured may q r \<longleftrightarrow> r = q \<or> may \<and> q = Ok () \<and> (\<exists>e. r = Err e)"

text \<open>What a call of the worker does, given what the session's operation does.\<close>

definition forwards :: "bool \<Rightarrow> ((string, unit) outcome \<times> 's) option \<Rightarrow> ((string, unit) outcome \<times> 's) option \<Rightarrow> bool" where
  "forwards may session js \<longleftrightarrow> rel_option (\<lambda>(q, t) (r, u). u = t \<and> soured may q r) session js"

lemma forwards_refl: "forwards may x x"
  by (auto simp: forwards_def soured_def intro: option.rel_refl)

lemma serialised: "forwards True (Some (erase (m s))) (Some (erase (and_then m (\<lambda>a. from_sum (f a)) s)))"
proof -
  obtain r t where m: "m s = (r, t)" by fastforce
  then show ?thesis
    by (cases r) (auto simp: forwards_def erase_def and_then_run from_sum_def act_simps soured_def split: sum.split)
qed

lemma js_forwards:
  assumes "session_op x = Some y"
  shows "forwards (serialises x) (fs_apply E y s) (js_apply E V x s)"
proof (cases x)
  case (List v)
  then show ?thesis
    using assms serialised [of "\<lambda>_. the (fs_list E v s)" s "entries_value V"]
    by (cases "fs_list E v s") (auto simp: js_list_def forwards_def)
next
  case (Read v offset len)
  then show ?thesis using assms forwards_refl by (auto simp: js_defs unat_of_nat take_bit_nat_def)
next
  case (Write v offset bytes)
  then show ?thesis using assms forwards_refl by (auto simp: js_defs split: if_splits)
qed (use assms serialised in \<open>auto simp: js_defs erased_def intro!: forwards_refl\<close>)

lemma forwards_Some:
  "forwards may p (Some (r, t)) \<longleftrightarrow> (\<exists>q. p = Some (q, t) \<and> soured may q r)"
  by (cases p) (auto simp: forwards_def)

lemma js_too_long: "session_op x = None \<Longrightarrow> js_apply E V x s = Some (Err ''file write exceeds4MiB'', s)"
  by (cases x) (auto simp: js_defs erased_def erase_def act_simps split: if_splits)

lemma js_steps_session: "js_steps E V s xs t \<longleftrightarrow> fs_steps E s (List.map_filter session_op xs) t"
proof (induction xs arbitrary: s)
  case Nil
  then show ?case by (simp add: js_steps_Nil fs_steps_Nil)
next
  case (Cons x xs)
  show ?case
  proof (cases "session_op x")
    case None
    then show ?thesis using js_too_long [OF None, of E V s] by (simp add: js_steps_Cons Cons)
  next
    case (Some y)
    note step = js_forwards [OF Some, of E s V]
    show ?thesis
    proof (cases "fs_apply E y s")
      case None
      then show ?thesis using step Some by (auto simp: js_steps_Cons fs_steps_Cons forwards_def)
    next
      case (Some q)
      then show ?thesis using step \<open>session_op x = Some y\<close>
        by (cases q) (auto simp: js_steps_Cons fs_steps_Cons forwards_def option_rel_Some1 Cons)
    qed
  qed
qed

lemma serialise_identity: "and_then m (\<lambda>a. from_sum (Inr a)) = m"
  by (rule ext) (simp add: and_then_def from_sum_def ret_def split: prod.split outcome.split)

section \<open>Properties\<close>

text \<open>
  C20: The browser's object adds nothing to the session and takes nothing from it. A write of more than 4 MiB is
  refused before the session is called. Every other call is one operation of the session, the one of
  its name with its arguments (a length modulo 2^32): it returns when that does, leaves the session in
  the same state and has the same outcome, except that the result of an inspection, a \<open>stat\<close> or a
  \<open>list\<close> may fail to serialise; what is serialised is the session's result, and a read returns the
  session's bytes. So a sequence of calls runs exactly as the sequence of these operations does, and
  what is proved of \<open>fs_steps\<close> holds of the shipped interface.
\<close>

theorem browser_refines_session:
  "(\<forall>x. case session_op x of
      None \<Rightarrow> js_apply E V x s = Some (Err ''file write exceeds4MiB'', s)
    | Some y \<Rightarrow> (js_apply E V x s = None \<longleftrightarrow> fs_apply E y s = None) \<and>
        (\<forall>r t. js_apply E V x s = Some (r, t) \<longrightarrow>
          (\<exists>q. fs_apply E y s = Some (q, t) \<and> (r = q \<or> serialises x \<and> q = Ok () \<and> (\<exists>e. r = Err e))))) \<and>
   (\<forall>xs t. js_steps E V s xs t \<longleftrightarrow> fs_steps E s (List.map_filter session_op xs) t) \<and>
   js_inspect E Inr = fs_inspect E \<and> js_stat E Inr v = fs_stat E v \<and> js_list E Inr v = fs_list E v \<and>
   js_read E v offset len = fs_read E v offset (unat len) \<and> js_usable s = fs_usable s"
proof (intro conjI allI)
  fix x
  show "case session_op x of
      None \<Rightarrow> js_apply E V x s = Some (Err ''file write exceeds4MiB'', s)
    | Some y \<Rightarrow> (js_apply E V x s = None \<longleftrightarrow> fs_apply E y s = None) \<and>
        (\<forall>r t. js_apply E V x s = Some (r, t) \<longrightarrow>
          (\<exists>q. fs_apply E y s = Some (q, t) \<and> (r = q \<or> serialises x \<and> q = Ok () \<and> (\<exists>e. r = Err e))))"
  proof (cases "session_op x")
    case None
    then show ?thesis using js_too_long by simp
  next
    case (Some y)
    have "js_apply E V x s = None \<longleftrightarrow> fs_apply E y s = None"
      using js_forwards [OF Some, of E s V] by (auto simp: forwards_def)
    moreover have "\<exists>q. fs_apply E y s = Some (q, t) \<and> (r = q \<or> serialises x \<and> q = Ok () \<and> (\<exists>e. r = Err e))"
      if "js_apply E V x s = Some (r, t)" for r t
      using js_forwards [OF Some, of E s V] unfolding that forwards_Some soured_def by blast
    ultimately show ?thesis using Some by simp
  qed
  show "js_list E Inr v = fs_list E v"
    by (rule ext) (simp add: js_list_def serialise_identity option.map_ident)
qed (simp_all add: js_steps_session js_inspect_def js_stat_def js_read_def js_usable_def serialise_identity)

theorem browser_refines_session_witness:
  "\<exists>t. js_steps (sample_engines logged_ram) \<lparr>report_value = Inr, entry_value = Inr \<circ> (\<lambda>_. JNull), entries_value = Inr \<circ> (\<lambda>_. JNull)\<rparr>
     (fat_session True [] 0) [Abort] t \<and> fs_steps (sample_engines logged_ram) (fat_session True [] 0) [Abort] t"
proof -
  let ?V = "\<lparr>report_value = Inr, entry_value = Inr \<circ> (\<lambda>_. JNull), entries_value = Inr \<circ> (\<lambda>_. JNull)\<rparr>"
  obtain t where t: "js_steps (sample_engines logged_ram) ?V (fat_session True [] 0) [Abort] t"
    by (auto simp: js_steps_Cons js_steps_Nil erased_def erase_def js_abort_def abort_run)
  then show ?thesis
    using browser_refines_session [of "sample_engines logged_ram" ?V "fat_session True [] 0"] by (auto simp: map_filter_simps)
qed

lemma as_f64_exact: "n < 2 ^ 53 \<Longrightarrow> as_f64 n = n"
  by (simp add: as_f64_def)

text \<open>The device as it would be if JavaScript numbers were integers.\<close>

definition exact_device :: "'j storage_broker \<Rightarrow> u64 \<Rightarrow> bool \<Rightarrow> 'j block_device" where
  "exact_device B capacity rw = \<lparr>size_of = (\<lambda>_. capacity), is_writable = (\<lambda>_. rw),
     read_at = (\<lambda>offset len j. broker_result (storage_read B (unat offset) len j)),
     write_at = (\<lambda>offset bytes j. broker_result (storage_write B (unat offset) bytes j)),
     flush_device = (\<lambda>j. broker_result (storage_flush B j))\<rparr>"

text \<open>A broker that keeps a log of the numbers it is called with.\<close>

definition recorded :: "'j storage_broker \<Rightarrow> ('j \<times> event list) storage_broker" where
  "recorded B = \<lparr>storage_read = (\<lambda>n len (j, l). case storage_read B n len j of (r, k) \<Rightarrow> (r, (k, l @ [Did_Read (of_nat n) len (\<not> isl r)]))),
     storage_write = (\<lambda>n bytes (j, l). case storage_write B n bytes j of (r, k) \<Rightarrow> (r, (k, l @ [Did_Write (of_nat n) bytes (\<not> isl r)]))),
     storage_flush = (\<lambda>(j, l). case storage_flush B j of (r, k) \<Rightarrow> (r, (k, l @ [Did_Flush (\<not> isl r)])))\<rparr>"

lemma guarded_device_cong:
  assumes "\<And>offset len g. guarded_check D offset len g = None \<Longrightarrow> read_at D offset len (inner g) = read_at C offset len (inner g)"
    and "\<And>offset bytes g. guarded_check D offset (length bytes) g = None \<Longrightarrow> write_at D offset bytes (inner g) = write_at C offset bytes (inner g)"
    and "\<And>d. flush_device D d = flush_device C d" and size: "size_of D = size_of C" and "is_writable D = is_writable C"
  shows "alike D C"
proof -
  have check: "guarded_check C = guarded_check D" by (intro ext) (simp add: guarded_check_def size)
  have "guarded_read D offset len g = guarded_read C offset len g" for offset len g
    using assms(1) [of offset len g] by (simp add: guarded_read_def check split: option.split)
  moreover have "guarded_write D offset bytes g = guarded_write C offset bytes g" for offset bytes g
    using assms(2) [of offset bytes g] by (simp add: guarded_write_def check split: option.split)
  moreover have "guarded_flush D g = guarded_flush C g" for g
    using assms(3) by (simp add: guarded_flush_def check split: option.split)
  ultimately show ?thesis using size assms(5) by (simp add: alike_def guarded_device_def fun_eq_iff)
qed

lemma broker_fields:
  "size_of (broker_device B capacity rw) = (\<lambda>_. capacity)" "is_writable (broker_device B capacity rw) = (\<lambda>_. rw)"
  "size_of (exact_device B capacity rw) = (\<lambda>_. capacity)" "is_writable (exact_device B capacity rw) = (\<lambda>_. rw)"
  "size_of (logged (broker_device B capacity rw)) = (\<lambda>_. capacity)" "is_writable (logged (broker_device B capacity rw)) = (\<lambda>_. rw)"
  by (auto simp: broker_device_def exact_device_def logged_def)

lemma bounded_offset:
  assumes "unat capacity \<le> 9007199254740991" "size_of D = (\<lambda>_. capacity)" "guarded_check D offset len g = None"
  shows "as_f64 (unat offset) = unat offset"
  using assms by (intro as_f64_exact) (auto simp: guarded_check_def split: if_splits)

lemma exact_alike:
  assumes "unat capacity \<le> 9007199254740991"
  shows "alike (broker_device B capacity rw) (exact_device B capacity rw)"
proof (rule guarded_device_cong)
  note exact = bounded_offset [OF assms broker_fields(1)]
  show "read_at (broker_device B capacity rw) offset len (inner g) = read_at (exact_device B capacity rw) offset len (inner g)"
    if "guarded_check (broker_device B capacity rw) offset len g = None" for offset len g
    using exact [OF that] by (simp add: broker_device_def exact_device_def)
  show "write_at (broker_device B capacity rw) offset bytes (inner g) = write_at (exact_device B capacity rw) offset bytes (inner g)"
    if "guarded_check (broker_device B capacity rw) offset (length bytes) g = None" for offset bytes g
    using exact [OF that] by (simp add: broker_device_def exact_device_def)
qed (simp_all add: broker_device_def exact_device_def)

lemma broker_result_log:
  "broker_result (case y of (r, k) \<Rightarrow> (r, (k, l (\<not> isl r)))) = (case broker_result y of (r, k) \<Rightarrow> (r, (k, l (\<not> isl r))))"
  by (cases y; cases "fst y") (auto simp: broker_result_def)

lemma recorded_alike:
  assumes "unat capacity \<le> 9007199254740991"
  shows "alike (broker_device (recorded B) capacity rw) (logged (broker_device B capacity rw))"
proof (rule guarded_device_cong)
  note exact = bounded_offset [OF assms broker_fields(1)]
  show "read_at (broker_device (recorded B) capacity rw) offset len (inner g) = read_at (logged (broker_device B capacity rw)) offset len (inner g)"
    if "guarded_check (broker_device (recorded B) capacity rw) offset len g = None" for offset len g
    using exact [OF that]
      broker_result_log [where y = "storage_read B (unat offset) len (fst (inner g))" and l = "\<lambda>ok. snd (inner g) @ [Did_Read offset len ok]"]
    by (simp add: broker_device_def recorded_def logged_def case_prod_beta)
  show "write_at (broker_device (recorded B) capacity rw) offset bytes (inner g) = write_at (logged (broker_device B capacity rw)) offset bytes (inner g)"
    if "guarded_check (broker_device (recorded B) capacity rw) offset (length bytes) g = None" for offset bytes g
    using exact [OF that]
      broker_result_log [where y = "storage_write B (unat offset) bytes (fst (inner g))" and l = "\<lambda>ok. snd (inner g) @ [Did_Write offset bytes ok]"]
    by (simp add: broker_device_def recorded_def logged_def case_prod_beta)
  show "flush_device (broker_device (recorded B) capacity rw) d = flush_device (logged (broker_device B capacity rw)) d" for d
    using broker_result_log [where y = "storage_flush B (fst d)" and l = "\<lambda>ok. snd d @ [Did_Flush ok]"]
    by (simp add: broker_device_def recorded_def logged_def case_prod_beta)
qed (simp_all add: broker_fields)

text \<open>The first offset that is not a JavaScript number: it would be rounded down.\<close>

lemma bit_length_bounds: "2 ^ k \<le> n \<Longrightarrow> n < 2 ^ Suc k \<Longrightarrow> bit_length n = Suc k"
proof (induction k arbitrary: n)
  case 0
  then have "n = 1" by simp
  then show ?case by (simp add: bit_length.simps)
next
  case (Suc k)
  then have "2 ^ k \<le> n div 2" "n div 2 < 2 ^ Suc k" "n \<noteq> 0" by auto
  then show ?case using Suc.IH by (simp add: bit_length.simps [of n])
qed

lemma as_f64_rounds: "as_f64 (2 ^ 53 + 1) = 2 ^ 53"
proof -
  have "bit_length (2 ^ 53 + 1) = Suc 53" by (rule bit_length_bounds) simp_all
  then show ?thesis by (simp add: as_f64_def Let_def)
qed

lemma open_filesystem_cases:
  assumes "open_filesystem E B kind rw capacity j = (Ok s, x)"
  shows "capacity \<noteq> 0" "unat capacity \<le> 9007199254740991"
    "fs_open (E\<lparr>broker := broker_device B capacity rw\<rparr>) kind rw j = (Ok s, x)"
  using assms by (auto simp: open_filesystem_def split: if_splits)

text \<open>
  C23: Every offset the storage broker is given is exact. \<open>open_filesystem\<close> refuses every capacity but 1 to
  2^53 - 1 without calling the broker. Once it has opened a filesystem, for all engines and any
  sequence of operations, each call that reaches the broker lies inside the capacity, and on a
  session opened read-only none of them is a write. The conversion of offsets to JavaScript numbers,
  which rounds from 2^53 + 1 on, cannot be seen: opening and every operation are what they would be
  if the numbers were integers.
\<close>

theorem broker_offsets_exact:
  assumes "open_filesystem E (recorded B) kind rw capacity (j, []) = (Ok s, x)"
    and "fs_steps (E\<lparr>broker := broker_device (recorded B) capacity rw\<rparr>) s ops t"
  shows "1 \<le> unat capacity \<and> unat capacity \<le> 2 ^ 53 - 1 \<and>
    (\<forall>e\<in>set (device_log (guard t)). within_device capacity e \<and> (\<not> rw \<longrightarrow> \<not> writes e)) \<and>
    fs_open (E\<lparr>broker := exact_device (recorded B) capacity rw\<rparr>) kind rw (j, []) = (Ok s, x) \<and>
    (\<forall>y u. fs_apply (E\<lparr>broker := broker_device (recorded B) capacity rw\<rparr>) y u =
      fs_apply (E\<lparr>broker := exact_device (recorded B) capacity rw\<rparr>) y u) \<and>
    (\<forall>n w k. unat n = 0 \<or> 2 ^ 53 \<le> unat n \<longrightarrow>
      open_filesystem E (recorded B) kind w n k = (Err ''filesystem capacity is not exactly representable'', k))"
proof -
  let ?E = "E\<lparr>broker := broker_device (recorded B) capacity rw\<rparr>"
  let ?C = "logged (broker_device B capacity rw)"
  note opened = open_filesystem_cases [OF assms(1)]
  have same: "alike (broker ?E) ?C" "alike (broker ?E) (exact_device (recorded B) capacity rw)"
    using recorded_alike [OF opened(2)] exact_alike [OF opened(2)] by simp_all
  have E: "logging (?E\<lparr>broker := ?C\<rparr>) capacity" unfolding logging_def
    by (intro exI [of _ "broker_device B capacity rw"]) (simp add: broker_fields)
  have "fs_open (?E\<lparr>broker := ?C\<rparr>) kind rw (j, []) = (Ok s, x)" unfolding open_alike [OF same(1)] by (rule opened(3))
  then have "quiet capacity \<lparr>inner = (j, []), writable = rw, retired = False\<rparr> (guard s)" using fs_open_quiet [OF E] by blast
  moreover have "fs_steps (?E\<lparr>broker := ?C\<rparr>) s ops t" unfolding steps_alike [OF same(1)] by (rule assms(2))
  then have "quiet capacity (guard s) (guard t)" using fs_steps_stay [OF _ E] by (simp add: stays_def)
  ultimately have "quiet capacity \<lparr>inner = (j, []), writable = rw, retired = False\<rparr> (guard t)" by (rule quiet_trans)
  from quiet_unfold [OF this] have log: "\<forall>e\<in>set (device_log (guard t)). within_device capacity e \<and> (\<not> rw \<longrightarrow> \<not> writes e)" by auto
  have "fs_open (E\<lparr>broker := exact_device (recorded B) capacity rw\<rparr>) kind rw (j, []) = (Ok s, x)"
    using open_alike [OF same(2)] opened(3) by simp
  moreover have "fs_apply ?E y u = fs_apply (E\<lparr>broker := exact_device (recorded B) capacity rw\<rparr>) y u" for y u
    using apply_alike [OF same(2), of y] by simp
  moreover have "1 \<le> unat capacity" using opened(1) by (simp add: Suc_le_eq unat_gt_0)
  moreover have "open_filesystem E (recorded B) kind w n k = (Err ''filesystem capacity is not exactly representable'', k)"
    if "unat n = 0 \<or> 2 ^ 53 \<le> unat n" for n w k
    using that by (auto simp: open_filesystem_def unat_eq_zero)
  ultimately show ?thesis using log opened(2) by simp
qed

definition ram_broker :: "unit storage_broker" where
  "ram_broker = \<lparr>storage_read = (\<lambda>_ len j. (Inr (replicate len 0), j)), storage_write = (\<lambda>_ _ j. (Inr (), j)),
     storage_flush = (\<lambda>j. (Inr (), j))\<rparr>"

lemma ram_broker_device: "broker_device ram_broker n True = ram_device n"
  by (simp add: broker_device_def ram_broker_def ram_device_def broker_result_def)

theorem broker_offsets_exact_witness:
  "\<exists>s x t. open_filesystem (sample_engines logged_ram) (recorded ram_broker) ''fat'' True 1024 ((), []) = (Ok s, x) \<and>
    fs_steps ((sample_engines logged_ram)\<lparr>broker := broker_device (recorded ram_broker) 1024 True\<rparr>) s [Abort] t \<and>
    (\<forall>e\<in>set (device_log (guard t)). within_device 1024 e)"
proof -
  let ?E = "sample_engines (logged (ram_device 1024))"
  let ?D = "broker_device (recorded ram_broker) 1024 True"
  have E: "?E\<lparr>broker := ?D\<rparr>\<lparr>broker := logged (broker_device ram_broker 1024 True)\<rparr> = ?E"
    by (simp add: sample_engines_def ram_broker_device)
  have "alike (broker (?E\<lparr>broker := ?D\<rparr>)) (logged (broker_device ram_broker 1024 True))"
    using recorded_alike [of 1024 ram_broker True] by simp
  from open_alike [OF this] have "fs_open (?E\<lparr>broker := ?D\<rparr>) = fs_open ?E" unfolding E by (rule sym)
  then have opened: "open_filesystem ?E (recorded ram_broker) ''fat'' True 1024 ((), []) =
      (Ok (fat_session True [Did_Read 0 512 True] 0), ((), [Did_Read 0 512 True]))"
    using sample_open by (simp add: open_filesystem_def)
  obtain t where steps: "fs_steps (?E\<lparr>broker := ?D\<rparr>) (fat_session True [Did_Read 0 512 True] 0) [Abort] t"
    by (auto simp: fs_steps_Cons fs_steps_Nil erased_def erase_def abort_run)
  show ?thesis using broker_offsets_exact [OF opened steps] opened steps by blast
qed

end
