(* ===== verification/Probe.thy ===== *)
theory Probe
  imports Nusb_Properties Range_Properties
begin

text \<open>
  \<open>nusb-scsi/examples/managed_probe.rs\<close>: the read-only qualification of a managed export. The
  commands it sends, the order of its reports, its teardown, and how it selects the device.
\<close>

section \<open>Reports and deadlines\<close>

datatype probe_error = Stage string error | Expired string | Refused string

type_synonym report = "(string \<times> json) list"

text \<open>The texts of the failures; \<open>text\<close> is the \<open>Display\<close> of the library's errors.\<close>

fun probe_display :: "(error \<Rightarrow> string) \<Rightarrow> probe_error \<Rightarrow> string" where
  "probe_display text (Stage stage e) = stage @ '': '' @ text e"
| "probe_display text (Expired stage) = stage @ '': five-second deadline expired; session retired''"
| "probe_display text (Refused reason) = reason"

text \<open>\<open>bounded\<close>: the operation, or the five-second timer, which drops it.\<close>

definition probe_bounded :: "string \<Rightarrow> ('s, error, 'a) act \<Rightarrow> ('s \<times> report, probe_error, 'a) act" where
  "probe_bounded stage m = (\<lambda>(s, out). case m s of
     (Ok a, t) \<Rightarrow> (Ok a, (t, out))
   | (Err e, t) \<Rightarrow> (Err (Stage stage e), (t, out))
   | (Dropped, t) \<Rightarrow> (Err (Expired stage), (t, out))
   | (Panicked, t) \<Rightarrow> (Panicked, (t, out)))"

definition emit :: "string \<Rightarrow> json \<Rightarrow> ('s \<times> report, probe_error, unit) act" where
  "emit stage detail = modify (\<lambda>(s, out). (s, out @ [(stage, detail)]))"

section \<open>The commands\<close>

text \<open>
  \<open>lossy\<close> is \<open>String::from_utf8_lossy(..).trim()\<close> and \<open>sha256\<close> the hexadecimal digest, of the
  \<open>sha2\<close> crate.
\<close>

definition report_inquiry :: "(u8 list \<Rightarrow> string) \<Rightarrow> u8 list \<Rightarrow> ('s \<times> report, probe_error, unit) act" where
  "report_inquiry lossy q =
     and_then (unwrap (index 0 q)) (\<lambda>kind.
     and_then (unwrap (index 1 q)) (\<lambda>flags.
     and_then (unwrap (slice 8 16 q)) (\<lambda>vendor.
     and_then (unwrap (slice 16 32 q)) (\<lambda>prod.
     and_then (unwrap (slice 32 36 q)) (\<lambda>revision.
     emit ''inquiry'' (JObject [(''peripheralType'', JNumber (unat (kind AND 31))), (''removable'', JBool (flags AND 128 \<noteq> 0)),
       (''vendor'', JString (lossy vendor)), (''product'', JString (lossy prod)), (''revision'', JString (lossy revision))]))))))"

text \<open>At most 4096 bytes: the sample's blocks, \<open>(4096 / block_size).min(blocks as u32) as u16\<close>.\<close>

definition sample_blocks :: "geometry \<Rightarrow> u16" where
  "sample_blocks g = ucast (min (4096 div block_size g) (ucast (blocks g)))"

definition report_sample ::
  "nat \<Rightarrow> 'io bulk_io \<Rightarrow> (u8 list \<Rightarrow> string) \<Rightarrow> geometry \<Rightarrow> ('io scsi \<times> report, probe_error, unit) act" where
  "report_sample uw B sha256 g =
     and_then (require (\<not> (4096 < block_size g \<or> blocks g = 0)) (Refused ''sector geometry exceeds bounded sample'')) (\<lambda>_.
     and_then (if block_size g = 0 then panic else ret (sample_blocks g)) (\<lambda>count.
     and_then (emit ''capacity'' (JObject [(''blocks'', JNumber (unat (blocks g))), (''blockSize'', JNumber (unat (block_size g))),
       (''bytes'', JNumber (unat (blocks g * ucast (block_size g))))])) (\<lambda>_.
     and_then (probe_bounded ''read-blocks'' (read_blocks uw B 0 count (block_size g))) (\<lambda>sample.
     emit ''sample'' (JObject [(''lba'', JNumber 0), (''blocks'', JNumber (unat count)), (''bytes'', JNumber (length sample)),
       (''sha256'', JString (sha256 sample)), (''contentsPrinted'', JBool False)])))))"

definition report_eject :: "('io scsi \<times> report, probe_error, unit) act" where
  "report_eject = (\<lambda>x. emit ''eject'' (JObject [(''ok'', JBool True), (''sessionRetired'', JBool (\<not> usable (fst x)))]) x)"

definition commands ::
  "nat \<Rightarrow> 'io bulk_io \<Rightarrow> (u8 list \<Rightarrow> string) \<Rightarrow> (u8 list \<Rightarrow> string) \<Rightarrow> ('io scsi \<times> report, probe_error, unit) act" where
  "commands uw B lossy sha256 =
     and_then (probe_bounded ''inquiry'' (inquiry B)) (\<lambda>q.
     and_then (report_inquiry lossy q) (\<lambda>_.
     and_then (probe_bounded ''test-unit-ready'' (test_unit_ready B)) (\<lambda>_.
     and_then (emit ''test-unit-ready'' (JObject [(''ok'', JBool True)])) (\<lambda>_.
     and_then (probe_bounded ''capacity'' (get_geometry B)) (\<lambda>g.
     and_then (report_sample uw B sha256 g) (\<lambda>_.
     and_then (probe_bounded ''synchronize-cache'' (flush B)) (\<lambda>_.
     and_then (emit ''synchronize-cache'' (JObject [(''ok'', JBool True), (''writeCommandsIssued'', JNumber 0)])) (\<lambda>_.
     and_then (probe_bounded ''eject'' (eject B)) (\<lambda>_.
     report_eject)))))))))"

text \<open>The session part of \<open>run_connected\<close>: after a failure the sense is asked for, if it can be.\<close>

definition error_json :: "(error \<Rightarrow> string) \<Rightarrow> probe_error \<Rightarrow> json" where
  "error_json text e = JObject [(''error'', JString (probe_display text e))]"

definition probe_sense :: "'io bulk_io \<Rightarrow> (error \<Rightarrow> string) \<Rightarrow> ('io scsi \<times> report, probe_error, unit) act" where
  "probe_sense B text = match_result (probe_bounded ''request-sense'' (request_sense B))
     (\<lambda>sense. emit ''sense'' (JObject [(''bytes'', JArray (map unat sense))]))
     (\<lambda>e. emit ''sense'' (error_json text e))"

definition probe_session ::
  "nat \<Rightarrow> 'io bulk_io \<Rightarrow> (u8 list \<Rightarrow> string) \<Rightarrow> (u8 list \<Rightarrow> string) \<Rightarrow> (error \<Rightarrow> string) \<Rightarrow>
   ('io scsi \<times> report, probe_error, unit) act" where
  "probe_session uw B lossy sha256 text =
     match_result (commands uw B lossy sha256) ret (\<lambda>e x.
       if usable (fst x) then and_then (probe_sense B text) (\<lambda>_. fail e) x else (Err e, x))"

section \<open>Teardown\<close>

text \<open>
  The race of the drain against its timer. A drain that never ends loses; the model then keeps the
  world as the cancellation left it.
\<close>

definition drained ::
  "('w, 'i, 'e) nusb \<Rightarrow> (error \<Rightarrow> string) \<Rightarrow> ('e, 'd, 'i) nusb_io \<Rightarrow> 'w \<Rightarrow> (probe_error, unit) outcome \<times> 'w" where
  "drained N text h w = (case close_native N h w of
     Some (Ok _, v) \<Rightarrow> (Ok (), v)
   | Some (Err e, v) \<Rightarrow> (Err (Refused (text e)), v)
   | Some (Dropped, v) \<Rightarrow> (Err (Refused ''transfer teardown deadline expired''), v)
   | Some (Panicked, v) \<Rightarrow> (Panicked, v)
   | None \<Rightarrow> (Err (Refused ''transfer teardown deadline expired''), cancel_all N (io_output h) (cancel_all N (io_input h) w)))"

definition closed_json :: "(error \<Rightarrow> string) \<Rightarrow> (probe_error, 'a) outcome \<Rightarrow> json" where
  "closed_json text r = JObject
     [(''ok'', JBool (case r of Ok _ \<Rightarrow> True | _ \<Rightarrow> False)),
      (''error'', case r of Err e \<Rightarrow> JString (probe_display text e) | _ \<Rightarrow> JNull)]"

text \<open>\<open>run_connected\<close>: the first failure is returned, after the teardown in every case.\<close>

definition run_connected ::
  "nat \<Rightarrow> ('w, 'i, 'e) nusb \<Rightarrow> (u8 list \<Rightarrow> string) \<Rightarrow> (u8 list \<Rightarrow> string) \<Rightarrow> (error \<Rightarrow> string) \<Rightarrow>
   ('e, 'd, 'i) nusb_io \<Rightarrow> ('w \<times> report, probe_error, unit) act" where
  "run_connected uw N lossy sha256 text h = (\<lambda>(w, out). case scsi_new (nusb_bulk uw N) (h, w) 0 of
     Inl e \<Rightarrow> (Err (Refused (text e)), (w, out))
   | Inr c \<Rightarrow>
       (case probe_session uw (nusb_bulk uw N) lossy sha256 text (c, out) of
          (Panicked, (d, out)) \<Rightarrow> (Panicked, (snd (io d), out))
        | (Dropped, (d, out)) \<Rightarrow> (Dropped, (snd (io d), out))
        | (result, (d, out)) \<Rightarrow>
            (case drained N text (fst (io d)) (snd (io d)) of (Panicked, v) \<Rightarrow> (Panicked, (v, out)) | (closed, v) \<Rightarrow>
               (case result of Err e \<Rightarrow> Err e | _ \<Rightarrow> closed, (v, out @ [(''transfers-drained'', closed_json text closed)])))))"

section \<open>Arguments and the choice of the device\<close>

text \<open>\<open>str::parse::<u8>\<close>: an optional plus sign and at least one digit.\<close>

definition digit_of :: "char \<Rightarrow> nat option" where
  "digit_of c = (let n = of_char c in if 48 \<le> n \<and> n < (58 :: nat) then Some (n - 48) else None)"

definition parse_u8 :: "string \<Rightarrow> u8 option" where
  "parse_u8 s =
     (let ds = map digit_of (if s \<noteq> [] \<and> hd s = CHR ''+'' then tl s else s);
          n = foldl (\<lambda>a d. 10 * a + (case d of Some k \<Rightarrow> k | None \<Rightarrow> 0)) 0 ds
      in if ds = [] \<or> None \<in> set ds \<or> 255 < n then None else Some (of_nat n))"

datatype probe_args = Help | Select "string option" "u8 option"

fun parse_args :: "string list \<Rightarrow> string option \<Rightarrow> u8 option \<Rightarrow> string + probe_args" where
  "parse_args [] bus addr =
     (if (bus \<noteq> None) \<noteq> (addr \<noteq> None) then Inl ''--bus and --address must be supplied together'' else Inr (Select bus addr))"
| "parse_args (arg # args) bus addr =
     (if arg = ''--bus'' then (case args of [] \<Rightarrow> Inl ''--bus needs a value'' | v # rest \<Rightarrow> parse_args rest (Some v) addr)
      else if arg = ''--address'' then
        (case args of [] \<Rightarrow> Inl ''--address needs a value''
         | v # rest \<Rightarrow> (case parse_u8 v of None \<Rightarrow> Inl ''invalid address'' | Some a \<Rightarrow> parse_args rest bus (Some a)))
      else if arg = ''--help'' then Inr Help
      else Inl (''unknown argument '' @ arg))"

record device_info =
  info_vendor :: u16
  info_product :: u16
  info_bus :: string
  info_address :: u8

definition selected :: "string option \<Rightarrow> u8 option \<Rightarrow> device_info \<Rightarrow> bool" where
  "selected bus addr d \<longleftrightarrow> info_vendor d = 0x1209 \<and> info_product d = 0xca0f \<and>
     (case bus of None \<Rightarrow> True | Some b \<Rightarrow> info_bus d = b) \<and> (case addr of None \<Rightarrow> True | Some a \<Rightarrow> info_address d = a)"

definition managed_descriptor :: "alt_descriptor \<Rightarrow> bool" where
  "managed_descriptor d \<longleftrightarrow> class_code d = 0xff \<and> subclass_code d = 6 \<and> protocol_code d = 0x50"

text \<open>The host library, as far as \<open>run\<close> calls it; \<open>'v\<close> is an open device.\<close>

record ('w, 'v, 'i) usb_host =
  list_devices :: "('w, string, device_info list) act"
  open_device :: "device_info \<Rightarrow> ('w, string, 'v) act"
  active_configuration :: "'v \<Rightarrow> ('w, string, u8 \<times> (u8 \<times> alt_descriptor) list) act"
  host_claim :: "'v \<Rightarrow> u8 \<Rightarrow> ('w, string, 'i) act"
  host_release :: "'i \<Rightarrow> ('w, string, unit) act"
  decimal :: "nat \<Rightarrow> string"

definition on_host :: "('w, string, 'a) act \<Rightarrow> ('w \<times> report, probe_error, 'a) act" where
  "on_host m = (\<lambda>(w, out). case m w of
     (Ok a, v) \<Rightarrow> (Ok a, (v, out))
   | (Err e, v) \<Rightarrow> (Err (Refused e), (v, out))
   | (Dropped, v) \<Rightarrow> (Dropped, (v, out))
   | (Panicked, v) \<Rightarrow> (Panicked, (v, out)))"

text \<open>Everything up to the claimed interface that is in use.\<close>

definition probe_claim ::
  "('w, 'v, 'i) usb_host \<Rightarrow> ('w, 'i, 'e) nusb \<Rightarrow> string option \<Rightarrow> u8 option \<Rightarrow> ('w \<times> report, probe_error, 'i \<times> u8) act" where
  "probe_claim H N bus addr =
     and_then (on_host (list_devices H)) (\<lambda>all.
     (case filter (selected bus addr) all of
        [d] \<Rightarrow>
          and_then (emit ''device'' (JObject [(''vid'', JString ''1209''), (''pid'', JString ''ca0f''), (''bus'', JString (info_bus d)),
            (''address'', JNumber (unat (info_address d)))])) (\<lambda>_.
          and_then (on_host (open_device H d)) (\<lambda>dev.
          and_then (on_host (active_configuration H dev)) (\<lambda>(number, settings).
          (case filter (\<lambda>(n, s). managed_descriptor s) settings of
             [(n, s)] \<Rightarrow>
               and_then (on_host (host_claim H dev n)) (\<lambda>i.
               and_then (\<lambda>x. require (get_alt_setting N i (fst x) = alternate_setting s)
                 (Refused ''selected alternate setting is not active'') x) (\<lambda>_.
               and_then (emit ''interface'' (JObject [(''configuration'', JNumber (unat number)), (''interface'', JNumber (unat n)),
                 (''alternate'', JNumber (unat (alternate_setting s))), (''class'', JString ''ff/06/50''), (''kernelDetach'', JBool False)])) (\<lambda>_.
               ret (i, alternate_setting s))))
           | _ \<Rightarrow> fail (Refused ''expected one active ff/06/50 alternate descriptor'')))))
      | ds \<Rightarrow> fail (Refused (''expected exactly one managed1209:ca0f export; found '' @ decimal H (length ds)))))"

section \<open>The whole run\<close>

text \<open>\<open>NusbIo::connect\<close> with its five seconds and the session, as one result.\<close>

definition probe_storage ::
  "nat \<Rightarrow> ('w, 'i, 'e) nusb \<Rightarrow> (u8 list \<Rightarrow> string) \<Rightarrow> (u8 list \<Rightarrow> string) \<Rightarrow> (error \<Rightarrow> string) \<Rightarrow>
   'i \<Rightarrow> u8 \<Rightarrow> ('w \<times> report, probe_error, unit) act" where
  "probe_storage uw N lossy sha256 text i alternate = (\<lambda>(w, out).
     case (nusb_connect N i alternate (5 * 10 ^ 9) w :: (error, ('e, unit, 'i) nusb_io) outcome \<times> 'w) of
       (Ok h, v) \<Rightarrow>
         and_then (emit ''get-max-lun'' (JObject [(''maximumLun'', JNumber (unat (io_max_lun h))), (''selectedLun'', JNumber 0)])) (\<lambda>_.
         run_connected uw N lossy sha256 text h) (v, out)
     | (Err e, v) \<Rightarrow> (Err (Stage ''initialize'' e), (v, out))
     | (Dropped, v) \<Rightarrow> (Dropped, (v, out))
     | (Panicked, v) \<Rightarrow> (Panicked, (v, out)))"

definition release_json :: "(string, unit) outcome \<Rightarrow> json" where
  "release_json r = JObject
     [(''ok'', JBool (case r of Ok _ \<Rightarrow> True | _ \<Rightarrow> False)), (''error'', case r of Err e \<Rightarrow> JString e | _ \<Rightarrow> JNull)]"

text \<open>The end of \<open>run\<close>: the interface is released whatever the session returned.\<close>

definition probe_release ::
  "('w, 'v, 'i) usb_host \<Rightarrow> 'i \<Rightarrow> (probe_error, unit) outcome \<Rightarrow> ('w \<times> report, probe_error, unit) act" where
  "probe_release H i result = (\<lambda>(w, out). case host_release H i w of
     (Panicked, v) \<Rightarrow> (Panicked, (v, out))
   | (Dropped, v) \<Rightarrow> (Dropped, (v, out))
   | (release, v) \<Rightarrow>
       (case result of Err e \<Rightarrow> Err e | _ \<Rightarrow> (case release of Err e \<Rightarrow> Err (Refused e) | _ \<Rightarrow> Ok ()),
        (v, out @ [(''interface-release'', release_json release),
          (''device-close'', JObject [(''nativeHandleDropped'', JBool True), (''dedicatedAsyncDeviceCloseApi'', JBool False)])])))"

definition probe_device ::
  "nat \<Rightarrow> ('w, 'v, 'i) usb_host \<Rightarrow> ('w, 'i, 'e) nusb \<Rightarrow> (u8 list \<Rightarrow> string) \<Rightarrow> (u8 list \<Rightarrow> string) \<Rightarrow> (error \<Rightarrow> string) \<Rightarrow>
   string option \<Rightarrow> u8 option \<Rightarrow> ('w \<times> report, probe_error, unit) act" where
  "probe_device uw H N lossy sha256 text bus addr =
     and_then (probe_claim H N bus addr) (\<lambda>(i, alternate) x.
       case probe_storage uw N lossy sha256 text i alternate x of
         (Panicked, y) \<Rightarrow> (Panicked, y)
       | (Dropped, y) \<Rightarrow> (Dropped, y)
       | (result, y) \<Rightarrow> probe_release H i result y)"

text \<open>\<open>run\<close>; the usage text of \<open>--help\<close> is not a report.\<close>

definition probe_run ::
  "nat \<Rightarrow> ('w, 'v, 'i) usb_host \<Rightarrow> ('w, 'i, 'e) nusb \<Rightarrow> (u8 list \<Rightarrow> string) \<Rightarrow> (u8 list \<Rightarrow> string) \<Rightarrow> (error \<Rightarrow> string) \<Rightarrow>
   string list \<Rightarrow> ('w \<times> report, probe_error, unit) act" where
  "probe_run uw H N lossy sha256 text args = (case parse_args args None None of
     Inl e \<Rightarrow> fail (Refused e)
   | Inr Help \<Rightarrow> ret ()
   | Inr (Select bus addr) \<Rightarrow> probe_device uw H N lossy sha256 text bus addr)"

text \<open>\<open>main\<close>: the exit status.\<close>

definition probe_main ::
  "nat \<Rightarrow> ('w, 'v, 'i) usb_host \<Rightarrow> ('w, 'i, 'e) nusb \<Rightarrow> (u8 list \<Rightarrow> string) \<Rightarrow> (u8 list \<Rightarrow> string) \<Rightarrow> (error \<Rightarrow> string) \<Rightarrow>
   string list \<Rightarrow> ('w \<times> report, unit, nat) act" where
  "probe_main uw H N lossy sha256 text args = 
     (\<lambda>x. case probe_run uw H N lossy sha256 text args x of
        (Err e, (w, out)) \<Rightarrow> (Ok (1 :: nat), (w, out @ [(''failed'', JObject [(''error'', JString (probe_display text e)), (''writeCommandsIssued'', JNumber 0)])]))
      | (Ok _, y) \<Rightarrow> (Ok 0, y)
      | (Dropped, y) \<Rightarrow> (Dropped, y)
      | (Panicked, y) \<Rightarrow> (Panicked, y))"

end
