(* ===== verification/Probe_Properties.thy ===== *)
theory Probe_Properties
  imports Probe
begin

text \<open>
  The qualification tool keeps its promises: what it puts on the wire, that it never panics on a
  transport that keeps the contract, what it selects, and that it always releases what it claimed.
\<close>

section \<open>Lifting under the reports\<close>

abbreviation beneath :: "('s \<Rightarrow> 's \<Rightarrow> bool) \<Rightarrow> 's \<times> report \<Rightarrow> 's \<times> report \<Rightarrow> bool" where
  "beneath R x y \<equiv> R (fst x) (fst y)"

lemma beneath_order: "reflp R \<Longrightarrow> reflp (beneath R)" "transp R \<Longrightarrow> transp (beneath R)"
  by (auto intro!: reflpI transpI dest: reflpD transpD)

lemma probe_bounded_within: "within R m \<Longrightarrow> within (beneath R) (probe_bounded stage m)"
  by (auto simp: within_def probe_bounded_def split: prod.split outcome.split) (metis snd_conv)+

lemma emit_within: "reflp R \<Longrightarrow> within (beneath R) (emit stage detail)"
  by (auto simp: within_def emit_def modify_def dest: reflpD)

lemma probe_bounded_safe: "safe P m \<Longrightarrow> safe (\<lambda>x. P (fst x)) (probe_bounded stage m)"
  by (rule safeI) (auto simp: probe_bounded_def split: prod.splits outcome.splits dest: safeD)

lemma emit_safe: "safe (\<lambda>x. P (fst x)) (emit stage detail)"
  by (rule safeI) (auto simp: emit_def modify_def)

section \<open>What is sent\<close>

abbreviation probe_ops :: "u8 set" where "probe_ops \<equiv> {0x12, 0x00, 0x25, 0x28, 0x35, 0x1b, 0x03}"

text \<open>A command block wrapper for one of the seven commands, with a transfer of at most 4096 bytes.\<close>

definition probe_message :: "u8 list \<Rightarrow> bool" where
  "probe_message d \<longleftrightarrow> wrapper_of probe_ops d \<and>
     (case u32_from_le_bytes (take 4 (drop 8 d)) of Some len \<Rightarrow> unat len \<le> 4096 | None \<Rightarrow> False)"

lemma probe_message_iff:
  "probe_message d \<longleftrightarrow> length d = 31 \<and> d ! 15 \<in> probe_ops \<and>
     (\<exists>len. u32_from_le_bytes (take 4 (drop 8 d)) = Some len \<and> unat len \<le> 4096)"
  by (auto simp: probe_message_def wrapper_of_def split: option.splits)

lemma cbw_length_field: "u32_from_le_bytes (take 4 (drop 8 (cbw t len n l cdb))) = Some len"
  by (simp add: cbw_def)

lemma probe_command_sends:
  assumes "cdb \<noteq> []" "length cdb \<le> 16" "hd cdb \<in> probe_ops" "incoming \<le> 4096"
  shows "within (sends probe_message) (command (traced B) cdb incoming [])"
  using assms by (intro command_sends)
    (auto simp: message_of_def probe_message_def wrapper_of_def cbw_opcode cbw_length_field dest: unat_u32_try_from)

lemma sample_bounded: "unat (sample_blocks g) * unat (block_size g) \<le> 4096"
proof -
  have "unat (sample_blocks g) \<le> unat (min (4096 div block_size g) (ucast (blocks g)))"
    unfolding sample_blocks_def by (simp add: unsigned_ucast_eq take_bit_eq_mod)
  also have "\<dots> \<le> unat (4096 div block_size g)" by (simp add: min_def word_le_nat_alt)
  also have "\<dots> = 4096 div unat (block_size g)" by (simp add: unat_div)
  finally show ?thesis by (meson div_times_less_eq_dividend mult_le_mono1 order_trans)
qed

lemmas probe_intros = within_intros beneath_order sends_order probe_bounded_within emit_within

lemma report_sample_sends: "within (beneath (sends probe_message)) (report_sample uw (traced B) sha256 g)"
proof -
  have rd: "within (sends probe_message) (read_blocks uw (traced B) 0 (sample_blocks g) (block_size g))"
    unfolding read_blocks_def using sample_bounded [of g]
    by (auto split: sum.split simp: block_command_Inr intro!: within_intros probe_command_sends)
  show ?thesis
  proof (cases "block_size g = 0")
    case True
    then show ?thesis unfolding report_sample_def by (simp add: and_then_prim) (intro probe_intros)
  next
    case False
    then show ?thesis unfolding report_sample_def by (simp add: and_then_prim) (intro probe_intros rd)
  qed
qed

lemma report_inquiry_sends: "within (beneath (sends probe_message)) (report_inquiry lossy q)"
  unfolding report_inquiry_def by (intro probe_intros)

lemma single_command_sends:
  "within (sends probe_message) (inquiry (traced B))"
  "within (sends probe_message) (test_unit_ready (traced B))"
  "within (sends probe_message) (get_geometry (traced B))"
  "within (sends probe_message) (flush (traced B))"
  "within (sends probe_message) (eject (traced B))"
  "within (sends probe_message) (request_sense (traced B))"
  unfolding inquiry_def test_unit_ready_def get_geometry_def flush_def eject_def request_sense_def
  by (intro within_intros sends_order probe_command_sends; simp add: replicate_6)+

lemma report_eject_sends: "within (beneath (sends probe_message)) report_eject"
  by (simp add: within_def report_eject_def emit_def modify_def sends_only_refl [THEN reflpD])

lemma within_guard: "reflp R \<Longrightarrow> within R m \<Longrightarrow> within R (\<lambda>x. if c x then m x else (r, x))"
  by (auto simp: within_def dest: reflpD)

lemma commands_sends: "within (beneath (sends probe_message)) (commands uw (traced B) lossy sha256)"
  unfolding commands_def
  by (intro probe_intros report_inquiry_sends report_sample_sends single_command_sends report_eject_sends)

lemma probe_session_sends: "within (beneath (sends probe_message)) (probe_session uw (traced B) lossy sha256 text)"
proof -
  have sense: "within (beneath (sends probe_message)) (probe_sense (traced B) text)"
    unfolding probe_sense_def by (intro probe_intros single_command_sends)
  show ?thesis unfolding probe_session_def
    by (intro probe_intros within_guard commands_sends sense)
qed

text \<open>
  C40: The probe is read-only on the wire. Over any transport, whatever the device answers and however
  the session ends, every message it sends is the 31-byte wrapper of INQUIRY, TEST UNIT READY, READ
  CAPACITY, READ(10), SYNCHRONIZE CACHE, START STOP UNIT or REQUEST SENSE, with a transfer of at
  most 4096 bytes: no WRITE, and no data stage to the device.
\<close>

theorem probe_never_writes:
  assumes "probe_session uw (traced B) lossy sha256 text (c, out) = (r, (d, out'))"
  shows "\<exists>ws. wire_log d = wire_log c @ ws \<and> (\<forall>m. Sent m \<in> set ws \<longrightarrow> length m = 31 \<and>
    m ! 15 \<in> {0x12, 0x00, 0x25, 0x28, 0x35, 0x1b, 0x03} \<and>
    (\<exists>len. u32_from_le_bytes (take 4 (drop 8 m)) = Some len \<and> unat len \<le> 4096))"
proof -
  have "sends probe_message c d" using withinD [OF probe_session_sends assms] by simp
  then show ?thesis unfolding sends_only_def probe_message_iff .
qed

text \<open>A device that answers INQUIRY and refuses TEST UNIT READY: the session survives, so it is asked why.\<close>

definition not_ready_script :: "u8 list list" where
  "not_ready_script = [replicate 36 0, csw_bytes 1 0 0, csw_bytes 2 0 1, power_on_sense, csw_bytes 3 0 0]"

lemma not_ready_run:
  "\<exists>d out. probe_session 64 (traced fake_io) (\<lambda>_. []) (\<lambda>_. []) (\<lambda>_. []) (demo not_ready_script, []) =
     (Err (Stage ''test-unit-ready'' CommandFailed), (d, out)) \<and> map fst out = [''inquiry'', ''sense''] \<and> length (wire_log d) = 8"
  by (simp add: probe_session_def commands_def probe_sense_def probe_bounded_def report_inquiry_def emit_def not_ready_script_def
      inquiry_def test_unit_ready_def request_sense_def index_def power_on_sense_def match_result_def fake_run shortfall_def cbw_def slice_def)

theorem probe_never_writes_witness:
  "\<exists>d out ws. probe_session 64 (traced fake_io) (\<lambda>_. []) (\<lambda>_. []) (\<lambda>_. []) (demo not_ready_script, []) =
     (Err (Stage ''test-unit-ready'' CommandFailed), (d, out)) \<and> map fst out = [''inquiry'', ''sense''] \<and>
     wire_log d = ws \<and> length ws = 8 \<and> (\<forall>m. Sent m \<in> set ws \<longrightarrow> m ! 15 \<noteq> 0x2a)"
proof -
  obtain d out where run: "probe_session 64 (traced fake_io) (\<lambda>_. []) (\<lambda>_. []) (\<lambda>_. []) (demo not_ready_script, []) =
     (Err (Stage ''test-unit-ready'' CommandFailed), (d, out))"
    and out: "map fst out = [''inquiry'', ''sense'']" "length (wire_log d) = 8" using not_ready_run by (elim exE conjE) (rule that)
  have "\<forall>m. Sent m \<in> set (wire_log d) \<longrightarrow> m ! 15 \<in> probe_ops"
    using probe_never_writes [OF run] by auto
  then have "\<forall>m. Sent m \<in> set (wire_log d) \<longrightarrow> m ! 15 \<noteq> 0x2a" by fastforce
  with run out show ?thesis
    by (intro exI [of _ d] exI [of _ out] exI [of _ "wire_log d"] conjI) simp_all
qed

section \<open>No step panics\<close>

lemma inquiry_length: "inquiry B s = (Ok q, u) \<Longrightarrow> length q = 36"
  unfolding inquiry_def by (rule command_length)

lemma probe_bounded_Ok: "probe_bounded stage m x = (Ok a, y) \<Longrightarrow> m (fst x) = (Ok a, fst y)"
  by (auto simp: probe_bounded_def split: prod.splits outcome.splits)

lemma report_inquiry_safe: "length q = 36 \<Longrightarrow> safe (\<lambda>x. P (fst x)) (report_inquiry lossy q)"
  unfolding report_inquiry_def by (intro safe_intros emit_safe) (auto simp: index_def slice_def)

lemma geometry_nonzero: "get_geometry B s = (Ok g, u) \<Longrightarrow> block_size g \<noteq> 0"
  by (auto dest!: geometry_bounds_lemma is_power_of_two_pos)

context bulk_transport begin

abbreviation settled :: "'io scsi \<times> report \<Rightarrow> bool" where
  "settled x \<equiv> sane (io (fst x))"

lemma report_sample_safe: "block_size g \<noteq> 0 \<Longrightarrow> safe settled (report_sample uw B sha256 g)"
  unfolding report_sample_def
  by (simp add: and_then_prim) (intro safe_intros emit_safe probe_bounded_safe)

lemma bounded_then_safe:
  assumes "safe (\<lambda>s. sane (io s)) m" "\<And>s a t. m s = (Ok a, t) \<Longrightarrow> Q a" "\<And>a. Q a \<Longrightarrow> safe settled (f a)"
  shows "safe settled (and_then (probe_bounded stage m) f)"
  using assms by (intro safe_and_then [where Q = Q] probe_bounded_safe) (auto dest: probe_bounded_Ok)

lemma commands_safe: "safe settled (commands uw B lossy sha256)"
proof -
  have last: "safe settled report_eject"
    by (rule safeI) (auto simp: report_eject_def emit_def modify_def)
  have rest: "safe settled (and_then (probe_bounded ''capacity'' (get_geometry B)) (\<lambda>g.
     and_then (report_sample uw B sha256 g) (\<lambda>_.
     and_then (probe_bounded ''synchronize-cache'' (flush B)) (\<lambda>_.
     and_then (emit ''synchronize-cache'' j) (\<lambda>_.
     and_then (probe_bounded ''eject'' (eject B)) (\<lambda>_. report_eject))))))" for j
    by (rule bounded_then_safe [where Q = "\<lambda>g. block_size g \<noteq> 0", OF geometry_safe])
      (erule geometry_nonzero, intro safe_intros report_sample_safe emit_safe probe_bounded_safe last)
  show ?thesis unfolding commands_def
    by (assumption | rule rest bounded_then_safe [OF inquiry_safe inquiry_length] report_inquiry_safe emit_safe
        probe_bounded_safe test_unit_ready_safe safe_and_then_any)+
qed

lemma probe_session_safe: "safe settled (probe_session uw B lossy sha256 text)"
proof -
  have sense: "safe settled (probe_sense B text)"
    unfolding probe_sense_def by (intro safe_intros emit_safe probe_bounded_safe)
  have guard: "safe P (\<lambda>x. if c x then m x else (Err e, x))" if "safe P m" for P c and m :: "('a, 'b, 'c) act" and e
    using that by (auto simp: safe_def)
  show ?thesis unfolding probe_session_def by (intro safe_intros guard commands_safe sense)
qed

end

text \<open>
  The probe's session never panics over a transport that keeps the contract of \<open>BulkIo\<close>: its slices
  of the inquiry data are in range, its division by the block size is by a power of two, and the
  product it prints stays below 2^64.
\<close>

theorem probe_never_panics:
  assumes "bulk_transport B sane" "sane (io c)"
  shows "fst (probe_session uw B lossy sha256 text (c, out)) \<noteq> Panicked"
  by (rule safe_total [OF bulk_transport.probe_session_safe [OF assms(1)]]) (simp add: assms(2))

theorem probe_never_panics_witness:
  "fst (probe_session 64 fake_io (\<lambda>_. []) (\<lambda>_. []) (\<lambda>_. [])
     (\<lparr>io = \<lparr>fake_reads = [[1, 2, 3]], fake_short = False\<rparr>, tag = 0, lun = 0, usable = True\<rparr>, [])) \<noteq> Panicked"
  by (rule probe_never_panics [OF fake.bulk_transport_axioms]) simp

section \<open>Selection and teardown\<close>

lemma parse_args_together: "parse_args args bus addr = Inr (Select b a) \<Longrightarrow> b = None \<longleftrightarrow> a = None"
  by (induction args bus addr rule: parse_args.induct) (auto split: if_splits list.splits option.splits)

lemma single_Ok:
  "(case xs of [] \<Rightarrow> fail e | x # rest \<Rightarrow> (case rest of [] \<Rightarrow> f x | y # ys \<Rightarrow> fail (g x y ys))) s = (Ok r, t) \<longleftrightarrow>
     (\<exists>x. xs = [x] \<and> f x s = (Ok r, t))"
  by (auto simp: fail_def split: list.split)

lemma single_pair_Ok:
  "(case xs of [(n, d)] \<Rightarrow> f n d | _ \<Rightarrow> fail e) s = (Ok r, t) \<longleftrightarrow> (\<exists>n d. xs = [(n, d)] \<and> f n d s = (Ok r, t))"
  by (auto simp: fail_def split: list.split)

lemma on_host_Ok: "on_host m (w, out) = (Ok a, y) \<longleftrightarrow> (\<exists>v. m w = (Ok a, v) \<and> y = (v, out))"
  by (auto simp: on_host_def split: prod.splits outcome.splits)

text \<open>
  The tool touches one export or none. A claim it made was made when exactly one device on the
  host was a 1209:ca0f that matched the bus and address asked for, and the alternate setting it
  goes on to use was the active one of the claimed interface. A bus is asked for only together with
  an address.
\<close>

theorem probe_selects_one:
  assumes "parse_args args None None = Inr (Select bus addr)" "probe_claim H N bus addr (w, out) = (Ok (i, alternate), (v, out'))"
  shows "(bus = None \<longleftrightarrow> addr = None) \<and> (\<exists>all u d. list_devices H w = (Ok all, u) \<and> filter (selected bus addr) all = [d] \<and>
    get_alt_setting N i v = alternate \<and> map fst out' = map fst out @ [''device'', ''interface''])"
proof
  show "bus = None \<longleftrightarrow> addr = None" using assms(1) by (rule parse_args_together)
  show "\<exists>all u d. list_devices H w = (Ok all, u) \<and> filter (selected bus addr) all = [d] \<and>
    get_alt_setting N i v = alternate \<and> map fst out' = map fst out @ [''device'', ''interface'']"
    using assms(2) unfolding probe_claim_def
    by (auto simp: and_then_Ok on_host_Ok emit_def act_iffs require_iffs single_Ok single_pair_Ok split: prod.splits)
qed

text \<open>
  What was claimed is released. Once the interface is claimed, and unless the host stops the
  program, the interface is released last, whatever the session returned, and the last two reports
  say so; success means that the session and the release both succeeded.
\<close>

theorem probe_releases:
  assumes "probe_claim H N bus addr (w, out) = (Ok (i, alternate), (v, out'))"
    and "probe_device uw H N lossy sha256 text bus addr (w, out) = (r, (u, reports))" "r \<noteq> Panicked" "r \<noteq> Dropped"
  shows "\<exists>v' release before result. host_release H i v' = (release, u) \<and>
    probe_storage uw N lossy sha256 text i alternate (v, out') = (result, (v', before)) \<and>
    map fst reports = map fst before @ [''interface-release'', ''device-close''] \<and>
    (r = Ok () \<longleftrightarrow> result = Ok () \<and> release = Ok ())"
  using assms by (auto simp: probe_device_def probe_release_def and_then_run split: prod.splits outcome.splits)

end
