(* ===== verification/Transport_Simulation.thy ===== *)
theory Transport_Simulation
  imports Range_Properties
begin

text \<open>
  The SCSI engine and the byte ranges do not depend on what carries their messages. \<open>mirrors\<close> relates
  two actions that end alike from related states; the locale \<open>bulk_simulation\<close> states it of the two
  methods of \<open>BulkIo\<close>, and every method of \<open>Scsi\<close> and \<open>RangeSession\<close> inherits it. So what is proved
  over one transport holds over every transport that simulates it. Recording the wire is one
  instance, the USB library over a device is another.
\<close>

section \<open>Actions that end alike\<close>

definition mirrors ::
  "('s \<Rightarrow> 't \<Rightarrow> bool) \<Rightarrow> ('a \<Rightarrow> 'b \<Rightarrow> bool) \<Rightarrow> ('s, 'e, 'a) act \<Rightarrow> ('t, 'e, 'b) act \<Rightarrow> bool" where
  "mirrors S V m n \<longleftrightarrow> (\<forall>s t. S s t \<longrightarrow> rel_outcome (=) V (fst (m s)) (fst (n t)) \<and> S (snd (m s)) (snd (n t)))"

named_theorems mirror_intros \<open>simulation of actions, one rule per combinator\<close>

lemma mirrorsI:
  "(\<And>s t. S s t \<Longrightarrow> rel_outcome (=) V (fst (m s)) (fst (n t)) \<and> S (snd (m s)) (snd (n t))) \<Longrightarrow> mirrors S V m n"
  by (simp add: mirrors_def)

lemma mirrorsD:
  "mirrors S V m n \<Longrightarrow> S s t \<Longrightarrow> m s = (r, s') \<Longrightarrow> n t = (q, t') \<Longrightarrow> rel_outcome (=) V r q \<and> S s' t'"
  unfolding mirrors_def by (metis fst_conv snd_conv)

text \<open>A successful run on the right has its match on the left.\<close>

lemma mirrors_Ok:
  assumes "mirrors S V m n" "S s t" "n t = (Ok b, t')"
  obtains a s' where "m s = (Ok a, s')" "V a b" "S s' t'"
proof -
  obtain r s' where "m s = (r, s')" by fastforce
  then show ?thesis using mirrorsD [OF assms(1,2) _ assms(3)] that by (cases r) auto
qed

lemma mirrors_prim [mirror_intros]:
  "V a b \<Longrightarrow> mirrors S V (ret a) (ret b)"
  "mirrors S V (fail e) (fail e)"
  "mirrors S V panic panic"
  "(\<And>s t. S s t \<Longrightarrow> S (f s) (g t)) \<Longrightarrow> mirrors S (=) (modify f) (modify g)"
  "mirrors S (=) (unwrap x) (unwrap x)"
  "mirrors S (=) (require c e) (require c e)"
  by (auto simp: mirrors_def act_simps unwrap_def require_def split: option.split)

lemma mirrors_match_rel:
  assumes "mirrors S V m n" "\<And>a b. V a b \<Longrightarrow> mirrors S W (f a) (g b)" "\<And>e. mirrors S W (h e) (k e)"
  shows "mirrors S W (match_result m f h) (match_result n g k)"
proof (rule mirrorsI)
  fix s t assume st: "S s t"
  obtain r s' q t' where run: "m s = (r, s')" "n t = (q, t')" by fastforce
  from mirrorsD [OF assms(1) st run]
  have rel: "rel_outcome (=) V r q" "S s' t'" by auto
  from rel(1) show "rel_outcome (=) W (fst (match_result m f h s)) (fst (match_result n g k t)) \<and>
      S (snd (match_result m f h s)) (snd (match_result n g k t))"
  proof (cases rule: outcome.rel_cases)
    case (Ok a b)
    then show ?thesis using run rel(2) assms(2) [of a b] by (simp add: match_result_def mirrors_def)
  next
    case (Err d e)
    then show ?thesis using run rel(2) assms(3) [of e] by (simp add: match_result_def mirrors_def)
  qed (use run rel(2) in \<open>simp_all add: match_result_def\<close>)
qed

lemma mirrors_match [mirror_intros]:
  "mirrors S (=) m n \<Longrightarrow> (\<And>a. mirrors S W (f a) (g a)) \<Longrightarrow> (\<And>e. mirrors S W (h e) (k e)) \<Longrightarrow>
   mirrors S W (match_result m f h) (match_result n g k)"
  by (rule mirrors_match_rel [where V = "(=)"]) simp_all

lemma mirrors_and_then [mirror_intros]:
  "mirrors S (=) m n \<Longrightarrow> (\<And>a. mirrors S W (f a) (g a)) \<Longrightarrow> mirrors S W (and_then m f) (and_then n g)"
  unfolding and_then_match_result by (intro mirror_intros)

lemma mirrors_if [mirror_intros]:
  "(c \<Longrightarrow> mirrors S V m n) \<Longrightarrow> (\<not> c \<Longrightarrow> mirrors S V p q) \<Longrightarrow> mirrors S V (if c then m else p) (if c then n else q)"
  by simp

section \<open>Sessions over related transports\<close>

definition same_scsi :: "('io \<Rightarrow> 'jo \<Rightarrow> bool) \<Rightarrow> 'io scsi \<Rightarrow> 'jo scsi \<Rightarrow> bool" where
  "same_scsi S c d \<longleftrightarrow> S (io c) (io d) \<and> tag c = tag d \<and> lun c = lun d \<and> usable c = usable d"

definition same_range :: "('io \<Rightarrow> 'jo \<Rightarrow> bool) \<Rightarrow> 'io range_session \<Rightarrow> 'jo range_session \<Rightarrow> bool" where
  "same_range S s t \<longleftrightarrow> same_scsi S (scsi s) (scsi t) \<and> geometry s = geometry t \<and> access s = access t"

lemma with_io_mirrors [mirror_intros]: "mirrors S V m n \<Longrightarrow> mirrors (same_scsi S) V (with_io m) (with_io n)"
  by (auto simp: mirrors_def with_io_def same_scsi_def split: prod.split)
    (metis fst_conv snd_conv)+

lemma with_scsi_mirrors [mirror_intros]:
  "mirrors (same_scsi S) V m n \<Longrightarrow> mirrors (same_range S) V (with_scsi m) (with_scsi n)"
  by (auto simp: mirrors_def with_scsi_def same_range_def split: prod.split)
    (metis fst_conv snd_conv)+

lemma span_same:
  assumes "same_range S s t"
  shows "span s offset len = span t offset len"
proof -
  have "geometry s = geometry t" "size_bytes s = size_bytes t"
    using assms by (simp_all add: same_range_def size_bytes_def)
  then show ?thesis by (simp add: span_def split: option.split)
qed

locale bulk_simulation =
  fixes B :: "'io bulk_io"
    and C :: "'jo bulk_io"
    and S :: "'io \<Rightarrow> 'jo \<Rightarrow> bool"
  assumes same_lun: "S i j \<Longrightarrow> bulk_max_lun B i = bulk_max_lun C j"
    and same_write: "mirrors S (=) (bulk_write B data) (bulk_write C data)"
    and same_read: "0 < n \<Longrightarrow> n \<le> 1024 * 1024 \<Longrightarrow> mirrors S (=) (bulk_read B n) (bulk_read C n)"
begin

lemma new_mirrors:
  assumes "S i j" "scsi_new C j l = Inr d"
  shows "\<exists>c. scsi_new B i l = Inr c \<and> same_scsi S c d"
  using assms same_lun [OF assms(1)] by (auto simp: scsi_new_def same_scsi_def split: if_splits)

lemma data_in_mirrors: "mirrors (same_scsi S) (=) (data_in B incoming data) (data_in C incoming data)"
proof (induction "incoming - length data" arbitrary: data rule: less_induct)
  case less
  show ?case
  proof (cases "length data < incoming")
    case True
    let ?n = "min (incoming - length data) max_chunk"
    have n: "0 < ?n" "?n \<le> 1024 * 1024" using True by (simp_all add: max_chunk_def)
    have step: "data_in X incoming data = and_then (with_io (bulk_read X ?n)) (\<lambda>chunk.
        if chunk = [] \<or> incoming - length data < length chunk then fail (Protocol ''short or oversized data stage'')
        else data_in X incoming (data @ chunk))" for X :: "'x bulk_io"
      using True by (simp add: data_in.simps [of X incoming data] and_then_def fail_def fun_eq_iff split: prod.split outcome.split)
    show ?thesis unfolding step
      by (intro mirror_intros same_read n less.hyps) (use True in \<open>auto simp: neq_Nil_conv\<close>)
  next
    case False
    then show ?thesis by (simp add: data_in_done mirror_intros)
  qed
qed

lemma write_chunks_mirrors: "mirrors (same_scsi S) (=) (write_chunks B cs) (write_chunks C cs)"
  by (induction cs) (auto intro!: mirror_intros same_write)

lemma data_stage_mirrors: "mirrors (same_scsi S) (=) (data_stage B incoming outgoing) (data_stage C incoming outgoing)"
  unfolding data_stage_def data_out_def by (intro mirror_intros data_in_mirrors write_chunks_mirrors refl)

lemma check_csw_mirrors: "mirrors (same_scsi S) (=) (check_csw t len data csw) (check_csw t len data csw)"
  unfolding check_csw_def by (intro mirror_intros refl) (simp_all add: same_scsi_def)

lemma exchange_mirrors: "mirrors (same_scsi S) (=) (exchange B t len w incoming outgoing) (exchange C t len w incoming outgoing)"
  unfolding exchange_def
  by (intro mirror_intros same_write same_read data_stage_mirrors check_csw_mirrors) simp_all

lemma command_mirrors: "mirrors (same_scsi S) (=) (command B cdb incoming outgoing) (command C cdb incoming outgoing)"
proof (rule mirrorsI)
  fix c d assume cd: "same_scsi S c d"
  have "same_scsi S (c\<lparr>tag := tag c + 1, usable := False\<rparr>) (d\<lparr>tag := tag d + 1, usable := False\<rparr>)" using cd by (simp add: same_scsi_def)
  note x = exchange_mirrors [unfolded mirrors_def, rule_format, OF this]
  show "rel_outcome (=) (=) (fst (command B cdb incoming outgoing c)) (fst (command C cdb incoming outgoing d)) \<and>
      same_scsi S (snd (command B cdb incoming outgoing c)) (snd (command C cdb incoming outgoing d))"
    using cd x by (simp add: command_def Let_def same_scsi_def split: option.split)
qed

text \<open>The methods of \<open>Scsi\<close>, and with them those of \<open>RangeSession\<close>.\<close>

lemma scsi_mirrors:
  "mirrors (same_scsi S) (=) (test_unit_ready B) (test_unit_ready C)"
  "mirrors (same_scsi S) (=) (request_sense B) (request_sense C)"
  "mirrors (same_scsi S) (=) (inquiry B) (inquiry C)"
  "mirrors (same_scsi S) (=) (eject B) (eject C)"
  "mirrors (same_scsi S) (=) (flush B) (flush C)"
  unfolding test_unit_ready_def request_sense_def inquiry_def eject_def flush_def
  by (intro mirror_intros command_mirrors refl; simp add: same_scsi_def)+

lemma blocks_mirrors:
  "mirrors (same_scsi S) (=) (read_blocks uw B lba count bs) (read_blocks uw C lba count bs)"
  "mirrors (same_scsi S) (=) (write_blocks uw B lba count bs bytes) (write_blocks uw C lba count bs bytes)"
  unfolding read_blocks_def write_blocks_def
  by (auto split: sum.split intro!: mirror_intros command_mirrors)

lemma get_geometry_mirrors: "mirrors (same_scsi S) (=) (get_geometry B) (get_geometry C)"
  unfolding get_geometry_def by (intro mirror_intros command_mirrors refl)

lemma initialize_ready_mirrors: "mirrors (same_scsi S) (=) (initialize_ready B) (initialize_ready C)"
  unfolding initialize_ready_def
  by (auto split: error.split intro!: mirror_intros scsi_mirrors)

lemma connect_mirrors: "mirrors (same_scsi S) (same_range S) (connect B a) (connect C a)"
  unfolding connect_def
  by (intro mirror_intros initialize_ready_mirrors get_geometry_mirrors) (simp add: mirrors_def same_range_def)

lemma read_range_mirrors: "mirrors (same_range S) (=) (read_range uw B offset len) (read_range uw C offset len)"
proof (rule mirrorsI)
  fix s t assume st: "same_range S s t"
  have g: "geometry t = geometry s" using st by (simp add: same_range_def)
  have "mirrors (same_range S) (=)
      (and_then (with_scsi (read_blocks uw B lba count bs)) (\<lambda>bytes. unwrap (slice skip (skip + len) bytes)))
      (and_then (with_scsi (read_blocks uw C lba count bs)) (\<lambda>bytes. unwrap (slice skip (skip + len) bytes)))" for lba count bs skip
    by (intro mirror_intros blocks_mirrors)
  note body = this [unfolded mirrors_def, rule_format, OF st]
  show "rel_outcome (=) (=) (fst (read_range uw B offset len s)) (fst (read_range uw C offset len t)) \<and>
      same_range S (snd (read_range uw B offset len s)) (snd (read_range uw C offset len t))"
    using body st by (simp add: read_range_def span_same [OF st] g split: sum.split prod.split)
qed

lemma write_range_mirrors: "mirrors (same_range S) (=) (write_range uw B offset bytes) (write_range uw C offset bytes)"
proof (rule mirrorsI)
  fix s t assume st: "same_range S s t"
  have g: "geometry t = geometry s" "access t = access s" using st by (simp_all add: same_range_def)
  have "mirrors (same_range S) (=)
      (and_then (unwrap (checked_mul uw (unat count) (unat bs))) (\<lambda>n.
        if skip = 0 \<and> n = length bytes then with_scsi (write_blocks uw B lba count bs bytes)
        else and_then (with_scsi (read_blocks uw B lba count bs)) (\<lambda>sectors.
          and_then (unwrap (copy_at skip bytes sectors)) (\<lambda>sectors. with_scsi (write_blocks uw B lba count bs sectors)))))
      (and_then (unwrap (checked_mul uw (unat count) (unat bs))) (\<lambda>n.
        if skip = 0 \<and> n = length bytes then with_scsi (write_blocks uw C lba count bs bytes)
        else and_then (with_scsi (read_blocks uw C lba count bs)) (\<lambda>sectors.
          and_then (unwrap (copy_at skip bytes sectors)) (\<lambda>sectors. with_scsi (write_blocks uw C lba count bs sectors)))))"
    for lba and count :: u16 and bs :: u32 and skip by (intro mirror_intros blocks_mirrors)
  note body = this [unfolded mirrors_def, rule_format, OF st]
  show "rel_outcome (=) (=) (fst (write_range uw B offset bytes s)) (fst (write_range uw C offset bytes t)) \<and>
      same_range S (snd (write_range uw B offset bytes s)) (snd (write_range uw C offset bytes t))"
    using body st by (simp add: write_range_def Let_def span_same [OF st] g split: sum.split prod.split)
qed

lemma session_mirrors:
  "mirrors (same_range S) (=) (sync B) (sync C)"
  "mirrors (same_range S) (=) (range_eject B) (range_eject C)"
  unfolding sync_def range_eject_def by (intro mirror_intros scsi_mirrors)+

end

text \<open>Recording what crosses the wire changes nothing.\<close>

interpretation recording: bulk_simulation "traced B" B "\<lambda>x i. fst x = i" for B :: "'io bulk_io"
  by unfold_locales (auto simp: mirrors_def traced_def split: prod.split intro: outcome.rel_refl)

end
