(* ===== verification/Range_Machine.thy ===== *)
theory Range_Machine
  imports Transport_Simulation
begin

text \<open>
  The abstract specification of a managed store as a machine: one list of bytes, one access mode, and
  calls that are answered or refused. Every sequence of calls of a \<open>RangeSession\<close> over a conforming
  device is answered as the machine answers it.
\<close>

section \<open>Calls of a session\<close>

definition range_call :: "nat \<Rightarrow> 'io bulk_io \<Rightarrow> range_op \<Rightarrow> ('io range_session, error, u8 list) act" where
  "range_call uw B op = (case op of
     Read_Op offset len \<Rightarrow> read_range uw B offset len
   | Write_Op offset bytes \<Rightarrow> and_then (write_range uw B offset bytes) (\<lambda>_. ret [])
   | Sync_Op \<Rightarrow> and_then (sync B) (\<lambda>_. ret [])
   | Eject_Op \<Rightarrow> and_then (range_eject B) (\<lambda>_. ret []))"

text \<open>A caller that goes on whatever the answer was.\<close>

fun range_run ::
  "nat \<Rightarrow> 'io bulk_io \<Rightarrow> range_op list \<Rightarrow> 'io range_session \<Rightarrow> (error, u8 list) outcome list \<times> 'io range_session" where
  "range_run uw B [] s = ([], s)"
| "range_run uw B (op # ops) s = (case range_call uw B op s of
     (r, t) \<Rightarrow> (case range_run uw B ops t of (rs, u) \<Rightarrow> (r # rs, u)))"

context bulk_simulation begin

lemma range_call_mirrors: "mirrors (same_range S) (=) (range_call uw B op) (range_call uw C op)"
  unfolding range_call_def
  by (cases op) (auto intro!: mirror_intros read_range_mirrors write_range_mirrors session_mirrors)

lemma range_run_mirrors:
  "same_range S s t \<Longrightarrow> fst (range_run uw B ops s) = fst (range_run uw C ops t) \<and>
    same_range S (snd (range_run uw B ops s)) (snd (range_run uw C ops t))"
proof (induction ops arbitrary: s t)
  case (Cons op ops)
  obtain r s' q t' where run: "range_call uw B op s = (r, s')" "range_call uw C op t = (q, t')" by fastforce
  have "r = q" "same_range S s' t'"
    using mirrorsD [OF range_call_mirrors Cons.prems run] by (auto simp: outcome.rel_eq)
  then show ?case using Cons.IH [of s' t'] run by (auto split: prod.splits)
qed simp

end

section \<open>The machine\<close>

text \<open>Which ranges of a store of blocks of \<open>bs\<close> bytes are served.\<close>

definition served :: "nat \<Rightarrow> u8 list \<Rightarrow> u64 \<Rightarrow> nat \<Rightarrow> bool" where
  "served bs store offset len \<longleftrightarrow> 0 < len \<and> len \<le> 4 * 1024 * 1024 \<and> unat offset + len \<le> length store \<and>
     (unat offset + len + bs - 1) div bs - unat offset div bs < 2 ^ 16"

fun flat_call :: "nat \<Rightarrow> access \<Rightarrow> range_op \<Rightarrow> u8 list \<Rightarrow> u8 list option \<times> u8 list" where
  "flat_call bs mode (Read_Op offset len) store =
     (if served bs store offset len then (Some (take len (drop (unat offset) store)), store) else (None, store))"
| "flat_call bs mode (Write_Op offset bytes) store =
     (if mode = ReadWrite \<and> served bs store offset (length bytes)
      then (Some [], take (unat offset) store @ bytes @ drop (unat offset + length bytes) store) else (None, store))"
| "flat_call bs mode Sync_Op store = (Some [], store)"
| "flat_call bs mode Eject_Op store = (Some [], store)"

fun flat_run :: "nat \<Rightarrow> access \<Rightarrow> range_op list \<Rightarrow> u8 list \<Rightarrow> u8 list option list \<times> u8 list" where
  "flat_run bs mode [] store = ([], store)"
| "flat_run bs mode (op # ops) store = (case flat_call bs mode op store of
     (a, store') \<Rightarrow> (case flat_run bs mode ops store' of (as, store'') \<Rightarrow> (a # as, store'')))"

fun answers :: "u8 list option \<Rightarrow> (error, u8 list) outcome \<Rightarrow> bool" where
  "answers (Some bytes) r \<longleftrightarrow> r = Ok bytes"
| "answers None r \<longleftrightarrow> (\<exists>why. r = Err (Protocol why))"

section \<open>Simulation\<close>

lemma served_span:
  assumes "range_inv s" "length store = unat (blocks (geometry s)) * bsize s"
  shows "served (bsize s) store offset len \<longleftrightarrow> (\<exists>x. span s offset len = Inr x)"
proof
  have size: "unat (size_bytes s) = length store" using unat_size_bytes [OF assms(1)] assms(2) by simp
  show "\<exists>x. span s offset len = Inr x" if "served (bsize s) store offset len"
    using that span_nat [OF assms(1), of len offset] size by (auto simp: served_def max_range_bytes_def)
  show "served (bsize s) store offset len" if accepted: "\<exists>x. span s offset len = Inr x"
  proof -
    obtain x where x: "span s offset len = Inr x" using accepted by blast
    note r = span_range [OF x]
    show ?thesis using r span_nat [OF assms(1) r] x size by (auto simp: served_def max_range_bytes_def split: if_splits)
  qed
qed

lemma span_refusal: "span s offset len = Inl e \<Longrightarrow> \<exists>why. e = Protocol why"
  by (auto simp: span_def Let_def split: if_splits option.splits)

context block_store begin

lemma flat_call_simulated:
  assumes s: "attached s" and op: "op \<noteq> Eject_Op"
  shows "\<exists>r t. range_call uw B op s = (r, t) \<and> answers (fst (flat_call (unat bs) (access s) op (contents (scsi s)))) r \<and>
    attached t \<and> contents (scsi t) = snd (flat_call (unat bs) (access s) op (contents (scsi s))) \<and> access t = access s"
proof -
  have inv: "range_inv s" "bsize s = unat bs" "length (contents (scsi s)) = unat (blocks (geometry s)) * bsize s"
    using s by (simp_all add: attached_def)
  note span = served_span [OF inv(1,3), unfolded inv(2)]
  show ?thesis
  proof (cases op)
    case (Read_Op offset len)
    show ?thesis
    proof (cases "span s offset len")
      case (Inl e)
      then show ?thesis using s span [of offset len] span_refusal [OF Inl]
        by (auto simp: Read_Op range_call_def read_range_def)
    next
      case (Inr x)
      then have "served (unat bs) (contents (scsi s)) offset len" using span by blast
      then show ?thesis using read_range_flat [OF s Inr] by (auto simp: Read_Op range_call_def)
    qed
  next
    case (Write_Op offset bytes)
    show ?thesis
    proof (cases "access s = ReadWrite \<and> (\<exists>x. span s offset (length bytes) = Inr x)")
      case True
      then obtain x where x: "access s = ReadWrite" "span s offset (length bytes) = Inr x" by blast
      have "served (unat bs) (contents (scsi s)) offset (length bytes)" using span x by blast
      then show ?thesis using x write_range_flat [OF s x]
        by (auto simp: Write_Op range_call_def and_then_def act_simps overwrite_def)
    next
      case False
      then have "\<exists>why. write_range uw B offset bytes s = (Err (Protocol why), s)"
        using span_refusal [of s offset "length bytes"] by (cases "span s offset (length bytes)") (auto simp: write_range_def)
      then obtain why where "write_range uw B offset bytes s = (Err (Protocol why), s)" by blast
      moreover have "\<not> (access s = ReadWrite \<and> served (unat bs) (contents (scsi s)) offset (length bytes))"
        using False span by blast
      ultimately show ?thesis using s by (auto simp: Write_Op range_call_def and_then_def)
    qed
  next
    case Sync_Op
    then show ?thesis using sync_flat [OF s] by (auto simp: range_call_def and_then_def act_simps)
  qed (use op in simp)
qed

lemma flat_run_simulated:
  assumes "attached s" "Eject_Op \<notin> set ops"
  shows "\<exists>rs t. range_run uw B ops s = (rs, t) \<and>
    list_all2 answers (fst (flat_run (unat bs) (access s) ops (contents (scsi s)))) rs \<and>
    attached t \<and> contents (scsi t) = snd (flat_run (unat bs) (access s) ops (contents (scsi s))) \<and> access t = access s"
  using assms
proof (induction ops arbitrary: s)
  case (Cons op ops)
  from Cons.prems flat_call_simulated [of s op] obtain r t where call: "range_call uw B op s = (r, t)"
    "answers (fst (flat_call (unat bs) (access s) op (contents (scsi s)))) r" "attached t"
    "contents (scsi t) = snd (flat_call (unat bs) (access s) op (contents (scsi s)))" "access t = access s" by auto
  from Cons.IH [OF call(3)] Cons.prems(2) call show ?case by (auto split: prod.splits)
qed simp

end

context bot_target begin

lemmas target_run = flat_run_simulated

end

section \<open>Properties\<close>

text \<open>
  C3: A session is a flat store, call by call. Over any device that behaves as a Bulk-Only Transport disk
  on the wire, any sequence of reads, writes and syncs, of ranges inside or outside the device, on a
  read-only or a writable session, is answered exactly as one list of bytes answers it: a range that is
  served returns or replaces its bytes, every other call is refused with a protocol error and changes
  nothing, and at the end the device holds the bytes the list holds. No call is left without an
  answer, and the session is usable after all of them.
\<close>

theorem session_is_flat_store:
  assumes "bot_target uw B bs disk idle sending receiving" "range_inv s" "usable (scsi s)" "idle (io (scsi s))"
    "block_size (geometry s) = bs" "length (disk (io (scsi s))) = unat (blocks (geometry s)) * unat bs" "Eject_Op \<notin> set ops"
  shows "\<exists>rs t. range_run uw B ops s = (rs, t) \<and>
    list_all2 answers (fst (flat_run (unat bs) (access s) ops (disk (io (scsi s))))) rs \<and>
    disk (io (scsi t)) = snd (flat_run (unat bs) (access s) ops (disk (io (scsi s)))) \<and> usable (scsi t)"
proof -
  note s = bot_target.attachedI [OF assms(1-6)]
  show ?thesis using bot_target.target_run [OF assms(1) s assms(7)] bot_target.attachedD [OF assms(1)] by blast
qed

theorem session_is_flat_store_witness:
  "\<exists>s rs t. connect disk_io ReadWrite (test_disk 8) = (Ok s, scsi s) \<and>
    range_run 32 disk_io [Write_Op 511 [7, 8], Read_Op 4096 1, Read_Op 510 4, Sync_Op] s = (rs, t) \<and>
    rs ! 0 = Ok [] \<and> (\<exists>why. rs ! 1 = Err (Protocol why)) \<and> rs ! 2 = Ok [0, 7, 8, 0] \<and> rs ! 3 = Ok [] \<and> usable (scsi t)"
proof -
  obtain s d where s: "connect disk_io ReadWrite (test_disk 8) = (Ok s, d)" "disk64.attached s" "access s = ReadWrite"
    "geometry s = \<lparr>blocks = 8, block_size = 512\<rparr>" "disk_bytes (io (scsi s)) = replicate 4096 0"
    using disk_connect [of "test_disk 8" ReadWrite] test_disk_ready [of 8] by (auto simp: test_disk_def)
  have live: "range_inv s" "usable (scsi s)" "disk_idle (io (scsi s))" using disk64.attachedD [OF s(2)] by auto
  have size: "block_size (geometry s) = 512" "length (disk_bytes (io (scsi s))) = unat (blocks (geometry s)) * unat (512 :: u32)"
    using s(4,5) by simp_all
  let ?ops = "[Write_Op 511 [7, 8], Read_Op 4096 1, Read_Op 510 4, Sync_Op]"
  from session_is_flat_store [OF disk_bot_target [of 32] live size, of ?ops] obtain rs t where
    run: "range_run 32 disk_io ?ops s = (rs, t)" "usable (scsi t)"
    "list_all2 answers (fst (flat_run 512 ReadWrite ?ops (replicate 4096 0))) rs" using s(3,5) by auto
  have "fst (flat_run 512 ReadWrite ?ops (replicate 4096 0)) = [Some [], None, Some [0, 7, 8, 0], Some []]"
    by (simp add: served_def take_Cons')
  moreover have "scsi s = d" using connect_Ok [OF s(1)] by simp
  ultimately show ?thesis using run s(1) by (auto simp: list_all2_Cons1)
qed

end
