(* ===== verification/Usb_Stack.thy ===== *)
theory Usb_Stack
  imports Nusb_Properties Range_Machine
begin

text \<open>
  The native stack put together: \<open>NusbIo\<close> over a USB library whose two bulk endpoints lead to a device,
  \<open>Scsi\<close> and \<open>RangeSession\<close> over it, from opening the interface to the teardown and the next
  connection. \<open>usb_over\<close> is such a library for any device, and keeps the library's documentation; \<open>NusbIo\<close> over it
  simulates the device.
\<close>

section \<open>A USB library over a device\<close>

record 'd usb_world =
  device :: 'd
  outs :: "u8 list list"
  ins :: "nat list"

definition completed_out :: "(error, nat) outcome \<times> 'd \<Rightarrow> (error, completion) outcome \<times> 'd" where
  "completed_out x = (case x of (r, d) \<Rightarrow>
     (map_outcome id (\<lambda>n. \<lparr>status = None, actual_len = n, buffer = []\<rparr>) r, d))"

definition completed_in :: "(error, u8 list) outcome \<times> 'd \<Rightarrow> (error, completion) outcome \<times> 'd" where
  "completed_in x = (case x of (r, d) \<Rightarrow>
     (map_outcome id (\<lambda>bytes. \<lparr>status = None, actual_len = length bytes, buffer = bytes\<rparr>) r, d))"

text \<open>Endpoint \<open>True\<close> is bulk IN, \<open>False\<close> bulk OUT; a transfer runs when its completion is awaited.
  Submitting a bulk IN request that is not made of whole packets panics, as the library documents;
  a request on the endpoint of the other direction, which the code never makes, is queued empty.\<close>

definition usb_over :: "'d bulk_io \<Rightarrow> nat \<Rightarrow> ('d usb_world, unit, bool) nusb" where
  "usb_over T packet = \<lparr>interface_number = (\<lambda>_. 7), get_alt_setting = (\<lambda>_ _. 0), descriptors = (\<lambda>_ _. [sample_alt packet]),
     open_endpoint = (\<lambda>_ a. if a = 0x83 then fail (Open ''endpoint is in use'') else ret (a = 0x81)), control_in = (\<lambda>_ _ _ w. (Ok [bulk_max_lun T (device w)], w)),
     submit_out = (\<lambda>e data w. if e then w\<lparr>ins := ins w @ [0]\<rparr> else w\<lparr>outs := outs w @ [data]\<rparr>),
     submit_in = (\<lambda>e n w. if n mod sample_packet packet e \<noteq> 0 then None
       else Some (if e then w\<lparr>ins := ins w @ [n]\<rparr> else w\<lparr>outs := outs w @ [[]]\<rparr>)),
     next_complete = (\<lambda>e w.
       if e then (case ins w of [] \<Rightarrow> (Panicked, w)
         | n # ns \<Rightarrow> (case completed_in (bulk_read T n (device w)) of (r, d) \<Rightarrow> (r, w\<lparr>device := d, ins := ns\<rparr>)))
       else (case outs w of [] \<Rightarrow> (Panicked, w)
         | data # ds \<Rightarrow> (case completed_out (bulk_write T data (device w)) of (r, d) \<Rightarrow> (r, w\<lparr>device := d, outs := ds\<rparr>)))),
     cancel_all = (\<lambda>_ w. w), pending_transfers = (\<lambda>e w. if e then length (ins w) else length (outs w))\<rparr>"

lemma usb_over_completes:
  assumes "\<And>data d. fst (bulk_write T data d) \<noteq> Panicked" "\<And>n d. fst (bulk_read T n d) \<noteq> Panicked"
  shows "usb_completes (usb_over T packet) (sample_packet packet)"
proof -
  have "fst (completed_out (bulk_write T data d)) \<noteq> Panicked" "fst (completed_in (bulk_read T n d)) \<noteq> Panicked" for data n d
    using assms(1) [of data d] assms(2) [of n d]
    by (cases "fst (bulk_write T data d)"; cases "fst (bulk_read T n d)"; simp add: completed_out_def completed_in_def case_prod_beta)+
  then show ?thesis
    by (auto simp: usb_completes_def usb_over_def sample_alt_def act_iffs case_prod_beta mod_eq_0_iff_dvd split: if_splits list.splits)
qed

text \<open>The open transport and its world, with nothing in flight, in front of a device.\<close>

definition in_front :: "'d bulk_io \<Rightarrow> nat \<Rightarrow> (bool, unit, unit) nusb_io \<times> 'd usb_world \<Rightarrow> 'd \<Rightarrow> bool" where
  "in_front T packet x d \<longleftrightarrow> io_input (fst x) \<and> \<not> io_output (fst x) \<and> input_packet_size (fst x) = packet \<and>
     io_max_lun (fst x) = bulk_max_lun T d \<and> snd x = \<lparr>device = d, outs = [], ins = []\<rparr>"

text \<open>A device that does not see that a read is rounded up to whole packets, and keeps its number of LUNs.\<close>

definition rounding_blind :: "'d bulk_io \<Rightarrow> bool" where
  "rounding_blind T \<longleftrightarrow> (\<forall>n k. 0 < n \<longrightarrow> n \<le> k \<longrightarrow> bulk_read T k = bulk_read T n) \<and>
     (\<forall>data d. bulk_max_lun T (snd (bulk_write T data d)) = bulk_max_lun T d) \<and>
     (\<forall>n d. bulk_max_lun T (snd (bulk_read T n d)) = bulk_max_lun T d)"

lemma nusb_write_over:
  assumes "in_front T packet x d"
  shows "\<exists>y. nusb_write (usb_over T packet) data x = (fst (bulk_write T data d), y) \<and> fst y = fst x \<and>
    snd y = \<lparr>device = snd (bulk_write T data d), outs = [], ins = []\<rparr>"
proof -
  obtain h where x: "x = (h, \<lparr>device = d, outs = [], ins = []\<rparr>)" "\<not> io_output h"
    using assms by (cases x) (auto simp: in_front_def)
  obtain r e where run: "bulk_write T data d = (r, e)" by fastforce
  show ?thesis unfolding x(1) run using x(2) run
    by (cases r) (simp_all add: nusb_write_def usb_over_def and_then_on_world act_simps completed_out_def completion_ok_def)
qed

lemma nusb_read_over:
  assumes "in_front T packet x d" "next_multiple_of uw n packet = Some k" "k mod packet = 0"
  shows "\<exists>y. nusb_read uw (usb_over T packet) n x = (fst (bulk_read T k d), y) \<and> fst y = fst x \<and>
    snd y = \<lparr>device = snd (bulk_read T k d), outs = [], ins = []\<rparr>"
proof -
  obtain h where x: "x = (h, \<lparr>device = d, outs = [], ins = []\<rparr>)" "io_input h" "input_packet_size h = packet"
    using assms(1) by (cases x) (auto simp: in_front_def)
  obtain r e where run: "bulk_read T k d = (r, e)" by fastforce
  show ?thesis unfolding x(1) run using x(2,3) run assms(2,3)
    by (cases r) (simp_all add: nusb_read_def usb_over_def and_then_on_world submitted_def act_simps completed_in_def completion_ok_def)
qed

text \<open>Packets of up to 65536 bytes, as in a USB descriptor.\<close>

lemma usb_over_simulates:
  assumes T: "rounding_blind T" and packet: "0 < packet" "packet \<le> 65536" and uw: "32 \<le> uw"
  shows "bulk_simulation (nusb_bulk uw (usb_over T packet)) T (in_front T packet)"
proof
  have lun: "bulk_max_lun T (snd (bulk_write T data d)) = bulk_max_lun T d" "bulk_max_lun T (snd (bulk_read T n d)) = bulk_max_lun T d"
    for data n d using T unfolding rounding_blind_def by blast+
  show "bulk_max_lun (nusb_bulk uw (usb_over T packet)) i = bulk_max_lun T j" if "in_front T packet i j" for i j
    using that by (auto simp: nusb_bulk_def in_front_def split: prod.split)
  show "mirrors (in_front T packet) (=) (bulk_write (nusb_bulk uw (usb_over T packet)) data) (bulk_write T data)" for data
  proof (rule mirrorsI)
    fix x d assume x: "in_front T packet x d"
    show "rel_outcome (=) (=) (fst (bulk_write (nusb_bulk uw (usb_over T packet)) data x)) (fst (bulk_write T data d)) \<and>
        in_front T packet (snd (bulk_write (nusb_bulk uw (usb_over T packet)) data x)) (snd (bulk_write T data d))"
      using nusb_write_over [OF x, of data] x
      by (auto simp: nusb_bulk_def in_front_def lun intro: outcome.rel_refl)
  qed
  show "mirrors (in_front T packet) (=) (bulk_read (nusb_bulk uw (usb_over T packet)) n) (bulk_read T n)"
    if n: "0 < n" "n \<le> 1024 * 1024" for n
  proof (rule mirrorsI)
    fix x d assume x: "in_front T packet x d"
    have "n + packet \<le> 2 ^ uw" using n packet power_increasing [OF uw, of "2 :: nat"] by simp
    then obtain k where k: "next_multiple_of uw n packet = Some k" "k mod packet = 0" "n \<le> k"
      using next_multiple_of_small [OF packet(1)] by (metis dvd_eq_mod_eq_0)
    then have "bulk_read T k = bulk_read T n" using T n(1) unfolding rounding_blind_def by blast
    then show "rel_outcome (=) (=) (fst (bulk_read (nusb_bulk uw (usb_over T packet)) n x)) (fst (bulk_read T n d)) \<and>
        in_front T packet (snd (bulk_read (nusb_bulk uw (usb_over T packet)) n x)) (snd (bulk_read T n d))"
      using nusb_read_over [OF x k(1,2)] x
      by (auto simp: nusb_bulk_def in_front_def lun intro: outcome.rel_refl)
  qed
qed

lemma disk_rounding_blind: "rounding_blind disk_io"
  by (auto simp: rounding_blind_def disk_read_def fun_eq_iff)

interpretation usb64: bulk_simulation "nusb_bulk 64 (usb_over disk_io 512)" disk_io "in_front disk_io 512"
  by (rule usb_over_simulates [OF disk_rounding_blind]) simp_all

interpretation usb32: bulk_simulation "nusb_bulk 32 (usb_over disk_io 512)" disk_io "in_front disk_io 512"
  by (rule usb_over_simulates [OF disk_rounding_blind]) simp_all

section \<open>Opening and closing\<close>

text \<open>\<open>NusbIo::connect\<close> opens the interface of such a library, and \<open>close\<close> returns when nothing is in flight.\<close>

lemma usb_over_connect:
  assumes "bulk_max_lun T d \<le> 15"
  shows "\<exists>h. nusb_connect (usb_over T packet) () 0 (5 * 10 ^ 9) \<lparr>device = d, outs = [], ins = []\<rparr> =
      (Ok (h :: (bool, unit, unit) nusb_io), \<lparr>device = d, outs = [], ins = []\<rparr>) \<and>
    in_front T packet (h, \<lparr>device = d, outs = [], ins = []\<rparr>) d"
  using assms
  by (simp add: nusb_connect_def initialize_def validate_timeout_def from_interface_def usb_over_def sample_alt_def
      act_simps match_result_def and_then_def parse_max_lun_def is_bulk_in_def is_bulk_out_def in_front_def)

lemma usb_over_close:
  assumes "in_front T packet (h, w) d"
  shows "close_native (usb_over T packet) h w = Some (Ok (), w)"
  using assms by (simp add: close_native_def drain.simps in_front_def usb_over_def)

section \<open>From opening to the next connection\<close>

text \<open>One connection: open, select the LUN, connect the byte ranges.\<close>

definition open_ranges ::
  "nat \<Rightarrow> ('w, unit, 'e) nusb \<Rightarrow> access \<Rightarrow> 'w \<Rightarrow> (('e, unit, unit) nusb_io \<times> 'w) range_session option" where
  "open_ranges uw N a w = (case nusb_connect N () 0 (5 * 10 ^ 9) w of
     (Ok h, v) \<Rightarrow> (case scsi_new (nusb_bulk uw N) (h, v) 0 of
         Inr c \<Rightarrow> (case connect (nusb_bulk uw N) a c of (Ok s, _) \<Rightarrow> Some s | _ \<Rightarrow> None)
       | Inl _ \<Rightarrow> None)
   | _ \<Rightarrow> None)"

text \<open>The teardown of a session: \<open>into_inner\<close> twice, then \<open>close\<close>.\<close>

definition close_ranges :: "('w, 'i, 'e) nusb \<Rightarrow> (('e, 'd, 'i) nusb_io \<times> 'w) range_session \<Rightarrow> 'w option" where
  "close_ranges N s = (case io (scsi s) of (h, w) \<Rightarrow>
     (case close_native N h w of Some (Ok _, v) \<Rightarrow> Some v | _ \<Rightarrow> None))"

lemma open_ranges_over:
  assumes T: "rounding_blind T" and packet: "0 < packet" "packet \<le> 65536" and uw: "32 \<le> uw" and lun: "bulk_max_lun T d \<le> 15"
    and run: "scsi_new T d 0 = Inr c" "connect T a c = (Ok t, c')"
  shows "\<exists>s. open_ranges uw (usb_over T packet) a \<lparr>device = d, outs = [], ins = []\<rparr> = Some s \<and> same_range (in_front T packet) s t"
proof -
  note sim = usb_over_simulates [OF T packet uw]
  obtain h where h: "nusb_connect (usb_over T packet) () 0 (5 * 10 ^ 9) \<lparr>device = d, outs = [], ins = []\<rparr> =
      (Ok (h :: (bool, unit, unit) nusb_io), \<lparr>device = d, outs = [], ins = []\<rparr>)"
    "in_front T packet (h, \<lparr>device = d, outs = [], ins = []\<rparr>) d" using usb_over_connect [OF lun] by blast
  obtain b where b: "scsi_new (nusb_bulk uw (usb_over T packet)) (h, \<lparr>device = d, outs = [], ins = []\<rparr>) 0 = Inr b"
    "same_scsi (in_front T packet) b c" using bulk_simulation.new_mirrors [OF sim h(2) run(1)] by blast
  obtain s b' where s: "connect (nusb_bulk uw (usb_over T packet)) a b = (Ok s, b')" "same_range (in_front T packet) s t"
    using mirrors_Ok [OF bulk_simulation.connect_mirrors [OF sim] b(2) run(2)] by metis
  then show ?thesis using h(1) b(1) by (simp add: open_ranges_def)
qed

lemma close_ranges_over:
  "same_range (in_front T packet) s t \<Longrightarrow>
   close_ranges (usb_over T packet) s = Some \<lparr>device = io (scsi t), outs = [], ins = []\<rparr>"
  using usb_over_close [of T packet "fst (io (scsi s))" "snd (io (scsi s))"]
  by (auto simp: close_ranges_def same_range_def same_scsi_def in_front_def split: prod.split)

lemma usb_round:
  assumes "disk_idle d" "0 < packet" "packet \<le> 65536" "32 \<le> uw"
    and "bytes \<noteq> []" "unat offset + length bytes \<le> length (disk_bytes d)"
  defines "N \<equiv> usb_over disk_io packet"
  shows "\<exists>s t u v f g. open_ranges uw N ReadWrite \<lparr>device = d, outs = [], ins = []\<rparr> = Some s \<and>
    write_range uw (nusb_bulk uw N) offset bytes s = (Ok (), t) \<and> sync (nusb_bulk uw N) t = (Ok (), u) \<and>
    close_ranges N u = Some v \<and> outs v = [] \<and> ins v = [] \<and> open_ranges uw N ReadOnly v = Some f \<and>
    read_range uw (nusb_bulk uw N) offset (length bytes) f = (Ok bytes, g) \<and>
    (\<forall>k < length (disk_bytes d). k < unat offset \<or> unat offset + length bytes \<le> k \<longrightarrow> disk_bytes (device v) ! k = disk_bytes d ! k) \<and>
    (\<exists>why. write_range uw (nusb_bulk uw N) offset bytes g = (Err (Protocol why), g))"
proof -
  let ?c = "\<lparr>io = d, tag = 0, lun = 0, usable = True\<rparr>"
  let ?S = "in_front disk_io packet"
  note opened = open_ranges_over [OF disk_rounding_blind assms(2-4), folded N_def]
  note sim = usb_over_simulates [OF disk_rounding_blind assms(2-4), folded N_def]
  have new: "scsi_new disk_io x 0 = Inr \<lparr>io = x, tag = 0, lun = 0, usable = True\<rparr>" for x by (simp add: scsi_new_def)
  obtain s' d1 t' u' f' d2 g' where disk: "connect disk_io ReadWrite ?c = (Ok s', d1)"
    "write_range uw disk_io offset bytes s' = (Ok (), t')" "sync disk_io t' = (Ok (), u')"
    "connect disk_io ReadOnly \<lparr>io = io (scsi u'), tag = 0, lun = 0, usable = True\<rparr> = (Ok f', d2)"
    "read_range uw disk_io offset (length bytes) f' = (Ok bytes, g')"
    "disk_bytes (io (scsi u')) = overwrite (unat offset) bytes (disk_bytes d)"
    using disk_round [of ?c uw bytes offset] assms by auto
  have kept: "\<forall>k < length (disk_bytes d). k < unat offset \<or> unat offset + length bytes \<le> k \<longrightarrow>
      disk_bytes (io (scsi u')) ! k = disk_bytes d ! k" using disk(6) assms(6) by (auto simp: overwrite_nth)
  obtain s where s: "open_ranges uw N ReadWrite \<lparr>device = d, outs = [], ins = []\<rparr> = Some s" "same_range ?S s s'"
    using opened [OF _ new disk(1)] by auto
  obtain t where t: "write_range uw (nusb_bulk uw N) offset bytes s = (Ok (), t)" "same_range ?S t t'"
    using mirrors_Ok [OF bulk_simulation.write_range_mirrors [OF sim] s(2) disk(2)] by metis
  obtain u where u: "sync (nusb_bulk uw N) t = (Ok (), u)" "same_range ?S u u'"
    using mirrors_Ok [OF bulk_simulation.session_mirrors(1) [OF sim] t(2) disk(3)] by metis
  note closed = close_ranges_over [OF u(2), folded N_def]
  obtain f where f: "open_ranges uw N ReadOnly \<lparr>device = io (scsi u'), outs = [], ins = []\<rparr> = Some f" "same_range ?S f f'"
    using opened [OF _ new disk(4)] by auto
  obtain g where g: "read_range uw (nusb_bulk uw N) offset (length bytes) f = (Ok bytes, g)" "same_range ?S g g'"
    using mirrors_Ok [OF bulk_simulation.read_range_mirrors [OF sim] f(2) disk(5)] by metis
  have "access g = ReadOnly"
    using g(2) withinD [OF range_same(1) disk(5)] connect_Ok [OF disk(4)] by (simp add: same_range_def same_session_def)
  then show ?thesis using s(1) t(1) u(1) closed f(1) g(1) kept write_range_refused by fastforce
qed

abbreviation usb_disk :: "nat \<Rightarrow> (disk usb_world, unit, bool) nusb" where
  "usb_disk packet \<equiv> usb_over disk_io packet"

text \<open>
  C4: The native stack, end to end. Over a USB library whose bulk endpoints lead to the in-memory disk of
  the crate's tests, of any size up to 1 MiB and with any contents, with any packet size up to 65536, of
  which it requires every IN request to be a multiple, and a \<open>usize\<close> of at least 32 bits: opening the interface with \<open>NusbIo::connect\<close>, connecting read-write,
  writing any bytes inside the disk at any offset, syncing and closing all succeed and leave nothing in
  flight; opening it anew read-only then reads back exactly those bytes, every byte outside the range
  is what it was before, and a write is refused.
\<close>

theorem usb_write_read_back:
  assumes "disk_idle d" "0 < packet" "packet \<le> 65536" "32 \<le> uw"
    and "bytes \<noteq> []" "unat offset + length bytes \<le> length (disk_bytes d)"
  shows "\<exists>s t u v f g. open_ranges uw (usb_disk packet) ReadWrite \<lparr>device = d, outs = [], ins = []\<rparr> = Some s \<and>
    write_range uw (nusb_bulk uw (usb_disk packet)) offset bytes s = (Ok (), t) \<and> sync (nusb_bulk uw (usb_disk packet)) t = (Ok (), u) \<and>
    close_ranges (usb_disk packet) u = Some v \<and> outs v = [] \<and> ins v = [] \<and> open_ranges uw (usb_disk packet) ReadOnly v = Some f \<and>
    read_range uw (nusb_bulk uw (usb_disk packet)) offset (length bytes) f = (Ok bytes, g) \<and>
    (\<forall>k < length (disk_bytes d). k < unat offset \<or> unat offset + length bytes \<le> k \<longrightarrow> disk_bytes (device v) ! k = disk_bytes d ! k) \<and>
    (\<exists>why. write_range uw (nusb_bulk uw (usb_disk packet)) offset bytes g = (Err (Protocol why), g))"
  by (rule usb_round [OF assms])

theorem usb_write_read_back_witness:
  "\<exists>s t u v f g. open_ranges 32 (usb_disk 64) ReadWrite \<lparr>device = io (test_disk 8), outs = [], ins = []\<rparr> = Some s \<and>
    write_range 32 (nusb_bulk 32 (usb_disk 64)) 507 (replicate 20 77) s = (Ok (), t) \<and>
    sync (nusb_bulk 32 (usb_disk 64)) t = (Ok (), u) \<and> close_ranges (usb_disk 64) u = Some v \<and>
    open_ranges 32 (usb_disk 64) ReadOnly v = Some f \<and>
    read_range 32 (nusb_bulk 32 (usb_disk 64)) 507 20 f = (Ok (replicate 20 77), g)"
  using usb_write_read_back [of "io (test_disk 8)" 64 32 "replicate 20 77" 507] test_disk_ready [of 8]
  by (simp add: test_disk_def) blast

end
