(* ===== verification/Unit_Tests.thy ===== *)
theory Unit_Tests
  imports Nusb_Properties Range_Properties "HOL-Library.Sublist"
begin

text \<open>
  The unit tests of \<open>nusb-scsi\<close>, one definition per \<open>#[test]\<close>: the assertions of the test, over the
  models of what it calls. That each holds shows that the models agree with the code on every input
  its authors chose.
\<close>

section \<open>The texts of the errors\<close>

text \<open>\<open>thiserror\<close>'s \<open>Display\<close>; the texts of the USB library's own errors are a parameter.\<close>

fun display :: "(transfer_error \<Rightarrow> string) \<Rightarrow> error \<Rightarrow> string" where
  "display usb (Cleanup e c) = display usb e @ ''; cleanup failed: '' @ display usb c"
| "display usb (Close reason) = ''WebUSB device close failed: '' @ reason"
| "display usb (Usb e) = ''USB transfer: '' @ usb e"
| "display usb (Open reason) = ''USB interface: '' @ reason"
| "display usb (Protocol reason) = ''storage protocol: '' @ reason"
| "display usb CommandFailed = ''SCSI command failed; request sense before retry''"
| "display usb Retired = ''storage session is retired; reconnect required''"
| "display usb InitializationTimeout = ''USB initialization timed out; close the device before reconnecting''"

fun is_ok :: "('e, 'a) outcome \<Rightarrow> bool" where
  "is_ok (Ok a) = True"
| "is_ok _ = False"

fun is_err :: "('e, 'a) outcome \<Rightarrow> bool" where
  "is_err (Err e) = True"
| "is_err _ = False"

fun is_protocol :: "error + 'a \<Rightarrow> bool" where
  "is_protocol (Inl (Protocol why)) = True"
| "is_protocol _ = False"

text \<open>\<open>Scsi::new(Fake { reads, short }, 0).unwrap()\<close>; a failure of the \<open>unwrap\<close> fails the test.\<close>

definition on_fake :: "u8 list list \<Rightarrow> bool \<Rightarrow> (fake scsi \<Rightarrow> bool) \<Rightarrow> bool" where
  "on_fake replies short body =
     (case scsi_new fake_io \<lparr>fake_reads = replies, fake_short = short\<rparr> 0 of Inl _ \<Rightarrow> False | Inr d \<Rightarrow> body d)"

section \<open>The tests of \<open>lib.rs\<close>\<close>

definition cleanup_retains_primary_failure_and_its_context :: "(transfer_error \<Rightarrow> string) \<Rightarrow> bool" where
  "cleanup_retains_primary_failure_and_its_context usb =
     (let e = with_cleanup (Protocol ''claimInterface: Unable to claim interface'') (Close ''device.close rejected'')
      in prefix ''storage protocol: claimInterface: Unable to claim interface'' (display usb e) \<and>
         sublist ''cleanup failed: WebUSB device close failed: device.close rejected'' (display usb e) \<and>
         (case e of Cleanup (Protocol _) _ \<Rightarrow> True | _ \<Rightarrow> False))"

definition get_max_lun_targets_the_selected_interface :: bool where
  "get_max_lun_targets_the_selected_interface =
     (let r = get_max_lun_request 7
      in control_type r = ClassRequest \<and> recipient r = ToInterface \<and>
         (request r, req_value r, req_index r, req_length r) = (0xfe, 0, 7, 1))"

definition max_lun_requires_a_valid_reply_or_the_standard_single_lun_stall :: bool where
  "max_lun_requires_a_valid_reply_or_the_standard_single_lun_stall =
     (parse_max_lun (Inr [0]) = Inr 0 \<and> parse_max_lun (Inr [15]) = Inr 15 \<and> parse_max_lun (Inl Stall) = Inr 0 \<and>
      list_all (\<lambda>response. is_protocol (parse_max_lun (Inr response))) [[], [16], [0, 0]] \<and>
      parse_max_lun (Inl Cancelled) = Inl (Usb Cancelled) \<and>
      is_err (fst (validate_timeout 0 ())) \<and> is_err (fst (validate_timeout (61 * 10 ^ 9) ())) \<and>
      is_ok (fst (validate_timeout (5 * 10 ^ 9) ())))"

definition single_lun :: "unit bulk_io" where
  "single_lun = \<lparr>bulk_max_lun = (\<lambda>_. 0), bulk_write = (\<lambda>_. panic), bulk_read = (\<lambda>_. panic)\<rparr>"

definition selected_lun_cannot_exceed_the_connected_transport :: bool where
  "selected_lun_cannot_exceed_the_connected_transport =
     ((case scsi_new single_lun () 0 of Inl _ \<Rightarrow> False | Inr _ \<Rightarrow> True) \<and> is_protocol (scsi_new single_lun () 1))"

definition validates_csw_and_flush :: bool where
  "validates_csw_and_flush =
     (list_all (\<lambda>bytes. on_fake [bytes] False (\<lambda>d.
        case flush fake_io d of (r, d) \<Rightarrow> is_err r \<and> \<not> usable d \<and> fst (flush fake_io d) = Err Retired))
        [csw_bytes 9 0 0, csw_bytes 1 1 0, csw_bytes 1 0 2, replicate 13 0] \<and>
      on_fake [csw_bytes 1 0 0] False (\<lambda>d. case flush fake_io d of (r, d) \<Rightarrow> is_ok r \<and> usable d))"

definition rejects_short_writes :: bool where
  "rejects_short_writes = on_fake [] True (\<lambda>d. case flush fake_io d of (r, d) \<Rightarrow> is_err r \<and> \<not> usable d)"

definition failed_scsi_command_remains_available_for_sense :: bool where
  "failed_scsi_command_remains_available_for_sense =
     on_fake [csw_bytes 1 0 1] False (\<lambda>d. case flush fake_io d of (r, d) \<Rightarrow> r = Err CommandFailed \<and> usable d)"

definition test_sense :: "u8 \<Rightarrow> u8 \<Rightarrow> u8 \<Rightarrow> u8 \<Rightarrow> u8 list" where
  "test_sense response key asc ascq = (replicate 18 0)[0 := response, 2 := key, 7 := 10, 12 := asc, 13 := ascq]"

definition new_session_consumes_only_recognized_current_unit_attention :: bool where
  "new_session_consumes_only_recognized_current_unit_attention =
     list_all (\<lambda>(response, key, asc, ascq, retry).
       on_fake ([csw_bytes 1 0 1, test_sense response key asc ascq, csw_bytes 2 0 0] @ (if retry then [csw_bytes 3 0 0] else []))
         False (\<lambda>d. case initialize_ready fake_io d of (r, d) \<Rightarrow> is_ok r = retry \<and> fake_reads (io d) = [] \<and> usable d))
       [(0x70, 6, 0x29, 0, True), (0x70, 6, 0x29, 7, True), (0x70, 6, 0x28, 0, True), (0x71, 6, 0x29, 0, False),
        (0x70, 2, 0x3a, 0, False), (0x70, 6, 0x2a, 1, False), (0x70, 6, 0x29, 8, False)]"

definition initialization_does_not_loop_or_retry_transport_uncertainty :: bool where
  "initialization_does_not_loop_or_retry_transport_uncertainty =
     (on_fake [csw_bytes 1 0 1, test_sense 0x70 6 0x29 0, csw_bytes 2 0 0, csw_bytes 3 0 1] False (\<lambda>d.
        case initialize_ready fake_io d of (r, d) \<Rightarrow> r = Err CommandFailed \<and> fake_reads (io d) = []) \<and>
      on_fake [] True (\<lambda>d. case initialize_ready fake_io d of (r, d) \<Rightarrow> r = Err (Protocol ''short CBW'') \<and> \<not> usable d))"

definition rejects_invalid_ranges :: "nat \<Rightarrow> bool" where
  "rejects_invalid_ranges uw =
     ((case block_command uw 0x28 (- 1) 2 512 of Inl _ \<Rightarrow> True | Inr _ \<Rightarrow> False) \<and>
      (case block_command uw 0x28 0 0 512 of Inl _ \<Rightarrow> True | Inr _ \<Rightarrow> False))"

definition successful_eject_retires_the_session :: bool where
  "successful_eject_retires_the_session =
     on_fake [csw_bytes 1 0 0] False (\<lambda>d. case eject fake_io d of (r, d) \<Rightarrow>
       is_ok r \<and> \<not> usable d \<and> fst (test_unit_ready fake_io d) = Err Retired)"

lemmas on_fake_run = on_fake_def scsi_new_def command_def bad_shape_def u32_try_from_def exchange_def data_stage_def
  data_in.simps max_chunk_def with_io_def fake_write_def fake_read_def act_simps and_then_def match_result_def

lemma lib_tests:
  "cleanup_retains_primary_failure_and_its_context usb" "get_max_lun_targets_the_selected_interface"
  "max_lun_requires_a_valid_reply_or_the_standard_single_lun_stall" "selected_lun_cannot_exceed_the_connected_transport"
  "rejects_invalid_ranges uw"
proof -
  show "cleanup_retains_primary_failure_and_its_context usb"
  proof -
    have "display usb (with_cleanup (Protocol ''claimInterface: Unable to claim interface'') (Close ''device.close rejected'')) =
      ''storage protocol: claimInterface: Unable to claim interface; '' @
      ''cleanup failed: WebUSB device close failed: device.close rejected'' @ []" by (simp add: with_cleanup_def)
    then show ?thesis
      unfolding cleanup_retains_primary_failure_and_its_context_def Let_def
      by (auto simp only: sublist_appendI prefix_def) (simp_all add: with_cleanup_def)
  qed
  show "get_max_lun_targets_the_selected_interface"
    by (simp add: get_max_lun_targets_the_selected_interface_def get_max_lun_request_def)
  show "max_lun_requires_a_valid_reply_or_the_standard_single_lun_stall"
    by (simp add: max_lun_requires_a_valid_reply_or_the_standard_single_lun_stall_def parse_max_lun_def validate_timeout_def
        require_def act_simps)
  show "selected_lun_cannot_exceed_the_connected_transport"
    by (simp add: selected_lun_cannot_exceed_the_connected_transport_def scsi_new_def single_lun_def)
  show "rejects_invalid_ranges uw"
    by (simp add: rejects_invalid_ranges_def block_command_def checked_add_def unat_max_u32)
qed

text \<open>The four status wrappers that are refused.\<close>

lemma refused_csw:
  "check_csw 1 0 [] (csw_bytes 9 0 0) s = (Err (Protocol ''invalid CSW length, signature or tag''), s)"
  "check_csw 1 0 [] (csw_bytes 1 1 0) s = (Err (Protocol ''invalid CSW residue''), s)"
  "check_csw 1 0 [] (csw_bytes 1 0 2) s = (Err (Protocol ''CSW phase error or incomplete transfer''), s)"
  "check_csw 1 0 [] (replicate 13 0) s = (Err (Protocol ''invalid CSW length, signature or tag''), s)"
proof -
  have "hd (take 4 (replicate 13 0)) \<noteq> hd usbs" by (simp add: usbs_def)
  then have "take 4 (replicate 13 0) \<noteq> usbs" by metis
  then show "check_csw 1 0 [] (replicate 13 0) s = (Err (Protocol ''invalid CSW length, signature or tag''), s)"
    by (simp add: check_csw_def act_simps)
qed (simp_all add: check_csw_def csw_bytes_def to_le_bytes_u32_inject act_simps nth_append)

lemma flush_tests: "validates_csw_and_flush" "rejects_short_writes" "failed_scsi_command_remains_available_for_sense"
  "successful_eject_retires_the_session"
proof -
  show "validates_csw_and_flush"
    by (simp add: validates_csw_and_flush_def on_fake_run flush_def check_csw_valid refused_csw cbw_def)
  show "rejects_short_writes" by (simp add: rejects_short_writes_def on_fake_run flush_def cbw_def)
  show "failed_scsi_command_remains_available_for_sense"
    by (simp add: failed_scsi_command_remains_available_for_sense_def on_fake_run flush_def check_csw_valid cbw_def)
  show "successful_eject_retires_the_session"
    by (simp add: successful_eject_retires_the_session_def on_fake_run eject_def test_unit_ready_def check_csw_valid cbw_def)
qed

lemma attention_tests:
  "new_session_consumes_only_recognized_current_unit_attention"
  "initialization_does_not_loop_or_retry_transport_uncertainty"
proof -
  show "initialization_does_not_loop_or_retry_transport_uncertainty"
    by (simp add: initialization_does_not_loop_or_retry_transport_uncertainty_def on_fake_run initialize_ready_def
        test_unit_ready_def request_sense_def test_sense_def reset_or_new_medium_def check_csw_valid cbw_def)
  show "new_session_consumes_only_recognized_current_unit_attention"
    by (simp add: new_session_consumes_only_recognized_current_unit_attention_def on_fake_run initialize_ready_def
        test_unit_ready_def request_sense_def test_sense_def reset_or_new_medium_def check_csw_valid cbw_def)
qed

section \<open>The tests of \<open>range.rs\<close>\<close>

text \<open>\<open>m.await.unwrap()\<close> in a test.\<close>

definition expect :: "('s, 'e, 'a) act \<Rightarrow> ('a \<Rightarrow> 's \<Rightarrow> bool) \<Rightarrow> 's \<Rightarrow> bool" where
  "expect m body s = (case m s of (Ok a, t) \<Rightarrow> body a t | _ \<Rightarrow> False)"

definition test_bytes :: "u8 list" where
  "test_bytes = map (\<lambda>n. of_nat (n mod 251)) [0..<4096]"

text \<open>\<open>fn disk(fail_write)\<close>\<close>

definition range_disk :: "bool \<Rightarrow> disk" where
  "range_disk failing = \<lparr>disk_bytes = test_bytes, commands = [], reads = [], pending = None, fail_write = failing\<rparr>"

definition connected :: "disk \<Rightarrow> access \<Rightarrow> (disk range_session \<Rightarrow> bool) \<Rightarrow> bool" where
  "connected d a body = (case scsi_new disk_io d 0 of Inl _ \<Rightarrow> False | Inr c \<Rightarrow> expect (connect disk_io a) (\<lambda>s _. body s) c)"

definition unaligned_write_preserves_other_bytes_and_fresh_reads_match :: "nat \<Rightarrow> bool" where
  "unaligned_write_preserves_other_bytes_and_fresh_reads_match uw =
     connected (range_disk False) ReadWrite
       (expect (write_range uw disk_io 507 (replicate 20 77)) (\<lambda>_.
        expect (sync disk_io) (\<lambda>_ s.
        connected (io (scsi s)) ReadOnly
          (expect (read_range uw disk_io 507 20) (\<lambda>bytes f. bytes = replicate 20 77 \<and>
             take 507 (disk_bytes (io (scsi f))) = take 507 test_bytes \<and>
             drop 527 (disk_bytes (io (scsi f))) = drop 527 test_bytes)))))"

definition invalid_and_read_only_ranges_issue_no_commands :: "nat \<Rightarrow> bool" where
  "invalid_and_read_only_ranges_issue_no_commands uw =
     connected (range_disk False) ReadOnly (\<lambda>s.
       (case write_range uw disk_io 0 [4] s of (w, s1) \<Rightarrow>
       (case read_range uw disk_io 4096 1 s1 of (r1, s2) \<Rightarrow>
       (case read_range uw disk_io (- 1) 1 s2 of (r2, s3) \<Rightarrow>
       (case read_range uw disk_io 0 0 s3 of (r3, t) \<Rightarrow>
          is_err w \<and> is_err r1 \<and> is_err r2 \<and> is_err r3 \<and>
          length (commands (io (scsi t))) = length (commands (io (scsi s))) \<and> is_usable t)))))"

definition uncertain_write_retires_without_retry_or_flush :: "nat \<Rightarrow> bool" where
  "uncertain_write_retires_without_retry_or_flush uw =
     connected (range_disk True) ReadWrite (\<lambda>s.
       (case write_range uw disk_io 0 (replicate 512 4) s of (r, s1) \<Rightarrow>
       (case sync disk_io s1 of (q, t) \<Rightarrow>
          is_err r \<and> q = Err Retired \<and> length (commands (io (scsi t))) = length (commands (io (scsi s1))))))"

lemma range_disk_idle: "disk_idle (range_disk False)"
  by (simp add: disk_idle_def disk_shape_def range_disk_def test_bytes_def max_chunk_def)

lemma unaligned_test:
  assumes "32 \<le> uw"
  shows "unaligned_write_preserves_other_bytes_and_fresh_reads_match uw"
proof -
  let ?c = "\<lparr>io = range_disk False, tag = 0, lun = 0, usable = True\<rparr>"
  have n: "length test_bytes = 4096" "disk_bytes (range_disk False) = test_bytes" by (simp_all add: test_bytes_def range_disk_def)
  obtain s d t u f d' v where r: "connect disk_io ReadWrite ?c = (Ok s, d)" "write_range uw disk_io 507 (replicate 20 77) s = (Ok (), t)"
    "sync disk_io t = (Ok (), u)" "connect disk_io ReadOnly \<lparr>io = io (scsi u), tag = 0, lun = 0, usable = True\<rparr> = (Ok f, d')"
    "read_range uw disk_io 507 20 f = (Ok (replicate 20 77), v)" "disk_bytes (io (scsi v)) = overwrite 507 (replicate 20 77) test_bytes"
    using disk_round [of ?c uw "replicate 20 77" 507] assms range_disk_idle n by auto
  have "take 507 (disk_bytes (io (scsi v))) = take 507 test_bytes" "drop 527 (disk_bytes (io (scsi v))) = drop 527 test_bytes"
    using r(6) n(1) by (simp_all add: overwrite_def)
  then show ?thesis using r(1-5)
    by (simp add: unaligned_write_preserves_other_bytes_and_fresh_reads_match_def connected_def expect_def scsi_new_def)
qed

lemma invalid_test: "invalid_and_read_only_ranges_issue_no_commands uw"
proof -
  let ?c = "\<lparr>io = range_disk False, tag = 0, lun = 0, usable = True\<rparr>"
  obtain s d where s: "connect disk_io ReadOnly ?c = (Ok s, d)" "disk64.attached s" "access s = ReadOnly"
    "geometry s = \<lparr>blocks = of_nat (length test_bytes div 512), block_size = 512\<rparr>"
    using disk_connect [of ?c ReadOnly] range_disk_idle by (auto simp: range_disk_def)
  have g: "geometry s = \<lparr>blocks = 8, block_size = 512\<rparr>" using s(4) by (simp add: test_bytes_def)
  have refused: "\<exists>e. span s 4096 1 = Inl e" "\<exists>e. span s (- 1) 1 = Inl e" "\<exists>e. span s 0 0 = Inl e"
    by (simp_all add: span_def size_bytes_def g max_range_bytes_def checked_add_def unsigned_minus_1_eq_mask mask_eq_exp_minus_1)
  then show ?thesis using s disk64.attachedD [OF s(2)]
    by (auto simp: invalid_and_read_only_ranges_issue_no_commands_def connected_def expect_def scsi_new_def write_range_refused
        read_range_def is_usable_def)
qed

text \<open>The disk whose writes fail, after its connection and after the first write.\<close>

definition failing :: "u32 \<Rightarrow> u8 list \<Rightarrow> bool \<Rightarrow> disk scsi" where
  "failing t ops alive = \<lparr>io = (range_disk True)\<lparr>commands := ops\<rparr>, tag = t, lun = 0, usable = alive\<rparr>"

lemma failing_ready: "test_unit_ready disk_io (failing t ops True) = (Ok (), failing (t + 1) (ops @ [0]) True)"
  by (simp add: failing_def range_disk_def test_unit_ready_def on_fake_run disk_write_def disk_read_def replicate_6
      disk_wrapper_plain check_csw_valid cbw_fields)

lemma failing_geometry:
  "get_geometry disk_io (failing t ops True) = (Ok \<lparr>blocks = 8, block_size = 512\<rparr>, failing (t + 1) (ops @ [0x25]) True)"
proof -
  have n: "length test_bytes = 4096" by (simp add: test_bytes_def)
  have wrapper: "disk_wrapper (cbw u len k l [0x25, 0, 0, 0, 0, 0, 0, 0, 0, 0]) d = (Ok 31, d\<lparr>commands := commands d @ [0x25],
      reads := reads d @ [to_be_bytes_u32 7 @ to_be_bytes_u32 512, csw_bytes u 0 0]\<rparr>)" if "disk_bytes d = test_bytes" for u len k l d
    using that n by (simp add: disk_wrapper_def cbw_fields disk_status_csw)
  have four: "length (to_be_bytes_u32 w) = 4" "to_be_bytes_u32 w \<noteq> []" for w by (simp_all add: to_be_bytes_u32_def)
  have "is_power_of_two 512" by (rule disk64.bs_pow2)
  then show ?thesis
    by (simp add: failing_def range_disk_def get_geometry_def on_fake_run disk_write_def disk_read_def wrapper four
        check_csw_valid cbw_fields slice_def Let_def)
qed

lemma failing_connect:
  "connect disk_io ReadWrite (failing 0 [] True) =
     (Ok \<lparr>scsi = failing 2 [0, 0x25] True, geometry = \<lparr>blocks = 8, block_size = 512\<rparr>, access = ReadWrite\<rparr>, failing 2 [0, 0x25] True)"
  by (simp add: connect_def initialize_ready_def match_result_def and_then_def failing_ready failing_geometry act_simps
      unsigned_minus_1_eq_mask mask_eq_exp_minus_1)

lemma failing_write:
  assumes "32 \<le> uw"
  shows "\<exists>c. write_blocks uw disk_io 0 1 512 (replicate 512 4) (failing t ops True) = (Err (Usb Disconnected), c) \<and> \<not> usable c"
proof -
  have "block_command uw 0x2a 0 1 512 = Inr (rw_cdb 0x2a 0 1, 512)"
    using disk64.bs_pow2 power_increasing [OF assms, of "2 :: nat"] by (simp add: block_command_Inr rw_cdb_def)
  moreover have "chunks max_chunk (replicate 512 4) = [replicate 512 (4 :: u8)]" by (rule chunks_single) (simp_all add: max_chunk_def)
  moreover have "length (cbw u len k l (rw_cdb 0x2a 0 1)) = 31" for u len k l by (simp add: rw_cdb_def cbw_fields)
  moreover have "length (rw_cdb 0x2a 0 1) = 10" by (simp add: rw_cdb_def to_be_bytes_u32_def to_be_bytes_u16_def)
  moreover have "rw_cdb 0x2a 0 1 \<noteq> []" by (simp add: rw_cdb_def)
  ultimately show ?thesis
    by (simp add: write_blocks_def failing_def range_disk_def command_def bad_shape_def u32_try_from_def exchange_def
        data_stage_def data_out_def with_io_def and_then_def act_simps disk_write_def disk_wrapper_write disk_data_def)
qed

lemma uncertain_test:
  assumes "32 \<le> uw"
  shows "uncertain_write_retires_without_retry_or_flush uw"
proof -
  let ?s = "\<lparr>scsi = failing 2 [0, 0x25] True, geometry = \<lparr>blocks = 8, block_size = 512\<rparr>, access = ReadWrite\<rparr>"
  have x: "span ?s 0 512 = Inr (0, 1, 0)"
    by (simp add: span_def size_bytes_def max_range_bytes_def checked_add_def div_ceil_def u16_try_from_def)
  obtain c where c: "write_blocks uw disk_io 0 1 512 (replicate 512 4) (failing 2 [0, 0x25] True) = (Err (Usb Disconnected), c)"
    "\<not> usable c" using failing_write [OF assms] by blast
  have "checked_mul uw 1 512 = Some 512" using power_increasing [OF assms, of "2 :: nat"] by (simp add: checked_mul_def)
  then have w: "write_range uw disk_io 0 (replicate 512 4) ?s = (Err (Usb Disconnected), ?s\<lparr>scsi := c\<rparr>)"
    using x c(1) by (simp add: write_range_def Let_def act_simps with_scsi_def)
  have "sync disk_io (?s\<lparr>scsi := c\<rparr>) = (Err Retired, ?s\<lparr>scsi := c\<rparr>)"
    using c(2) by (simp add: sync_def with_scsi_def flush_def command_def and_then_def)
  moreover have "scsi_new disk_io (range_disk True) 0 = Inr (failing 0 [] True)"
    by (simp add: scsi_new_def failing_def range_disk_def)
  ultimately show ?thesis using w
    by (simp add: uncertain_write_retires_without_retry_or_flush_def connected_def expect_def failing_connect)
qed

section \<open>All of them\<close>

text \<open>
  The crate's unit tests pass on the model: the eleven of \<open>lib.rs\<close> and the three of \<open>range.rs\<close>, on targets
  of 32 bits or more and whatever text the USB library gives its errors.
\<close>

theorem unit_tests_pass:
  assumes "32 \<le> uw"
  shows "cleanup_retains_primary_failure_and_its_context usb \<and> get_max_lun_targets_the_selected_interface \<and>
    max_lun_requires_a_valid_reply_or_the_standard_single_lun_stall \<and> selected_lun_cannot_exceed_the_connected_transport \<and>
    validates_csw_and_flush \<and> rejects_short_writes \<and> failed_scsi_command_remains_available_for_sense \<and>
    new_session_consumes_only_recognized_current_unit_attention \<and>
    initialization_does_not_loop_or_retry_transport_uncertainty \<and> rejects_invalid_ranges uw \<and>
    successful_eject_retires_the_session \<and> unaligned_write_preserves_other_bytes_and_fresh_reads_match uw \<and>
    invalid_and_read_only_ranges_issue_no_commands uw \<and> uncertain_write_retires_without_retry_or_flush uw"
  using assms by (intro conjI lib_tests flush_tests attention_tests unaligned_test invalid_test uncertain_test)

theorem unit_tests_pass_witness: "unaligned_write_preserves_other_bytes_and_fresh_reads_match 32 \<and> rejects_invalid_ranges 32"
  using unit_tests_pass [of 32] by simp

end
