(* ===== verification/Spec2Isabelle.thy ===== *)
theory Spec2Isabelle
  imports Fastboot_Properties Fs_Machine Wasm_Filesystem Probe_Properties Usb_Stack Unit_Tests
begin

text \<open>
  A verification library for the managed storage stack: a USB export of a phone's partition is
  opened over Bulk-Only Transport, read and written as SCSI blocks, presented as byte ranges, and
  mounted as FAT or ext4 by a worker that owns no USB. All paths below are under \<open>src/\<close>.

  \<^bold>\<open>The program and the theories that model it, bottom up.\<close>

  \<^item> \<open>Prelude\<close>: words, byte encodings, slices, JSON values, and the actions in which every Rust
    function is written. The outcome of a call is \<open>Ok\<close>, \<open>Err\<close>, \<open>Dropped\<close> (an \<open>await\<close> whose future the
    caller dropped, or a timer that won a race) or \<open>Panicked\<close>; \<open>and_then\<close> is \<open>?\<close>, \<open>match_result\<close> a match on
    a result. \<open>within R m\<close> (every run relates its states by \<open>R\<close>) and \<open>safe P m\<close> (no panic, \<open>P\<close> kept) carry
    most proofs, by one rule per combinator in \<open>within_intros\<close> and \<open>safe_intros\<close>.
  \<^item> \<open>Bulk_Io\<close>: \<open>nusb-scsi/src/lib.rs\<close>, \<open>Error\<close> and the trait \<open>BulkIo\<close> as a record; the locale \<open>bulk_transport\<close>
    is its contract, interpreted on the crate's scripted \<open>Fake\<close> and, by \<open>nusb_bulk_transport\<close>, proved of
    \<open>NusbIo\<close>. \<open>traced\<close> adds a log of the wire to any transport, in which a write that
    reports another count than its length leaves a mark.
  \<^item> \<open>Scsi\<close>: \<open>struct Scsi\<close>, its fields in the record \<open>scsi\<close>, one definition per method. \<open>Scsi_Framing\<close> has the
    cases of \<open>command\<close>, and \<open>Scsi_Properties\<close> its framing, retirement, order and layouts.
  \<^item> \<open>Range_Session\<close>: \<open>nusb-scsi/src/range.rs\<close>, \<open>RangeSession\<close>. \<open>Range_Facts\<close> has the arithmetic of \<open>span\<close>.
    \<open>Range_Contract\<close> states the layer below as the locale \<open>block_store\<close> and refines both range
    operations to one flat array of bytes in it. \<open>Bot_Target\<close> states a disk on the other side of the
    wire as the locale \<open>bot_target\<close>, which is a \<open>block_store\<close> (\<open>sublocale\<close>); \<open>Disk_Target\<close> interprets it on
    the in-memory disk of the crate's tests for 32- and 64-bit \<open>usize\<close>. \<open>Range_Properties\<close> has the
    claims, over single operations and over the step relation \<open>range_steps\<close>. \<open>Transport_Simulation\<close> carries
    a relation between two transports (the locale \<open>bulk_simulation\<close>, interpreted on the recorded
    transport) through every operation above them. \<open>Range_Machine\<close> is the abstract specification of the
    session, the machine \<open>flat_run\<close> over one list of bytes, which every run of calls refines.
  \<^item> \<open>Nusb_Open\<close>, \<open>Nusb_Properties\<close>: \<open>NusbIo\<close>, opening, transfers and both teardowns. The USB library and the
    browser's device are the records \<open>nusb\<close> and \<open>web_usb\<close> of the calls the code makes; \<open>usb_completes\<close> and
    \<open>usb_drains\<close> state what the library documents of them, its panics included. \<open>Usb_Stack\<close> builds a
    USB library in front of any transport (\<open>usb_over\<close>), interprets \<open>bulk_simulation\<close> on \<open>NusbIo\<close> over it for
    32- and 64-bit \<open>usize\<close>, and so composes opening, SCSI, ranges and teardown over the disk.
  \<^item> \<open>Unit_Tests\<close>: the unit tests of \<open>nusb-scsi\<close>, one definition per test.
  \<^item> \<open>Managed_Web\<close>, \<open>Managed_Properties\<close>: \<open>canoe-usb-web/src/managed.rs\<close>, the browser's
    \<open>ManagedStorageSession\<close>. Its client is an \<open>Option\<close> that is taken for the duration of a call.
  \<^item> \<open>Fastboot_Web\<close>, \<open>Fastboot_Properties\<close>: \<open>canoe-usb-web/src/lib.rs\<close>, \<open>FastbootSession\<close>. The fastboot engine
    and the base64 decoder are parameters.
  \<^item> \<open>Probe\<close>, \<open>Probe_Properties\<close>: \<open>nusb-scsi/examples/managed_probe.rs\<close>, the read-only qualification tool on
    the native side: \<open>run\<close> and \<open>main\<close> with their reports, which are a list in the state.
  \<^item> \<open>Guarded_Device\<close>, \<open>Guarded_Properties\<close>: \<open>Guarded\<close> and the cursor \<open>Io\<close> of \<open>canoe-fs/src/lib.rs\<close>, the only
    way from an engine to the device. \<open>logged\<close> adds a log to any device.
  \<^item> \<open>Ext4_Adapter\<close>: \<open>nusb-ext4/src/lib.rs\<close>, inspection through \<open>ReadOnly\<close> and the mount that refuses.
  \<^item> \<open>Fs_Path\<close> (path validation), \<open>Fs_Engines\<close> (the engines as records, the state \<open>session\<close>), \<open>Fs_Session\<close>,
    \<open>Fs_Mutations\<close> and \<open>Fs_Listing\<close> (every method of \<open>Session\<close> in \<open>canoe-fs/src/lib.rs\<close>).
    \<open>Fs_Confinement\<close> and \<open>Fs_Steps\<close> show what each lets through to the device, \<open>Fs_Properties\<close> composes them
    into \<open>fs_steps\<close>, any sequence of operations; \<open>Fs_Lifecycle\<close>, \<open>Fs_Functional\<close>, \<open>Fs_Totality\<close>, \<open>Fs_Reports\<close> and
    \<open>Fs_Directory\<close> hold the other claims, \<open>Fs_Machine\<close> the abstract life of a session as a machine of three
    states, which it refines, \<open>Fs_Samples\<close> small engines on which they are evaluated.
  \<^item> \<open>Wasm_Filesystem\<close>: \<open>canoe-fs/src/wasm.rs\<close>, the broker device with its JavaScript offsets, \<open>openFilesystem\<close>
    and every method of the exported object; their step relation \<open>js_steps\<close> is \<open>fs_steps\<close> over the operations
    the calls stand for. \<open>Broker_View\<close> shows that a session cannot tell devices apart that are the same
    behind the bounds of \<open>Guarded\<close>; that carries every operation from the broker's numbers to exact offsets.
\<close>

text \<open>
  \<^bold>\<open>How engines are modelled.\<close> The crates \<open>fatfs\<close> and \<open>fs_ext4\<close> are not part of the repository. An engine
  is a record of programs, trees that make a device call or return, so a theorem \<open>for all engines\<close>
  covers every way an engine can call the device, reading its answers, and every value it can
  return. What this form assumes of them is that each call terminates and does not panic; their
  results are otherwise unrestricted. Destructors are programs of their own (\<open>fat_drop\<close>, \<open>x_drop\<close>), run
  where Rust runs them. No theorem assumes that an engine stores data correctly.

  \<^bold>\<open>Numbers and time.\<close> Fixed-width integers are words; \<open>usize\<close> is a natural number below \<open>2 ^ uw\<close>, with \<open>uw\<close> (or
  \<open>usize_bits\<close>) a parameter, since the code ships for 64-bit hosts and for 32-bit WASM. Checked
  arithmetic returns an option, a division or slice that can panic is a branch, and where the source
  uses plain \<open>+\<close> and \<open>*\<close> the model wraps as a release build does (the products of \<open>inspect\<close>, the bytes of
  the capacity report); \<open>next_multiple_of\<close> panics, as with overflow checks. An await that is
  abandoned has the outcome \<open>Dropped\<close>. A race against a timer (\<open>deadline\<close>, \<open>bounded\<close>) turns that into its
  timeout. Where races nest, as the five seconds of \<open>connect_web\<close> inside the 20 of \<open>openManagedStorage\<close>, a
  parameter (\<open>own\<close>, \<open>inner\<close>) says whose timer ran out; when it was the outer one, the inner call is dropped
  where it stands, and \<open>drop_interface\<close> is what dropping its claimed interface does. \<open>awaited\<close> stands for a
  caller that waits to the end.

  \<^bold>\<open>Loops.\<close> There is no fuel. Loops that end are structural or have a measure (\<open>data_in\<close>, \<open>chunks\<close>, the
  bounded directory and read loops, which recurse on the bound the code tests). The two that need
  not end are partial functions into \<open>option\<close>: \<open>drain\<close> of \<open>Nusb_Open\<close>, proved to return when every wait
  on an endpoint whose transfers were cancelled returns one of them, and \<open>list_scan\<close> of \<open>Fs_Listing\<close>, proved to return on every directory that ends.

  \<^bold>\<open>What the groups of lemmas show.\<close> On the wire: a command that succeeds was framed exactly, what it
  sends is its wrapper and a prefix of its data, and every uncertain end retires the session; a
  read-only session, and the probe, never send a WRITE. Bytes: reads and writes of ranges are
  reads and updates of a flat array over any conforming disk, and every run of calls is answered as one
  list of bytes answers it, also through \<open>NusbIo\<close> and a USB library. Browser sessions: a session is
  certain or closed, opening closes the device on failure, and cleanup never hides the first error;
  a timeout inside \<open>connect_web\<close> closes it without releasing the interface first. Filesystems: engines stay inside the device and never write when read-only; a failed change
  retires; nothing is overwritten, no gap is left; \<open>finish\<close> flushes last, \<open>abort\<close> touches nothing; no
  operation panics; a writable mount is refused by what inspection finds; the exported object does
  what the session does, call by call, and broker offsets are exact.

  \<^bold>\<open>Not modelled.\<close> The JavaScript worker and page code under \<open>browser/\<close>, the harnesses under
  \<open>qualification/\<close>, the build and CI scripts, and the integration tests \<open>canoe-fs/tests/session.rs\<close>, which run
  command-line tools on images, and the two tests of \<open>nusb-ext4\<close>, which format images with the ext4
  crate itself. JavaScript glue (\<open>extern\<close> blocks, property setters) appears as the calls it makes.
\<close>

section \<open>Properties that span components\<close>

text \<open>
  C27: The storage stack as it is opened never panics, from the USB transport to the byte ranges. Over
  every USB library that keeps its documentation, one that panics when an IN request is not made of
  whole packets or when a completion is awaited with nothing pending included, on targets of 32 bits
  or more, once \<open>NusbIo::connect\<close> has opened an interface whose bulk IN packets are 1 to 65536 bytes, neither \<open>RangeSession::connect\<close>
  nor any read, write, sync or eject in any sequence that follows panics, for every LUN and access
  mode, whatever the device answers and wherever the caller drops a call.
\<close>

theorem opened_storage_never_panics:
  assumes "usb_completes N packet" "32 \<le> uw" "nusb_connect N i setting timeout w = (Ok h, v)"
    and "0 < input_packet_size h" "input_packet_size h \<le> 65536" "scsi_new (nusb_bulk uw N) (h, v) l = Inr c"
  shows "fst (connect (nusb_bulk uw N) a c) \<noteq> Panicked \<and>
    (\<forall>s d t. connect (nusb_bulk uw N) a c = (Ok s, d) \<longrightarrow> range_steps uw (nusb_bulk uw N) s t \<longrightarrow>
      fst (read_range uw (nusb_bulk uw N) offset len t) \<noteq> Panicked \<and>
      fst (write_range uw (nusb_bulk uw N) offset bytes t) \<noteq> Panicked \<and>
      fst (sync (nusb_bulk uw N) t) \<noteq> Panicked \<and> fst (range_eject (nusb_bulk uw N) t) \<noteq> Panicked)"
proof -
  note T = nusb_bulk_transport [OF assms(1,2)]
  have "input_packet_size h = packet (io_input h)"
    by (rule initialize_packet [OF assms(1) assms(3) [unfolded nusb_connect_def]])
  then have c: "packets_ok packet (io c)" using assms(4-6) by (auto simp: scsi_new_def packets_ok_def split: if_splits)
  note connected = safeD [OF bulk_transport.connect_safe [OF T] c]
  have "range_inv t \<and> packets_ok packet (io (scsi t))"
    if "connect (nusb_bulk uw N) a c = (Ok s, d)" "range_steps uw (nusb_bulk uw N) s t" for s d t
    using bulk_transport.range_steps_good [OF T that(2) assms(2)] connect_Ok [OF that(1)] connected [OF that(1)] by simp
  then show ?thesis
    using safe_total [OF bulk_transport.connect_safe [OF T] c] bulk_transport.range_safe [OF T assms(2), THEN safe_total] by blast
qed

theorem opened_storage_never_panics_witness:
  "\<exists>(h :: (bool, unit, unit) nusb_io) v c. nusb_connect (sample_usb 512) () 0 (5 * 10 ^ 9) (0, 0) = (Ok h, v) \<and>
     scsi_new (nusb_bulk 32 (sample_usb 512)) (h, v) 0 = Inr c \<and>
     fst (connect (nusb_bulk 32 (sample_usb 512)) ReadWrite c) \<noteq> Panicked"
proof -
  let ?N = "sample_usb 512"
  have h: "nusb_connect ?N () 0 (5 * 10 ^ 9) (0, 0) = (Ok (sample_handle 512), (0, 0))"
    by (simp add: nusb_connect_def initialize_def validate_timeout_def from_interface_def sample_usb_def sample_alt_def
        act_simps match_result_def and_then_def parse_max_lun_def is_bulk_in_def is_bulk_out_def)
  have c: "scsi_new (nusb_bulk 32 ?N) (sample_handle 512, (0, 0)) 0 =
      Inr \<lparr>io = (sample_handle 512, (0, 0)), tag = 0, lun = 0, usable = True\<rparr>"
    by (simp add: scsi_new_def nusb_bulk_def)
  have "fst (connect (nusb_bulk 32 ?N) ReadWrite \<lparr>io = (sample_handle 512, (0, 0)), tag = 0, lun = 0, usable = True\<rparr>) \<noteq> Panicked"
    using opened_storage_never_panics [OF sample_completes [of 512] order_refl h _ _ c, of ReadWrite] by simp
  with h c show ?thesis by (intro exI conjI)
qed

end
